(* ===== verification/Kernel_Prelude.thy ===== *)
theory Kernel_Prelude
  imports
    Main
    "HOL-Library.Word"
    "HOL-Library.Monad_Syntax"
    "HOL-Library.Signed_Division"
    "HOL-Library.List_Lexorder"
begin

text \<open>
  What every component of the bridge model shares.

  \<^item> The machine types of the target (32-bit ARM, little endian; \<open>HZ = 1000\<close> in the
    kernel's \<open>.config\<close>).
  \<^item> Computations that may fault. A C function that dereferences a pointer becomes a
    function into \<open>'s option\<close>: \<open>None\<close> is the fault (a NULL dereference, a \<open>BUG_ON\<close>),
    \<open>Some s\<close> the state it leaves behind. \<open>runs m Q\<close> is the total-correctness statement
    "\<open>m\<close> does not fault and \<open>Q\<close> holds afterwards"; its rules carry the invariant proofs of
    all components.
  \<^item> \<open>for_each\<close>, the shape of \<open>list_for_each_entry\<close> when the body changes the state.
  \<^item> \<open>memcmp\<close> of \<open>lib/string.c\<close>, the jiffies comparisons of \<open>include/linux/jiffies.h\<close>,
    the timer rounding of \<open>kernel/timer.c\<close> and the part of the timer interface
    (\<open>mod_timer\<close>, \<open>del_timer\<close>, \<open>timer_pending\<close>) the bridge uses.
\<close>

section \<open>Machine types\<close>

type_synonym u8 = "8 word"
type_synonym u16 = "16 word"
type_synonym u32 = "32 word"
type_synonym u64 = "64 word"

definition HZ :: u32 where
  "HZ = 1000"

lemma nat_div_bounds:
  assumes "0 < (d :: nat)"
  shows "d * (n div d) \<le> n" "n < d * (n div d) + d"
  using assms dividend_less_times_div [OF assms, of n] by (simp_all)

section \<open>Computations that may fault\<close>

named_theorems runs_rules \<open>weakest-precondition equations for faulting computations\<close>

definition runs :: "'a option \<Rightarrow> ('a \<Rightarrow> bool) \<Rightarrow> bool" where
  "runs m Q \<longleftrightarrow> (case m of None \<Rightarrow> False | Some a \<Rightarrow> Q a)"

lemma runs_None [simp, runs_rules]: "\<not> runs None Q"
  by (simp add: runs_def)

lemma runs_Some [simp, runs_rules]: "runs (Some a) Q \<longleftrightarrow> Q a"
  by (simp add: runs_def)

lemma runs_bind [simp, runs_rules]: "runs (Option.bind m f) Q \<longleftrightarrow> runs m (\<lambda>a. runs (f a) Q)"
  by (cases m) simp_all

lemma runs_if [runs_rules]: "runs (if b then m else m') Q \<longleftrightarrow> (if b then runs m Q else runs m' Q)"
  by simp

lemma runs_iff_ex: "runs m Q \<longleftrightarrow> (\<exists>a. m = Some a \<and> Q a)"
  by (cases m) simp_all

lemma runs_mono: "runs m P \<Longrightarrow> (\<And>a. P a \<Longrightarrow> Q a) \<Longrightarrow> runs m Q"
  by (auto simp: runs_iff_ex)

lemma runs_conj: "runs m P \<Longrightarrow> runs m Q \<Longrightarrow> runs m (\<lambda>a. P a \<and> Q a)"
  by (auto simp: runs_iff_ex)

lemma runsD: "runs m Q \<Longrightarrow> m = Some a \<Longrightarrow> Q a"
  by simp

lemma runs_ex: "runs m Q \<Longrightarrow> \<exists>a. m = Some a"
  by (auto simp: runs_iff_ex)

section \<open>Loops over a list\<close>

primrec for_each :: "('a \<Rightarrow> 's \<Rightarrow> 's option) \<Rightarrow> 'a list \<Rightarrow> 's \<Rightarrow> 's option" where
  "for_each f [] s = Some s"
| "for_each f (x # xs) s = Option.bind (f x s) (for_each f xs)"

lemma for_each_append [simp]:
  "for_each f (xs @ ys) s = Option.bind (for_each f xs s) (for_each f ys)"
  by (induction xs arbitrary: s) (auto intro!: Option.bind_cong)

text \<open>The loop rule: an invariant that every iteration re-establishes holds at the end, and
  the loop does not fault.\<close>

lemma for_each_runs:
  assumes "I s" and "\<And>x s. x \<in> set xs \<Longrightarrow> I s \<Longrightarrow> runs (f x s) I"
  shows "runs (for_each f xs s) I"
  using assms
proof (induction xs arbitrary: s)
  case Nil
  then show ?case by simp
next
  case (Cons x xs)
  have "runs (f x s) I" using Cons.prems by simp
  then show ?case
    by (auto intro!: Cons.IH Cons.prems(2) elim!: runs_mono)
qed

text \<open>The same rule for a loop known not to fault: only preservation is needed.\<close>

lemma for_each_preserves:
  assumes "for_each f xs s = Some s'" and "I s"
    and "\<And>x s s'. x \<in> set xs \<Longrightarrow> I s \<Longrightarrow> f x s = Some s' \<Longrightarrow> I s'"
  shows "I s'"
  using assms
proof (induction xs arbitrary: s)
  case Nil
  then show ?case by simp
next
  case (Cons x xs)
  then obtain t where t: "f x s = Some t" "for_each f xs t = Some s'"
    by (auto simp: bind_eq_Some_conv)
  have "I t" using Cons.prems(3) [OF _ Cons.prems(2) t(1)] by simp
  then show ?case using Cons.prems(3) by (intro Cons.IH [OF t(2)]) auto
qed

text \<open>The loop rule with the part of the list already visited.\<close>

lemma for_each_prefix:
  assumes "I [] s"
    and "\<And>pre x post s. xs = pre @ x # post \<Longrightarrow> I pre s \<Longrightarrow> runs (f x s) (I (pre @ [x]))"
  shows "runs (for_each f xs s) (I xs)"
  using assms
proof (induction xs arbitrary: I s)
  case (Cons x xs)
  have "runs (f x s) (I [x])" using Cons.prems(2) [of "[]" x xs s] Cons.prems(1) by simp
  moreover have "runs (for_each f xs t) (I (x # xs))" if "I [x] t" for t
    using that Cons.prems(2) [of "x # _"] by (intro Cons.IH [of "\<lambda>pre. I (x # pre)"]) auto
  ultimately show ?case by (auto elim!: runs_mono)
qed simp

lemma for_each_cong:
  assumes "\<And>x s. x \<in> set xs \<Longrightarrow> f x s = g x s"
  shows "for_each f xs s = for_each g xs s"
  using assms by (induction xs arbitrary: s) (auto intro!: Option.bind_cong)

section \<open>Comparing memory\<close>

text \<open>
  \<open>memcmp\<close> of \<open>lib/string.c\<close>: the difference of the first two bytes that differ, 0 when the
  first \<open>count\<close> bytes agree. The C code is only called with \<open>count\<close> at most the length of
  both areas; the last equation gives the model a value outside that range.
\<close>

fun memcmp :: "u8 list \<Rightarrow> u8 list \<Rightarrow> nat \<Rightarrow> int" where
  "memcmp cs ct 0 = 0"
| "memcmp (x # cs) (y # ct) (Suc n) =
     (let res = uint x - uint y in if res \<noteq> 0 then res else memcmp cs ct n)"
| "memcmp _ _ (Suc n) = 0"

lemma memcmp_less_iff:
  "length xs = n \<Longrightarrow> length ys = n \<Longrightarrow> memcmp xs ys n < 0 \<longleftrightarrow> xs < ys"
  by (induction xs ys n rule: memcmp.induct)
    (auto simp: Let_def word_less_def word_uint_eq_iff)

lemma memcmp_eq_0_iff:
  "length xs = n \<Longrightarrow> length ys = n \<Longrightarrow> memcmp xs ys n = 0 \<longleftrightarrow> xs = ys"
  by (induction xs ys n rule: memcmp.induct) (auto simp: Let_def word_uint_eq_iff)

section \<open>Jiffies\<close>

text \<open>
  \<open>unsigned long\<close> and \<open>long\<close> are 32 bits wide; the subtraction of the C macros wraps, and
  its result is read as a signed number.
\<close>

definition time_after :: "u32 \<Rightarrow> u32 \<Rightarrow> bool" where
  "time_after a b \<longleftrightarrow> sint (b - a) < 0"

definition time_before :: "u32 \<Rightarrow> u32 \<Rightarrow> bool" where
  "time_before a b \<longleftrightarrow> time_after b a"

definition time_after_eq :: "u32 \<Rightarrow> u32 \<Rightarrow> bool" where
  "time_after_eq a b \<longleftrightarrow> sint (a - b) \<ge> 0"

definition time_before_eq :: "u32 \<Rightarrow> u32 \<Rightarrow> bool" where
  "time_before_eq a b \<longleftrightarrow> time_after_eq b a"

lemma time_after_iff_not_before_eq: "time_after a b \<longleftrightarrow> \<not> time_before_eq a b"
  by (simp add: time_after_def time_before_eq_def time_after_eq_def not_le)

lemma time_before_iff_not_after_eq: "time_before a b \<longleftrightarrow> \<not> time_after_eq a b"
  by (simp add: time_before_def time_after_def time_after_eq_def not_le)

lemma sint_nonneg_iff_unat:
  "sint (w :: u32) \<ge> 0 \<longleftrightarrow> unat w < 2 ^ 31"
proof -
  have "sint w \<ge> 0 \<longleftrightarrow> \<not> bit w 31"
    using bit_last_iff [of w] by (simp add: not_less)
  moreover have "bit w 31 \<longleftrightarrow> 2 ^ 31 \<le> unat w"
  proof -
    have lt: "unat w < 2 ^ 32" using unsigned_less [of w] by simp
    have "bit w 31 \<longleftrightarrow> odd (unat w div 2 ^ 31)"
      using bit_unsigned_iff [of w 31, where ?'a = nat] by (simp add: bit_iff_odd)
    also have "\<dots> \<longleftrightarrow> 2 ^ 31 \<le> unat w"
    proof (cases "2 ^ 31 \<le> unat w")
      case True
      then have "unat w div 2 ^ 31 = 1" using lt by (simp add: div_nat_eqI)
      with True show ?thesis by simp
    next
      case False
      then show ?thesis by simp
    qed
    finally show ?thesis .
  qed
  ultimately show ?thesis by (simp add: not_le)
qed

lemma uint_less_2_31: "unat (w :: u32) < 2 ^ 31 \<Longrightarrow> uint w < 2 ^ 31"
  by (metis of_nat_unat of_nat_less_iff of_nat_numeral of_nat_power)

lemma sint_small:
  assumes "unat (w :: u32) < 2 ^ 31"
  shows "sint w = uint w"
proof -
  have "signed_take_bit 31 (uint w) = uint w"
    using uint_less_2_31 [OF assms]
    by (intro signed_take_bit_int_eq_self) (auto intro: order_trans [of _ 0])
  then show ?thesis by (simp add: sint_uint)
qed

text \<open>A time less than half the counter's range ahead of \<open>a\<close> is after \<open>a\<close>, whether or not the
  counter wraps in between.\<close>

lemma sint_le_iff:
  fixes a b :: u32
  assumes "unat a < 2 ^ 31" "unat b < 2 ^ 31"
  shows "sint a \<le> sint b \<longleftrightarrow> unat a \<le> unat b" "sint a < sint b \<longleftrightarrow> unat a < unat b"
  using assms word_le_def [of a b] word_less_def [of a b]
  by (simp_all add: sint_small word_le_nat_alt word_less_nat_alt)

lemma time_after_eq_add: "d < 2 ^ 31 \<Longrightarrow> time_after_eq (a + of_nat d) a"
  by (simp add: time_after_eq_def sint_nonneg_iff_unat unat_of_nat take_bit_nat_eq_self)

lemma word_diff_less_half_iff:
  fixes t h :: u32
  assumes "unat h < 2 ^ 31" "unat t < 2 ^ 31"
  shows "unat (t - h) < 2 ^ 31 \<longleftrightarrow> h \<le> t"
  using assms by (auto simp: unat_sub_if' word_size word_le_nat_alt)

lemma time_before_eq_add_iff:
  assumes "unat h < 2 ^ 31" "unat t < 2 ^ 31"
  shows "time_before_eq (a + h) (a + t) \<longleftrightarrow> h \<le> t"
  using word_diff_less_half_iff [OF assms]
  by (simp add: time_before_eq_def time_after_eq_def sint_nonneg_iff_unat)

section \<open>Timers\<close>

text \<open>
  A \<open>struct timer_list\<close>: \<open>None\<close> when it is not pending, \<open>Some expires\<close> when it is. The slack
  \<open>mod_timer\<close> may add to \<open>expires\<close> only delays the expiry.
\<close>

type_synonym timer = "u32 option"

definition timer_pending :: "timer \<Rightarrow> bool" where
  "timer_pending t \<longleftrightarrow> t \<noteq> None"

definition mod_timer :: "timer \<Rightarrow> u32 \<Rightarrow> timer" where
  "mod_timer t expires = Some expires"

definition del_timer :: "timer \<Rightarrow> timer" where
  "del_timer t = None"

lemma timer_pending_simps [simp]:
  "timer_pending (mod_timer t e)" "\<not> timer_pending (del_timer t)"
  "timer_pending (Some e)" "\<not> timer_pending None"
  by (simp_all add: timer_pending_def mod_timer_def del_timer_def)

text \<open>
  \<open>round_jiffies_common (j, cpu, force_up)\<close> of \<open>kernel/timer.c\<close>; \<open>now\<close> is the value of the
  global \<open>jiffies\<close>. \<open>int rem = j % HZ\<close> is below \<open>HZ\<close>, so it is kept unsigned.
\<close>

definition round_jiffies_common :: "u32 \<Rightarrow> u32 \<Rightarrow> u32 \<Rightarrow> bool \<Rightarrow> u32" where
  "round_jiffies_common now j0 cpu force_up =
     (let j = j0 + cpu * 3;
          rem = j mod HZ;
          j = (if rem < HZ div 4 \<and> \<not> force_up then j - rem else j - rem + HZ);
          j = j - cpu * 3
      in if j \<le> now then j0 else j)"

definition round_jiffies :: "u32 \<Rightarrow> u32 \<Rightarrow> u32 \<Rightarrow> u32" where
  "round_jiffies cpu now j = round_jiffies_common now j cpu False"

definition round_jiffies_up :: "u32 \<Rightarrow> u32 \<Rightarrow> u32 \<Rightarrow> u32" where
  "round_jiffies_up cpu now j = round_jiffies_common now j cpu True"

end
