(* ===== verification/Bridge_Types.thy ===== *)
theory Bridge_Types
  imports Kernel_Prelude
begin

text \<open>
  The data of the bridge: Ethernet addresses (\<open>include/linux/etherdevice.h\<close>), bridge
  identifiers, forwarding-database entries, ports and bridges (\<open>net/bridge/br_private.h\<close>),
  and the accessors every component uses.

  A \<open>struct net_bridge_port *\<close> is the port's number: numbers are unique on a bridge and never
  0, so NULL is a number no port has. \<open>br_get_port\<close>, the lookup by number of \<open>br_stp.c\<close>, is
  also the dereference, and \<open>upd_port\<close> a store through the pointer. Fields that
  no modelled code reads (locks, lists heads, statistics, kobjects, netpoll) are left out of the
  records. The kernel globals the code reads (\<open>jiffies\<close>, the number of the running CPU, the salts
  of the two hash functions) and the calls that leave the bridge (frames handed to
  \<open>br_send_bpdu\<close>, notifications) are kept beside the C fields of \<open>net_bridge\<close>.
\<close>

section \<open>Ethernet addresses\<close>

datatype mac_addr = Mac u8 u8 u8 u8 u8 u8

fun mac_bytes :: "mac_addr \<Rightarrow> u8 list" where
  "mac_bytes (Mac a b c d e f) = [a, b, c, d, e, f]"

lemma length_mac_bytes [simp]: "length (mac_bytes m) = 6"
  by (cases m) simp

lemma mac_bytes_inject [simp]: "mac_bytes m = mac_bytes n \<longleftrightarrow> m = n"
  by (cases m; cases n) auto

text \<open>A little-endian 16-bit load of two bytes, as \<open>*(const u16 * ) p\<close> reads on the target.\<close>

definition load_le16 :: "u8 \<Rightarrow> u8 \<Rightarrow> u16" where
  "load_le16 lo hi = or (ucast lo) (push_bit 8 (ucast hi))"

lemma bit_load_le16:
  "bit (load_le16 lo hi) n \<longleftrightarrow> (if n < 8 then bit lo n else n < 16 \<and> bit hi (n - 8))"
  by (auto simp: load_le16_def bit_simps dest: bit_imp_le_length)

lemma load_le16_inject [simp]:
  "load_le16 a b = load_le16 c d \<longleftrightarrow> a = c \<and> b = d"
proof
  assume eq: "load_le16 a b = load_le16 c d"
  have "bit a n = bit c n" for n
    using arg_cong [OF eq, of "\<lambda>w. bit w n"]
    by (cases "n < 8") (auto simp: bit_load_le16 dest: bit_imp_le_length)
  moreover have "bit b n = bit d n" for n
    using arg_cong [OF eq, of "\<lambda>w. bit w (n + 8)"]
    by (cases "n < 8") (auto simp: bit_load_le16 dest: bit_imp_le_length)
  ultimately show "a = c \<and> b = d"
    by (simp add: bit_eq_iff)
qed simp

fun compare_ether_addr :: "mac_addr \<Rightarrow> mac_addr \<Rightarrow> bool" where
  "compare_ether_addr (Mac a0 a1 a2 a3 a4 a5) (Mac b0 b1 b2 b3 b4 b5) =
     (or (or (xor (load_le16 a0 a1) (load_le16 b0 b1))
             (xor (load_le16 a2 a3) (load_le16 b2 b3)))
         (xor (load_le16 a4 a5) (load_le16 b4 b5)) \<noteq> 0)"

lemma or_eq_0_word_iff: "or x y = 0 \<longleftrightarrow> x = 0 \<and> y = (0 :: 'a::len word)"
  by (auto simp: bit_eq_iff bit_simps)

lemma xor_eq_0_word_iff: "xor x y = 0 \<longleftrightarrow> x = (y :: 'a::len word)"
  by (auto simp: bit_eq_iff bit_simps)

text \<open>The three 16-bit comparisons are an equality test.\<close>

lemma compare_ether_addr_iff [simp]: "compare_ether_addr a b \<longleftrightarrow> a \<noteq> b"
  by (cases a; cases b) (auto simp: or_eq_0_word_iff xor_eq_0_word_iff)

fun is_zero_ether_addr :: "mac_addr \<Rightarrow> bool" where
  "is_zero_ether_addr (Mac a b c d e f) = (or (or (or (or (or a b) c) d) e) f = 0)"

fun is_multicast_ether_addr :: "mac_addr \<Rightarrow> bool" where
  "is_multicast_ether_addr (Mac a b c d e f) = (and 1 a \<noteq> 0)"

fun is_broadcast_ether_addr :: "mac_addr \<Rightarrow> bool" where
  "is_broadcast_ether_addr (Mac a b c d e f) =
     (and (and (and (and (and a b) c) d) e) f = 0xff)"

definition is_valid_ether_addr :: "mac_addr \<Rightarrow> bool" where
  "is_valid_ether_addr a \<longleftrightarrow> \<not> is_multicast_ether_addr a \<and> \<not> is_zero_ether_addr a"

lemma is_zero_ether_addr_iff: "is_zero_ether_addr m \<longleftrightarrow> m = Mac 0 0 0 0 0 0"
  by (cases m) (auto simp: or_eq_0_word_iff)

section \<open>Bridge identifiers\<close>

datatype bridge_id = Bridge_id (id_prio0: u8) (id_prio1: u8) (id_addr: mac_addr)

fun bridge_id_bytes :: "bridge_id \<Rightarrow> u8 list" where
  "bridge_id_bytes (Bridge_id p q m) = p # q # mac_bytes m"

lemma bridge_id_mac_cases:
  obtains p q a b c d e f where "x = Bridge_id p q (Mac a b c d e f)"
  by (cases x; cases "id_addr x") auto

lemma length_bridge_id_bytes [simp]: "length (bridge_id_bytes b) = 8"
  by (cases b) simp

lemma bridge_id_bytes_inject [simp]: "bridge_id_bytes a = bridge_id_bytes b \<longleftrightarrow> a = b"
  by (cases a; cases b) simp

definition memcmp_bridge_id :: "bridge_id \<Rightarrow> bridge_id \<Rightarrow> int" where
  "memcmp_bridge_id a b = memcmp (bridge_id_bytes a) (bridge_id_bytes b) 8"

text \<open>The order that \<open>memcmp (&a, &b, 8)\<close> decides is a linear order on identifiers.\<close>

instantiation bridge_id :: linorder
begin

definition less_eq_bridge_id :: "bridge_id \<Rightarrow> bridge_id \<Rightarrow> bool" where
  "a \<le> b \<longleftrightarrow> bridge_id_bytes a \<le> bridge_id_bytes b"

definition less_bridge_id :: "bridge_id \<Rightarrow> bridge_id \<Rightarrow> bool" where
  "a < b \<longleftrightarrow> bridge_id_bytes a < bridge_id_bytes b"

instance
  by standard (auto simp: less_eq_bridge_id_def less_bridge_id_def less_le)

end

lemma memcmp_bridge_id_simps [simp]:
  "memcmp_bridge_id a b < 0 \<longleftrightarrow> a < b"
  "memcmp_bridge_id a b = 0 \<longleftrightarrow> a = b"
  by (simp_all add: memcmp_bridge_id_def memcmp_less_iff memcmp_eq_0_iff less_bridge_id_def)

lemma memcmp_bridge_id_le [simp]: "memcmp_bridge_id a b \<le> 0 \<longleftrightarrow> a \<le> b"
  by (simp add: le_less)

lemma memcmp_bridge_id_gt [simp]: "memcmp_bridge_id a b > 0 \<longleftrightarrow> b < a"
  using memcmp_bridge_id_le [of a b] by (simp add: not_le [symmetric])

section \<open>Ports, entries, bridges\<close>

datatype br_state =
    BR_STATE_DISABLED | BR_STATE_LISTENING | BR_STATE_LEARNING
  | BR_STATE_FORWARDING | BR_STATE_BLOCKING

text \<open>The error codes the modelled code returns; an operation that can fail has a result of type
  \<open>errno + 'a\<close>.\<close>

datatype errno =
    EPERM | ENOENT | ENXIO | ENOMEM | EBUSY | EEXIST | ENODEV | EINVAL | ERANGE | EXFULL
  | ELOOP | EOPNOTSUPP | EADDRNOTAVAIL | EPFNOSUPPORT | ENETDOWN | EFAULT | ERESTARTNOINTR

datatype stp_enabled = BR_NO_STP | BR_KERNEL_STP | BR_USER_STP

text \<open>What the bridge reads of a \<open>struct net_device\<close>. \<open>dev_up\<close> is the \<open>IFF_UP\<close> flag,
  \<open>dev_running\<close> what \<open>netif_running\<close> and \<open>dev_carrier\<close> what \<open>netif_carrier_ok\<close> return,
  \<open>dev_xmit_is_bridge\<close> whether its transmit function is \<open>br_dev_xmit\<close>, \<open>dev_path_refcount\<close> the
  number of devices stacked on it and \<open>dev_phy_type\<close> the kind of hardware port below it.\<close>

record net_device =
  dev_ifindex :: nat
  dev_name :: string
  dev_addr :: mac_addr
  dev_up :: bool
  dev_running :: bool
  dev_carrier :: bool
  dev_promisc :: bool
  dev_priv_flags :: u32
  dev_mtu :: u32
  dev_loopback :: bool
  dev_type :: nat
  dev_addr_len :: nat
  dev_xmit_is_bridge :: bool
  dev_path_refcount :: nat
  dev_phy_type :: nat

text \<open>A frame: the MAC header (addresses and the type field as it is in the frame), \<open>skb->protocol\<close>, the
  bytes from the network header on, and what the bridge reads of the rest of \<open>struct sk_buff\<close>.\<close>

datatype pkt_type =
    PACKET_HOST | PACKET_BROADCAST | PACKET_MULTICAST | PACKET_OTHERHOST | PACKET_OUTGOING
  | PACKET_LOOPBACK

record sk_buff =
  skb_dest :: mac_addr
  skb_source :: mac_addr
  skb_h_proto :: u16
  skb_protocol :: u16
  skb_data :: "u8 list"
  skb_pkt_type :: pkt_type
  skb_dev :: net_device
  skb_gso :: bool
  skb_lro :: bool

text \<open>Multicast groups (\<open>br_igmp.h\<close>): a group a port has joined, with the hosts that reported it.
  \<open>from_dev\<close> is the device's interface index.\<close>

datatype filt_mode = MCAST_EXCLUDE | MCAST_INCLUDE

record net_bridge_mc_rep_entry =
  rep_addr :: u32
  rep_tstamp :: u32

record net_bridge_mc_fdb_entry =
  mc_dst :: u16
  mc_rxGrp :: u32
  mc_txGrp :: u32
  mc_rep_list :: "net_bridge_mc_rep_entry list"
  mc_src :: u32
  mc_filt_mode :: filt_mode
  mc_lan_tci :: u16
  mc_type :: nat
  mc_lanppp :: bool
  mc_excludePort :: int
  mc_from_dev :: nat
  mc_root :: bool
  mc_blog_idx :: "u32 option"

record net_bridge_fdb_entry =
  f_dst :: "u16 option"
  f_updated :: u32
  f_used :: u32
  f_addr :: mac_addr
  f_is_local :: bool
  f_is_static :: bool
  f_fdb_key :: u32

record net_bridge_port =
  p_dev :: net_device
  p_priority :: u8
  p_state :: br_state
  p_port_no :: u16
  p_topology_change_ack :: bool
  p_config_pending :: bool
  p_port_id :: u16
  p_designated_port :: u16
  p_designated_root :: bridge_id
  p_designated_bridge :: bridge_id
  p_path_cost :: u32
  p_designated_cost :: u32
  p_designated_age :: u32
  p_dirty :: bool
  p_forward_delay_timer :: timer
  p_hold_timer :: timer
  p_message_age_timer :: timer
  p_flags :: u32
  p_is_dedicated_stp_port :: bool
  p_is_bpdu_blocked :: bool

text \<open>Calls that leave the bridge, in the order they are made.\<close>

datatype br_effect =
    Dev_queue_xmit u16 "u8 list"
  | Br_log_state u16 br_state
  | Br_ifinfo_notify u16
  | Br_ifinfo_notify_del u16
  | Stp_state_changed string "br_state option"
  | Fdb_notify_new mac_addr nat u16
  | Fdb_notify_del mac_addr nat u16
  | Blog_notify_destroy mac_addr
  | Ethsw_clear_arl mac_addr
  | Br_mcast_netdevice_event nat
  | Call_netdevice_changeaddr nat
  | Call_netdevice_changemtu nat
  | Call_netdevice_join nat
  | Set_promiscuity nat bool
  | Br_flow_path_delete "nat option" nat
  | Br_flow_blog_rules nat nat
  | Br_dev_notify_if_change string
  | Unregister_netdevice nat
  | Skb_queue_xmit sk_buff
  | Netif_receive_skb sk_buff
  | Kfree_skb sk_buff
  | Nf_consumed sk_buff
  | Pktc_update_brc_hot mac_addr nat
  | Mcpd_pkt_info u16 bool bool "u8 list"
  | Mcpd_purge_entry u32 u32 u32
  | Mcast_blog_release "u32 option"

record net_bridge =
  b_port_list :: "net_bridge_port list"
  b_dev :: net_device
  b_hash :: "u8 \<Rightarrow> net_bridge_fdb_entry list"
  b_set_mac_addr :: bool
  b_num_fdb_entries :: int
  b_igmp_timer :: timer
  b_igmp_proxy :: bool
  b_igmp_snooping :: nat
  b_mc_hash :: "u8 \<Rightarrow> net_bridge_mc_fdb_entry list"
  b_igmp_delayed_skb :: "(sk_buff \<times> u32) option list"
  b_igmp_rate_limit :: u32
  b_igmp_rate_bucket :: u32
  b_igmp_rate_last_packet :: int
  b_igmp_rate_rem_time :: u32
  b_group_fwd_mask :: u16
  b_designated_root :: bridge_id
  b_bridge_id :: bridge_id
  b_root_path_cost :: u32
  b_max_age :: u32
  b_hello_time :: u32
  b_forward_delay :: u32
  b_bridge_max_age :: u32
  b_ageing_time :: u32
  b_bridge_hello_time :: u32
  b_bridge_forward_delay :: u32
  b_group_addr :: mac_addr
  b_root_port :: u16
  b_stp_enabled :: stp_enabled
  b_topology_change :: bool
  b_topology_change_detected :: bool
  b_hello_timer :: timer
  b_tcn_timer :: timer
  b_topology_change_timer :: timer
  b_gc_timer :: timer
  b_jiffies :: u32
  b_cpu :: u32
  b_fdb_salt :: u32
  b_mc_salt :: u32
  b_out :: "br_effect list"

section \<open>The environment\<close>

text \<open>
  What the code asks of the rest of the system, as one record. The model quantifies over it.
  \<^item> memory: whether the allocation of a database entry, a group entry, a reporter entry, the
    port number bitmap or a port succeeds, the clone of a frame for a given port, and the copy
    \<open>skb_share_check\<close> makes of a frame that others hold;
  \<^item> \<open>net_ratelimit\<close>, the flow cache behind \<open>blog_query\<close> (which answers by setting the entry's time),
    the wireless drivers' ageing hooks, the switch driver's function to clear its address table;
  \<^item> for multicast: \<open>br_mcast_blog_process\<close> (None when it fails, otherwise the entry and the copies it
    made of it), whether the multicast daemon runs, gets its message and decides on admission, the
    host control mode, and what MLD snooping does with an IPv6 multicast frame (consume it or not);
  \<^item> for frames: the device below a device, the isolation, DNS and routing hooks, the names of
    the LAN interfaces, the verdict of the packet filter at each hook, the wireless chaining mode
    and the clock;
  \<^item> for interfaces: the speed of a device and the results of the calls that attach a device;
  \<^item> the exit status of the user-space spanning tree helper;
  \<^item> for requests of user space: whether the caller has \<open>CAP_NET_ADMIN\<close>, the device with a given
    interface index, and whether the buffer for the request's data is allocated.
\<close>

datatype nf_hook =
    NF_BR_PRE_ROUTING | NF_BR_LOCAL_IN | NF_BR_FORWARD | NF_BR_LOCAL_OUT | NF_BR_POST_ROUTING

record br_env =
  env_alloc :: bool
  env_mc_fdb_alloc :: bool
  env_mc_rep_alloc :: bool
  env_portno_alloc :: bool
  env_port_alloc :: bool
  env_skb_clone :: "u16 \<Rightarrow> bool"
  env_skb_share :: bool
  env_ratelimit :: bool
  env_blog_query :: "net_bridge_fdb_entry \<Rightarrow> u32 option"
  env_wl_hook :: "(mac_addr \<Rightarrow> int) option"
  env_dhd_hook :: "(mac_addr \<Rightarrow> int) option"
  env_clear_arl :: bool
  env_mcast_blog_process ::
    "net_bridge_mc_fdb_entry \<Rightarrow> (net_bridge_mc_fdb_entry \<times> net_bridge_mc_fdb_entry list) option"
  env_mcpd_pid :: bool
  env_mcpd_alloc :: bool
  env_mcpd_admission :: bool
  env_host_control :: bool
  env_mld_forward :: "sk_buff \<Rightarrow> bool"
  env_path :: "nat \<Rightarrow> net_device option"
  env_wifi_iso_forward :: "(sk_buff \<Rightarrow> bool) option"
  env_wifi_iso_local :: "(sk_buff \<Rightarrow> bool) option"
  env_dns_hijack :: "(sk_buff \<Rightarrow> int) option"
  env_lan_ifname :: "string \<Rightarrow> bool"
  env_route_hook :: "(sk_buff \<Rightarrow> bool \<times> sk_buff) option"
  env_nf :: "nf_hook \<Rightarrow> sk_buff \<Rightarrow> bool"
  env_pktc_tx :: bool
  env_dhd_pktc :: bool
  env_wl_pktc :: bool
  env_ktime :: int
  env_speed :: "nat \<Rightarrow> nat option"
  env_promiscuity :: "errno option"
  env_kobject :: "errno option"
  env_sysfs :: "errno option"
  env_set_master :: "errno option"
  env_rx_handler :: "errno option"
  env_stp_helper :: int
  env_capable :: bool
  env_dev :: "nat \<Rightarrow> net_device option"
  env_kmalloc :: bool

type_synonym result = "errno option"

section \<open>Dereferencing and storing through a port pointer\<close>

definition br_get_port :: "net_bridge \<Rightarrow> u16 \<Rightarrow> net_bridge_port option" where
  "br_get_port br n = find (\<lambda>p. p_port_no p = n) (b_port_list br)"

definition upd_list ::
  "u16 \<Rightarrow> (net_bridge_port \<Rightarrow> net_bridge_port) \<Rightarrow> net_bridge_port list \<Rightarrow> net_bridge_port list" where
  "upd_list n f = map (\<lambda>p. if p_port_no p = n then f p else p)"

definition upd_port ::
  "u16 \<Rightarrow> (net_bridge_port \<Rightarrow> net_bridge_port) \<Rightarrow> net_bridge \<Rightarrow> net_bridge" where
  "upd_port n f br = br\<lparr>b_port_list := upd_list n f (b_port_list br)\<rparr>"

lemma b_port_list_upd_port [simp]: "b_port_list (upd_port n f br) = upd_list n f (b_port_list br)"
  by (simp add: upd_port_def)

definition emit :: "br_effect \<Rightarrow> net_bridge \<Rightarrow> net_bridge" where
  "emit e br = br\<lparr>b_out := b_out br @ [e]\<rparr>"

definition port_nos :: "net_bridge \<Rightarrow> u16 list" where
  "port_nos br = map p_port_no (b_port_list br)"

lemma find_eq_Some_D: "find P xs = Some x \<Longrightarrow> x \<in> set xs \<and> P x"
  by (induction xs) (auto split: if_splits)

lemma br_get_port_SomeD:
  "br_get_port br n = Some p \<Longrightarrow> p \<in> set (b_port_list br) \<and> p_port_no p = n"
  unfolding br_get_port_def by (drule find_eq_Some_D) simp

lemma br_get_port_eq_None_iff: "br_get_port br n = None \<longleftrightarrow> n \<notin> set (port_nos br)"
  by (auto simp: br_get_port_def find_None_iff port_nos_def)

lemma br_get_port_ex: "n \<in> set (port_nos br) \<Longrightarrow> \<exists>p. br_get_port br n = Some p"
  using br_get_port_eq_None_iff [of br n] by (cases "br_get_port br n") auto

lemma br_get_port_eq_iff:
  assumes "distinct (port_nos br)"
  shows "br_get_port br n = Some p \<longleftrightarrow> p \<in> set (b_port_list br) \<and> p_port_no p = n"
proof
  assume "br_get_port br n = Some p"
  then show "p \<in> set (b_port_list br) \<and> p_port_no p = n" by (rule br_get_port_SomeD)
next
  assume p: "p \<in> set (b_port_list br) \<and> p_port_no p = n"
  then obtain q where q: "br_get_port br n = Some q"
    using br_get_port_ex [of n br] by (auto simp: port_nos_def)
  have "inj_on p_port_no (set (b_port_list br))"
    using assms by (simp add: port_nos_def distinct_map)
  with p q br_get_port_SomeD [OF q] have "q = p" by (auto dest: inj_onD)
  with q show "br_get_port br n = Some p" by simp
qed

text \<open>An update that keeps the port's number is seen by the dereference of that number and by no
  other.\<close>

lemma find_map_upd:
  assumes "\<And>p. p_port_no (f p) = p_port_no p"
  shows "find (\<lambda>p. p_port_no p = m) (map (\<lambda>p. if p_port_no p = n then f p else p) ps)
       = map_option (\<lambda>p. if m = n then f p else p) (find (\<lambda>p. p_port_no p = m) ps)"
  using assms by (induction ps) auto

lemma br_get_port_upd_port:
  assumes "\<And>p. p_port_no (f p) = p_port_no p"
  shows "br_get_port (upd_port n f br) m
       = map_option (\<lambda>p. if m = n then f p else p) (br_get_port br m)"
  using assms by (simp add: br_get_port_def upd_port_def upd_list_def find_map_upd)

lemma port_nos_upd_port [simp]:
  assumes "\<And>p. p_port_no (f p) = p_port_no p"
  shows "port_nos (upd_port n f br) = port_nos br"
  using assms by (simp add: port_nos_def upd_port_def upd_list_def)

lemma upd_port_upd_port:
  assumes "\<And>p. p_port_no (g p) = p_port_no p"
  shows "upd_port n f (upd_port n g br) = upd_port n (\<lambda>p. f (g p)) br"
  using assms by (simp add: upd_port_def upd_list_def comp_def if_distrib cong: if_cong)

text \<open>With distinct numbers, an update of port \<open>n\<close> is determined by what it does to the one port
  that \<open>br_get_port\<close> finds.\<close>

lemma upd_port_cong:
  assumes "distinct (port_nos br)" "br_get_port br n = Some p" "f p = g p"
  shows "upd_port n f br = upd_port n g br"
proof -
  have "f q = g q" if "q \<in> set (b_port_list br)" "p_port_no q = n" for q
    using assms that br_get_port_eq_iff [OF assms(1), of n q] by simp
  then have "map (\<lambda>p. if p_port_no p = n then f p else p) (b_port_list br)
      = map (\<lambda>p. if p_port_no p = n then g p else p) (b_port_list br)"
    by (intro map_cong) auto
  then show ?thesis by (simp add: upd_port_def upd_list_def)
qed

lemma upd_port_id:
  assumes "distinct (port_nos br)" "br_get_port br n = Some p" "f p = p"
  shows "upd_port n f br = br"
  using upd_port_cong [OF assms(1,2), of f "\<lambda>p. p"] assms(3) by (simp add: upd_port_def upd_list_def)

lemma map_upd_list [simp]:
  assumes "\<And>p. h (f p) = h p"
  shows "map h (upd_list n f ps) = map h ps"
  using assms by (simp add: upd_list_def)

lemma upd_list_upd_list [simp]:
  assumes "\<And>p. p_port_no (g p) = p_port_no p"
  shows "upd_list n f (upd_list n g ps) = upd_list n (\<lambda>p. f (g p)) ps"
  using assms by (auto simp: upd_list_def)

lemma set_port_list_upd_port:
  "set (b_port_list (upd_port n f br))
   = (\<lambda>p. if p_port_no p = n then f p else p) ` set (b_port_list br)"
  by (simp add: upd_port_def upd_list_def)

lemma upd_port_fields [simp]:
  "b_dev (upd_port n f br) = b_dev br" "b_hash (upd_port n f br) = b_hash br"
  "b_set_mac_addr (upd_port n f br) = b_set_mac_addr br" "b_num_fdb_entries (upd_port n f br) = b_num_fdb_entries br"
  "b_group_fwd_mask (upd_port n f br) = b_group_fwd_mask br" "b_designated_root (upd_port n f br) = b_designated_root br"
  "b_bridge_id (upd_port n f br) = b_bridge_id br" "b_root_path_cost (upd_port n f br) = b_root_path_cost br"
  "b_max_age (upd_port n f br) = b_max_age br" "b_hello_time (upd_port n f br) = b_hello_time br"
  "b_forward_delay (upd_port n f br) = b_forward_delay br" "b_bridge_max_age (upd_port n f br) = b_bridge_max_age br"
  "b_ageing_time (upd_port n f br) = b_ageing_time br" "b_bridge_hello_time (upd_port n f br) = b_bridge_hello_time br"
  "b_bridge_forward_delay (upd_port n f br) = b_bridge_forward_delay br" "b_group_addr (upd_port n f br) = b_group_addr br"
  "b_root_port (upd_port n f br) = b_root_port br" "b_stp_enabled (upd_port n f br) = b_stp_enabled br"
  "b_topology_change (upd_port n f br) = b_topology_change br" "b_topology_change_detected (upd_port n f br) = b_topology_change_detected br"
  "b_hello_timer (upd_port n f br) = b_hello_timer br" "b_tcn_timer (upd_port n f br) = b_tcn_timer br"
  "b_topology_change_timer (upd_port n f br) = b_topology_change_timer br" "b_gc_timer (upd_port n f br) = b_gc_timer br"
  "b_jiffies (upd_port n f br) = b_jiffies br" "b_cpu (upd_port n f br) = b_cpu br"
  "b_fdb_salt (upd_port n f br) = b_fdb_salt br" "b_out (upd_port n f br) = b_out br"
  by (simp_all add: upd_port_def)

lemma emit_fields [simp]:
  "b_port_list (emit e br) = b_port_list br" "b_dev (emit e br) = b_dev br"
  "b_hash (emit e br) = b_hash br" "b_set_mac_addr (emit e br) = b_set_mac_addr br"
  "b_num_fdb_entries (emit e br) = b_num_fdb_entries br" "b_group_fwd_mask (emit e br) = b_group_fwd_mask br"
  "b_designated_root (emit e br) = b_designated_root br" "b_bridge_id (emit e br) = b_bridge_id br"
  "b_root_path_cost (emit e br) = b_root_path_cost br" "b_max_age (emit e br) = b_max_age br"
  "b_hello_time (emit e br) = b_hello_time br" "b_forward_delay (emit e br) = b_forward_delay br"
  "b_bridge_max_age (emit e br) = b_bridge_max_age br" "b_ageing_time (emit e br) = b_ageing_time br"
  "b_bridge_hello_time (emit e br) = b_bridge_hello_time br" "b_bridge_forward_delay (emit e br) = b_bridge_forward_delay br"
  "b_group_addr (emit e br) = b_group_addr br" "b_root_port (emit e br) = b_root_port br"
  "b_stp_enabled (emit e br) = b_stp_enabled br" "b_topology_change (emit e br) = b_topology_change br"
  "b_topology_change_detected (emit e br) = b_topology_change_detected br" "b_hello_timer (emit e br) = b_hello_timer br"
  "b_tcn_timer (emit e br) = b_tcn_timer br" "b_topology_change_timer (emit e br) = b_topology_change_timer br"
  "b_gc_timer (emit e br) = b_gc_timer br" "b_jiffies (emit e br) = b_jiffies br"
  "b_cpu (emit e br) = b_cpu br" "b_fdb_salt (emit e br) = b_fdb_salt br"
  by (simp_all add: emit_def)

lemma emit_ports [simp]: "br_get_port (emit e br) n = br_get_port br n" "port_nos (emit e br) = port_nos br"
  by (simp_all add: br_get_port_def port_nos_def)

section \<open>Tests shared by the components\<close>

definition br_is_root_bridge :: "net_bridge \<Rightarrow> bool" where
  "br_is_root_bridge br \<longleftrightarrow> memcmp_bridge_id (b_bridge_id br) (b_designated_root br) = 0"

lemma br_is_root_bridge_iff: "br_is_root_bridge br \<longleftrightarrow> b_bridge_id br = b_designated_root br"
  by (simp add: br_is_root_bridge_def)

definition br_is_designated_port :: "net_bridge \<Rightarrow> net_bridge_port \<Rightarrow> bool" where
  "br_is_designated_port br p \<longleftrightarrow>
     memcmp_bridge_id (p_designated_bridge p) (b_bridge_id br) = 0
     \<and> p_designated_port p = p_port_id p"

lemma br_is_designated_port_iff:
  "br_is_designated_port br p \<longleftrightarrow>
     p_designated_bridge p = b_bridge_id br \<and> p_designated_port p = p_port_id p"
  by (simp add: br_is_designated_port_def)

end
