(* ===== verification/Stp_Bpdu.thy ===== *)
theory Stp_Bpdu
  imports Bridge_Types
begin

text \<open>
  The wire format of the spanning tree protocol: \<open>net/bridge/br_stp_bpdu.c\<close> without its
  receive handler (theory \<open>Stp_Rcv\<close>). Times travel in units of 1/256 s; \<open>br_set_ticks\<close> and
  \<open>br_get_ticks\<close> convert between them and jiffies. \<open>config_bpdu_buf\<close> is the 35-byte buffer
  that \<open>br_send_config_bpdu\<close> fills, \<open>config_bpdu_of_buf\<close> the parse that \<open>br_stp_rcv\<close> makes of
  the bytes after the protocol header.
\<close>

section \<open>Big-endian halves\<close>

definition byte_of :: "nat \<Rightarrow> 'a::len word \<Rightarrow> u8" where
  "byte_of k w = ucast (drop_bit (8 * k) w)"

definition put_unaligned_be16 :: "u16 \<Rightarrow> u8 list" where
  "put_unaligned_be16 v = [byte_of 1 v, byte_of 0 v]"

definition get_unaligned_be16 :: "u8 \<Rightarrow> u8 \<Rightarrow> u16" where
  "get_unaligned_be16 hi lo = or (push_bit 8 (ucast hi)) (ucast lo)"

lemma bit_byte_of: "bit (byte_of k w) n \<longleftrightarrow> n < 8 \<and> bit w (8 * k + n)"
  by (auto simp: byte_of_def bit_simps)

lemma bit_get_unaligned_be16:
  "bit (get_unaligned_be16 hi lo) n
     \<longleftrightarrow> (if n < 8 then bit lo n else n < 16 \<and> bit hi (n - 8))"
  by (auto simp: get_unaligned_be16_def bit_simps dest: bit_imp_le_length)

lemma get_put_unaligned_be16 [simp]: "get_unaligned_be16 (byte_of (Suc 0) v) (byte_of 0 v) = v"
  by (rule bit_word_eqI) (auto simp: bit_get_unaligned_be16 bit_byte_of)

lemma byte_1_get_unaligned_be16 [simp]: "byte_of (Suc 0) (get_unaligned_be16 hi lo) = hi"
  by (rule bit_word_eqI) (auto simp: bit_get_unaligned_be16 bit_byte_of)

lemma byte_0_get_unaligned_be16 [simp]: "byte_of 0 (get_unaligned_be16 hi lo) = lo"
  by (rule bit_word_eqI) (auto simp: bit_get_unaligned_be16 bit_byte_of)

section \<open>Ticks of 1/256 second\<close>

definition STP_HZ :: u32 where
  "STP_HZ = 256"

text \<open>\<open>(STP_HZ * j) / HZ\<close> on \<open>int\<close>: the product wraps (the kernel is built with
  \<open>-fno-strict-overflow\<close>), the division truncates, and the store keeps 16 bits.\<close>

definition br_set_ticks :: "u32 \<Rightarrow> u8 list" where
  "br_set_ticks j =
     (let ticks = (word_of_int (sint (STP_HZ * j) sdiv sint HZ) :: u32)
      in put_unaligned_be16 (ucast ticks))"

definition br_get_ticks :: "u8 \<Rightarrow> u8 \<Rightarrow> u32" where
  "br_get_ticks hi lo =
     (let ticks = (ucast (get_unaligned_be16 hi lo) :: u32)
      in (ticks * HZ + (STP_HZ - 1)) div STP_HZ)"

text \<open>Number of ticks on the wire for \<open>j\<close> jiffies, and back, as natural numbers.\<close>

definition ticks_of :: "nat \<Rightarrow> nat" where
  "ticks_of j = 256 * j div 1000"

definition jiffies_of :: "nat \<Rightarrow> nat" where
  "jiffies_of t = (1000 * t + 255) div 256"

lemma sdiv_nonneg: "0 \<le> (a :: int) \<Longrightarrow> 0 < b \<Longrightarrow> a sdiv b = a div b"
  by (auto simp: signed_divide_int_def sgn_if)

lemma ucast_of_nat_u16: "(ucast (of_nat n :: u32) :: u16) = of_nat n"
  by transfer simp

lemma br_set_ticks_eq:
  assumes "unat j < 2 ^ 23"
  shows "br_set_ticks j = put_unaligned_be16 (of_nat (ticks_of (unat j)))"
proof -
  have prod: "unat (STP_HZ * j) = 256 * unat j"
    using assms by (simp add: STP_HZ_def unat_word_ariths)
  have "sint (STP_HZ * j) = uint (STP_HZ * j)"
    using assms by (intro sint_small) (simp add: prod)
  also have "\<dots> = int (256 * unat j)"
    by (simp only: uint_nat prod)
  finally have s: "sint (STP_HZ * j) = int (256 * unat j)" .
  have "sint (STP_HZ * j) sdiv sint HZ = int (ticks_of (unat j))"
    unfolding s ticks_of_def by (subst sdiv_nonneg) (simp_all add: HZ_def zdiv_int)
  then show ?thesis
    by (simp add: br_set_ticks_def Let_def ucast_of_nat_u16)
qed

lemma unat_br_get_ticks:
  "unat (br_get_ticks hi lo) = jiffies_of (unat (get_unaligned_be16 hi lo))"
proof -
  let ?t = "unat (get_unaligned_be16 hi lo)"
  have t: "?t < 2 ^ 16" using unsigned_less [of "get_unaligned_be16 hi lo"] by simp
  have c: "unat (ucast (get_unaligned_be16 hi lo) :: u32) = ?t"
    by (simp add: unsigned_ucast_eq take_bit_nat_eq_self less_trans [OF t])
  have "unat (ucast (get_unaligned_be16 hi lo) * HZ + (STP_HZ - 1) :: u32) = 1000 * ?t + 255"
    using t by (simp add: unat_word_ariths c HZ_def STP_HZ_def mult.commute)
  then show ?thesis
    by (simp add: br_get_ticks_def Let_def unat_div STP_HZ_def jiffies_of_def)
qed

lemma jiffies_of_bounds: "1000 * t \<le> 256 * jiffies_of t" "256 * jiffies_of t < 1000 * t + 256"
  using nat_div_bounds [of 256 "1000 * t + 255", folded jiffies_of_def] by linarith+

lemma ticks_of_bounds: "1000 * ticks_of j \<le> 256 * j" "256 * j < 1000 * ticks_of j + 1000"
  using nat_div_bounds [of 1000 "256 * j", folded ticks_of_def] by linarith+

lemma ticks_of_jiffies_of [simp]: "ticks_of (jiffies_of t) = t"
  using jiffies_of_bounds [of t] ticks_of_bounds [of "jiffies_of t"] by linarith

lemma jiffies_of_ticks_of_bounds:
  "jiffies_of (ticks_of j) \<le> j" "j \<le> jiffies_of (ticks_of j) + 3"
  using jiffies_of_bounds [of "ticks_of j"] ticks_of_bounds [of j] by linarith+

lemma jiffies_of_mono: "s \<le> t \<Longrightarrow> jiffies_of s \<le> jiffies_of t"
  unfolding jiffies_of_def by (intro div_le_mono) simp

lemma ticks_of_mono: "i \<le> j \<Longrightarrow> ticks_of i \<le> ticks_of j"
  unfolding ticks_of_def by (intro div_le_mono) simp

section \<open>Configuration messages\<close>

text \<open>\<open>struct br_config_bpdu\<close>. The C \<open>int\<close> fields are kept as 32-bit words; where the code
  compares them as signed numbers the model reads them with \<open>sint\<close>.\<close>

record br_config_bpdu =
  bpdu_topology_change :: bool
  bpdu_topology_change_ack :: bool
  bpdu_root :: bridge_id
  bpdu_root_path_cost :: u32
  bpdu_bridge_id :: bridge_id
  bpdu_port_id :: u16
  bpdu_message_age :: u32
  bpdu_max_age :: u32
  bpdu_hello_time :: u32
  bpdu_forward_delay :: u32

definition BPDU_TYPE_CONFIG :: u8 where
  "BPDU_TYPE_CONFIG = 0"

definition BPDU_TYPE_TCN :: u8 where
  "BPDU_TYPE_TCN = 0x80"

definition config_bpdu_buf :: "br_config_bpdu \<Rightarrow> u8 list" where
  "config_bpdu_buf bpdu =
     [0, 0, 0, BPDU_TYPE_CONFIG,
      or (if bpdu_topology_change bpdu then 0x01 else 0)
         (if bpdu_topology_change_ack bpdu then 0x80 else 0)]
     @ bridge_id_bytes (bpdu_root bpdu)
     @ [byte_of 3 (bpdu_root_path_cost bpdu), byte_of 2 (bpdu_root_path_cost bpdu),
        byte_of 1 (bpdu_root_path_cost bpdu), byte_of 0 (bpdu_root_path_cost bpdu)]
     @ bridge_id_bytes (bpdu_bridge_id bpdu)
     @ [byte_of 1 (bpdu_port_id bpdu), byte_of 0 (bpdu_port_id bpdu)]
     @ br_set_ticks (bpdu_message_age bpdu)
     @ br_set_ticks (bpdu_max_age bpdu)
     @ br_set_ticks (bpdu_hello_time bpdu)
     @ br_set_ticks (bpdu_forward_delay bpdu)"

definition tcn_bpdu_buf :: "u8 list" where
  "tcn_bpdu_buf = [0, 0, 0, BPDU_TYPE_TCN]"

text \<open>The frame that \<open>br_send_bpdu\<close> builds around a message: the LLC header for the bridge
  spanning tree SAP, \<open>LLC_PDU_TYPE_U | LLC_1_PDU_CMD_UI\<close>, and the Ethernet header whose type
  field is the length (\<open>eth_header\<close> for \<open>ETH_P_802_2\<close>).\<close>

definition LLC_SAP_BSPAN :: u8 where
  "LLC_SAP_BSPAN = 0x42"

definition llc_ui_header :: "u8 \<Rightarrow> u8 \<Rightarrow> u8 list" where
  "llc_ui_header ssap dsap = [dsap, or ssap 0, or 3 0]"

definition eth_header :: "mac_addr \<Rightarrow> mac_addr \<Rightarrow> nat \<Rightarrow> u8 list" where
  "eth_header daddr saddr len = mac_bytes daddr @ mac_bytes saddr @ put_unaligned_be16 (of_nat len)"

definition bpdu_frame :: "mac_addr \<Rightarrow> mac_addr \<Rightarrow> u8 list \<Rightarrow> u8 list" where
  "bpdu_frame group_addr saddr data =
     (let llc = llc_ui_header LLC_SAP_BSPAN LLC_SAP_BSPAN @ data
      in eth_header group_addr saddr (length llc) @ llc)"

lemma length_put_unaligned_be16 [simp]: "length (put_unaligned_be16 v) = 2"
  by (simp add: put_unaligned_be16_def)

lemma length_br_set_ticks [simp]: "length (br_set_ticks j) = 2"
  by (simp add: br_set_ticks_def Let_def)

lemma length_config_bpdu_buf: "length (config_bpdu_buf b) = 35"
  by (simp add: config_bpdu_buf_def)

definition be32 :: "u8 \<Rightarrow> u8 \<Rightarrow> u8 \<Rightarrow> u8 \<Rightarrow> u32" where
  "be32 a b c d =
     or (or (or (push_bit 24 (ucast a)) (push_bit 16 (ucast b))) (push_bit 8 (ucast c))) (ucast d)"

text \<open>\<open>buf\<close> is the data after \<open>skb_pull (skb, 3)\<close>: the message type is \<open>buf[0]\<close>.\<close>

definition config_bpdu_of_buf :: "u8 list \<Rightarrow> br_config_bpdu" where
  "config_bpdu_of_buf buf = \<lparr>
     bpdu_topology_change = (and (buf ! 1) 0x01 \<noteq> 0),
     bpdu_topology_change_ack = (and (buf ! 1) 0x80 \<noteq> 0),
     bpdu_root = Bridge_id (buf ! 2) (buf ! 3)
       (Mac (buf ! 4) (buf ! 5) (buf ! 6) (buf ! 7) (buf ! 8) (buf ! 9)),
     bpdu_root_path_cost = be32 (buf ! 10) (buf ! 11) (buf ! 12) (buf ! 13),
     bpdu_bridge_id = Bridge_id (buf ! 14) (buf ! 15)
       (Mac (buf ! 16) (buf ! 17) (buf ! 18) (buf ! 19) (buf ! 20) (buf ! 21)),
     bpdu_port_id = get_unaligned_be16 (buf ! 22) (buf ! 23),
     bpdu_message_age = br_get_ticks (buf ! 24) (buf ! 25),
     bpdu_max_age = br_get_ticks (buf ! 26) (buf ! 27),
     bpdu_hello_time = br_get_ticks (buf ! 28) (buf ! 29),
     bpdu_forward_delay = br_get_ticks (buf ! 30) (buf ! 31)\<rparr>"

lemma bit_be32:
  "bit (be32 a b c d) n \<longleftrightarrow>
     (if n < 8 then bit d n else if n < 16 then bit c (n - 8)
      else if n < 24 then bit b (n - 16) else n < 32 \<and> bit a (n - 24))"
  using bit_imp_le_length [of a "n - 24"] bit_imp_le_length [of b "n - 16"]
    bit_imp_le_length [of c "n - 8"] bit_imp_le_length [of d n]
  by (auto simp: be32_def bit_or_iff bit_push_bit_iff bit_ucast_iff)

lemma be32_bytes [simp]: "be32 (byte_of 3 w) (byte_of 2 w) (byte_of (Suc 0) w) (byte_of 0 w) = w"
  by (rule bit_word_eqI) (auto simp: bit_be32 bit_byte_of)

text \<open>What a time becomes when it travels in a message.\<close>

definition wire_time :: "u32 \<Rightarrow> u32" where
  "wire_time j = of_nat (jiffies_of (ticks_of (unat j)))"

lemma ticks_of_less: "j < 256000 \<Longrightarrow> ticks_of j < 2 ^ 16"
  unfolding ticks_of_def by simp

lemma br_get_set_ticks:
  assumes "unat j < 256000" and "br_set_ticks j = [hi, lo]"
  shows "br_get_ticks hi lo = wire_time j"
proof -
  have v: "br_set_ticks j = put_unaligned_be16 (of_nat (ticks_of (unat j)))"
    using assms(1) by (simp add: br_set_ticks_eq)
  have g: "get_unaligned_be16 hi lo = of_nat (ticks_of (unat j))"
    using assms(2) by (auto simp: v put_unaligned_be16_def)
  have "unat (of_nat (ticks_of (unat j)) :: u16) = ticks_of (unat j)"
    using ticks_of_less [OF assms(1)] by (simp add: unat_of_nat take_bit_nat_eq_self)
  then have "unat (br_get_ticks hi lo) = jiffies_of (ticks_of (unat j))"
    by (simp add: unat_br_get_ticks g)
  then have "of_nat (unat (br_get_ticks hi lo)) = wire_time j"
    by (simp only: wire_time_def)
  then show ?thesis by simp
qed

lemma put_unaligned_be16_get [simp]: "put_unaligned_be16 (get_unaligned_be16 hi lo) = [hi, lo]"
  by (simp add: put_unaligned_be16_def)

lemma br_set_get_ticks [simp]: "br_set_ticks (br_get_ticks hi lo) = [hi, lo]"
proof -
  let ?t = "unat (get_unaligned_be16 hi lo)"
  have "?t < 65536" using unsigned_less [of "get_unaligned_be16 hi lo"] by simp
  then have "jiffies_of ?t < 8388608"
    using jiffies_of_bounds [of ?t] by linarith
  then have "br_set_ticks (br_get_ticks hi lo) = put_unaligned_be16 (of_nat ?t)"
    by (simp add: br_set_ticks_eq unat_br_get_ticks)
  then show ?thesis by simp
qed

lemma bytes_be32 [simp]:
  "byte_of 3 (be32 a b c d) = a" "byte_of 2 (be32 a b c d) = b"
  "byte_of (Suc 0) (be32 a b c d) = c" "byte_of 0 (be32 a b c d) = d"
  by (rule bit_word_eqI; auto simp: bit_be32 bit_byte_of)+

lemma br_set_ticks_cases:
  assumes "unat j < 256000"
  obtains hi lo where "br_set_ticks j = [hi, lo]" "br_get_ticks hi lo = wire_time j"
proof -
  obtain hi lo where "br_set_ticks j = [hi, lo]"
    by (simp add: br_set_ticks_def put_unaligned_be16_def Let_def)
  with assms that show thesis by (blast intro: br_get_set_ticks)
qed

text \<open>A configuration message survives the wire: parsing the 35 bytes that
  \<open>br_send_config_bpdu\<close> writes gives back every field, the four times as \<open>wire_time\<close>. It holds
  for every time below 256 s, the range of a 16-bit tick count.\<close>

lemma config_bpdu_roundtrip:
  assumes "unat (bpdu_message_age b) < 256000" "unat (bpdu_max_age b) < 256000"
    and "unat (bpdu_hello_time b) < 256000" "unat (bpdu_forward_delay b) < 256000"
  shows "config_bpdu_of_buf (drop 3 (config_bpdu_buf b)) =
    b\<lparr>bpdu_message_age := wire_time (bpdu_message_age b),
      bpdu_max_age := wire_time (bpdu_max_age b),
      bpdu_hello_time := wire_time (bpdu_hello_time b),
      bpdu_forward_delay := wire_time (bpdu_forward_delay b)\<rparr>"
proof -
  obtain a1 a2 where a: "br_set_ticks (bpdu_message_age b) = [a1, a2]"
    "br_get_ticks a1 a2 = wire_time (bpdu_message_age b)" using br_set_ticks_cases [OF assms(1)] .
  obtain m1 m2 where m: "br_set_ticks (bpdu_max_age b) = [m1, m2]"
    "br_get_ticks m1 m2 = wire_time (bpdu_max_age b)" using br_set_ticks_cases [OF assms(2)] .
  obtain h1 h2 where h: "br_set_ticks (bpdu_hello_time b) = [h1, h2]"
    "br_get_ticks h1 h2 = wire_time (bpdu_hello_time b)" using br_set_ticks_cases [OF assms(3)] .
  obtain f1 f2 where f: "br_set_ticks (bpdu_forward_delay b) = [f1, f2]"
    "br_get_ticks f1 f2 = wire_time (bpdu_forward_delay b)" using br_set_ticks_cases [OF assms(4)] .
  show ?thesis
    by (cases "bpdu_root b" rule: bridge_id_mac_cases;
        cases "bpdu_bridge_id b" rule: bridge_id_mac_cases)
      (simp add: config_bpdu_buf_def config_bpdu_of_buf_def a m h f)
qed

definition example_bpdu :: br_config_bpdu where
  "example_bpdu = \<lparr>
     bpdu_topology_change = True, bpdu_topology_change_ack = False,
     bpdu_root = Bridge_id 0x10 0 (Mac 0 1 2 3 4 5),
     bpdu_root_path_cost = 100,
     bpdu_bridge_id = Bridge_id 0x80 0 (Mac 0 1 2 3 4 6),
     bpdu_port_id = 0x8001,
     bpdu_message_age = 1001, bpdu_max_age = 20000,
     bpdu_hello_time = 2000, bpdu_forward_delay = 15000\<rparr>"

lemma flags_byte:
  fixes x :: u8
  assumes "and x 0x7e = 0"
  shows "or (if and x 1 \<noteq> 0 then 1 else 0) (if and x 0x80 \<noteq> 0 then 0x80 else 0) = x" (is "?flags = x")
proof (rule bit_word_eqI)
  fix n assume n: "n < LENGTH(8)"
  have mid: "\<not> bit x n" if "bit (0x7e :: u8) n"
    using assms that by (metis bit_and_iff bit_0_eq bot_apply bot_bool_def)
  from n consider "n = 0" | "n = 7" | "bit (0x7e :: u8) n" "n \<noteq> 0" "n \<noteq> 7"
    by (auto simp: bit_simps less_Suc_eq numeral_eq_Suc)
  moreover have "and x 1 \<noteq> 0 \<longleftrightarrow> bit x 0" "and x 0x80 \<noteq> 0 \<longleftrightarrow> bit x 7"
    using and_exp_eq_0_iff_not_bit [of x 0] and_exp_eq_0_iff_not_bit [of x 7] by auto
  ultimately show "bit ?flags n = bit x n"
    using n mid by cases (auto simp: bit_simps less_Suc_eq numeral_eq_Suc)
qed

text \<open>Parsing loses nothing: re-encoding what \<open>br_stp_rcv\<close> parses from any 35-byte
  configuration message without reserved flag bits gives the same bytes, so a bridge that relays
  the recorded information does not distort it.\<close>

lemma config_bpdu_reencode:
  assumes "length buf = 35" "take 4 buf = [0, 0, 0, BPDU_TYPE_CONFIG]" "and (buf ! 4) 0x7e = 0"
  shows "config_bpdu_buf (config_bpdu_of_buf (drop 3 buf)) = buf"
proof -
  have "buf = map ((!) buf) [0..<35]"
    using assms(1) by (metis map_nth)
  also have "[0..<35] = [0, 1, 2, 3, 4, 5, 6, 7, 8, 9, 10, 11, 12, 13, 14, 15, 16, 17, 18, 19, 20,
      21, 22, 23, 24, 25, 26, 27, 28, 29, 30, 31, 32, 33, 34]"
    by (simp add: upt_rec)
  finally have b: "buf = [buf ! 0, buf ! 1, buf ! 2, buf ! 3, buf ! 4, buf ! 5, buf ! 6, buf ! 7,
      buf ! 8, buf ! 9, buf ! 10, buf ! 11, buf ! 12, buf ! 13, buf ! 14, buf ! 15, buf ! 16,
      buf ! 17, buf ! 18, buf ! 19, buf ! 20, buf ! 21, buf ! 22, buf ! 23, buf ! 24, buf ! 25,
      buf ! 26, buf ! 27, buf ! 28, buf ! 29, buf ! 30, buf ! 31, buf ! 32, buf ! 33, buf ! 34]"
    (is "_ = ?l") by simp
  have "take 4 ?l = [0, 0, 0, BPDU_TYPE_CONFIG]" using assms(2) b by metis
  then have z: "buf ! 0 = 0" "buf ! 1 = 0" "buf ! 2 = 0" "buf ! 3 = BPDU_TYPE_CONFIG"
    by (simp_all add: numeral_eq_Suc)
  have "config_bpdu_buf (config_bpdu_of_buf (drop 3 buf)) = ?l"
    using assms(1)
    by (simp add: config_bpdu_buf_def config_bpdu_of_buf_def z [simplified] flags_byte [OF assms(3)])
  with b show ?thesis by simp
qed

definition example_buf :: "u8 list" where
  "example_buf =
     [0, 0, 0, 0, 0x81, 0x10, 0, 0, 1, 2, 3, 4, 5, 0, 0, 0, 100, 0x80, 0, 0, 1, 2, 3, 4, 6,
      0x80, 1, 1, 0, 0x14, 0, 2, 0, 0x0f, 0]"

text \<open>Rounding to ticks loses less than four jiffies and is monotone.\<close>

lemma unat_wire_time: "unat (wire_time j) = jiffies_of (ticks_of (unat j))"
proof -
  have "jiffies_of (ticks_of (unat j)) < 2 ^ 32"
    by (rule le_less_trans [OF jiffies_of_ticks_of_bounds(1)]) (use unsigned_less [of j] in simp)
  then show ?thesis by (simp add: wire_time_def unat_of_nat take_bit_nat_eq_self)
qed

lemma wire_time_le: "unat (wire_time j) \<le> unat j"
  by (simp add: unat_wire_time jiffies_of_ticks_of_bounds)

lemma wire_time_mono: "unat i \<le> unat j \<Longrightarrow> unat (wire_time i) \<le> unat (wire_time j)"
  by (simp add: unat_wire_time jiffies_of_mono ticks_of_mono)

end
