(* ===== verification/Stp.thy ===== *)
theory Stp
  imports Stp_Bpdu
begin

text \<open>
  The spanning tree protocol: \<open>net/bridge/br_stp.c\<close> and the two send routines of
  \<open>br_stp_bpdu.c\<close>. One definition per C function, in the order in which they call each other.
  Functions that take a \<open>struct net_bridge_port *\<close> take the port's number. The result is
  \<open>None\<close> where the C code would dereference NULL.
\<close>

section \<open>Sending\<close>

definition BR_HOLD_TIME :: u32 where
  "BR_HOLD_TIME = 1 * HZ"

definition MESSAGE_AGE_INCR :: u32 where
  "MESSAGE_AGE_INCR = HZ div 256 + 1"

text \<open>\<open>skb\<close> allocation is taken to succeed, and the frame is logged as it is handed to
  \<open>dev_queue_xmit\<close>.\<close>

definition br_send_bpdu :: "u16 \<Rightarrow> u8 list \<Rightarrow> net_bridge \<Rightarrow> net_bridge option" where
  "br_send_bpdu n data br = do {
     p \<leftarrow> br_get_port br n;
     Some (emit (Dev_queue_xmit n (bpdu_frame (b_group_addr br) (dev_addr (p_dev p)) data)) br)
   }"

definition br_send_config_bpdu :: "u16 \<Rightarrow> br_config_bpdu \<Rightarrow> net_bridge \<Rightarrow> net_bridge option" where
  "br_send_config_bpdu n bpdu br = do {
     p \<leftarrow> br_get_port br n;
     if b_stp_enabled br \<noteq> BR_KERNEL_STP then Some br
     else if p_is_bpdu_blocked p then Some br
     else br_send_bpdu n (config_bpdu_buf bpdu) br
   }"

definition br_send_tcn_bpdu :: "u16 \<Rightarrow> net_bridge \<Rightarrow> net_bridge option" where
  "br_send_tcn_bpdu n br = do {
     p \<leftarrow> br_get_port br n;
     if b_stp_enabled br \<noteq> BR_KERNEL_STP then Some br
     else if p_is_bpdu_blocked p then Some br
     else br_send_bpdu n tcn_bpdu_buf br
   }"

definition br_transmit_tcn :: "net_bridge \<Rightarrow> net_bridge option" where
  "br_transmit_tcn br = br_send_tcn_bpdu (b_root_port br) br"

definition br_transmit_config :: "u16 \<Rightarrow> net_bridge \<Rightarrow> net_bridge option" where
  "br_transmit_config n br = do {
     p \<leftarrow> br_get_port br n;
     if timer_pending (p_hold_timer p)
     then Some (upd_port n (\<lambda>p. p\<lparr>p_config_pending := True\<rparr>) br)
     else do {
       message_age \<leftarrow>
         (if br_is_root_bridge br then Some 0
          else do {
            root \<leftarrow> br_get_port br (b_root_port br);
            Some ((b_jiffies br - p_designated_age root) + MESSAGE_AGE_INCR)
          });
       let bpdu = \<lparr>
         bpdu_topology_change = b_topology_change br,
         bpdu_topology_change_ack = p_topology_change_ack p,
         bpdu_root = b_designated_root br,
         bpdu_root_path_cost = b_root_path_cost br,
         bpdu_bridge_id = b_bridge_id br,
         bpdu_port_id = p_port_id p,
         bpdu_message_age = message_age,
         bpdu_max_age = b_max_age br,
         bpdu_hello_time = b_hello_time br,
         bpdu_forward_delay = b_forward_delay br\<rparr>;
       if message_age < b_max_age br then do {
         br \<leftarrow> br_send_config_bpdu n bpdu br;
         Some (upd_port n (\<lambda>p. p\<lparr>p_topology_change_ack := False,
             p_config_pending := False,
             p_hold_timer := mod_timer (p_hold_timer p)
               (round_jiffies (b_cpu br) (b_jiffies br) (b_jiffies br + BR_HOLD_TIME))\<rparr>) br)
       }
       else Some br
     }
   }"

section \<open>Topology changes\<close>

definition br_topology_change_acknowledged :: "net_bridge \<Rightarrow> net_bridge" where
  "br_topology_change_acknowledged br =
     br\<lparr>b_topology_change_detected := False, b_tcn_timer := del_timer (b_tcn_timer br)\<rparr>"

definition br_topology_change_detection :: "net_bridge \<Rightarrow> net_bridge option" where
  "br_topology_change_detection br =
     (let isroot = br_is_root_bridge br in
      if b_stp_enabled br \<noteq> BR_KERNEL_STP then Some br
      else do {
        br \<leftarrow>
          (if isroot then
             Some (br\<lparr>b_topology_change := True,
                      b_topology_change_timer := mod_timer (b_topology_change_timer br)
                        (b_jiffies br + b_bridge_forward_delay br + b_bridge_max_age br)\<rparr>)
           else if \<not> b_topology_change_detected br then do {
             br \<leftarrow> br_transmit_tcn br;
             Some (br\<lparr>b_tcn_timer := mod_timer (b_tcn_timer br)
                      (b_jiffies br + b_bridge_hello_time br)\<rparr>)
           }
           else Some br);
        Some (br\<lparr>b_topology_change_detected := True\<rparr>)
      })"

definition br_config_bpdu_generation :: "net_bridge \<Rightarrow> net_bridge option" where
  "br_config_bpdu_generation br =
     for_each (\<lambda>n br. do {
         p \<leftarrow> br_get_port br n;
         if p_state p \<noteq> BR_STATE_DISABLED \<and> br_is_designated_port br p
         then br_transmit_config n br else Some br
       }) (port_nos br) br"

definition br_become_root_bridge :: "net_bridge \<Rightarrow> net_bridge option" where
  "br_become_root_bridge br = do {
     let br = br\<lparr>b_max_age := b_bridge_max_age br,
                b_hello_time := b_bridge_hello_time br,
                b_forward_delay := b_bridge_forward_delay br\<rparr>;
     br \<leftarrow> br_topology_change_detection br;
     let br = br\<lparr>b_tcn_timer := del_timer (b_tcn_timer br)\<rparr>;
     if dev_up (b_dev br) then do {
       br \<leftarrow> br_config_bpdu_generation br;
       Some (br\<lparr>b_hello_timer := mod_timer (b_hello_timer br) (b_jiffies br + b_hello_time br)\<rparr>)
     }
     else Some br
   }"

section \<open>Root and designated ports\<close>

definition br_should_become_root_port ::
  "net_bridge \<Rightarrow> net_bridge_port \<Rightarrow> u16 \<Rightarrow> bool option" where
  "br_should_become_root_port br p root_port =
     (if p_state p = BR_STATE_DISABLED \<or> br_is_designated_port br p then Some False
      else if memcmp_bridge_id (b_bridge_id br) (p_designated_root p) \<le> 0 then Some False
      else if root_port = 0 then Some True
      else do {
        rp \<leftarrow> br_get_port br root_port;
        let t = memcmp_bridge_id (p_designated_root p) (p_designated_root rp);
        if t < 0 then Some True
        else if t > 0 then Some False
        else if p_designated_cost p + p_path_cost p < p_designated_cost rp + p_path_cost rp
        then Some True
        else if p_designated_cost p + p_path_cost p > p_designated_cost rp + p_path_cost rp
        then Some False
        else do {
          let t = memcmp_bridge_id (p_designated_bridge p) (p_designated_bridge rp);
          if t < 0 then Some True
          else if t > 0 then Some False
          else if p_designated_port p < p_designated_port rp then Some True
          else if p_designated_port p > p_designated_port rp then Some False
          else if p_port_id p < p_port_id rp then Some True
          else Some False
        }
      })"

definition br_root_selection :: "net_bridge \<Rightarrow> net_bridge option" where
  "br_root_selection br = do {
     root_port \<leftarrow> for_each (\<lambda>p root_port. do {
         b \<leftarrow> br_should_become_root_port br p root_port;
         Some (if b then p_port_no p else root_port)
       }) (b_port_list br) 0;
     let br = br\<lparr>b_root_port := root_port\<rparr>;
     if root_port = 0
     then Some (br\<lparr>b_designated_root := b_bridge_id br, b_root_path_cost := 0\<rparr>)
     else do {
       p \<leftarrow> br_get_port br root_port;
       Some (br\<lparr>b_designated_root := p_designated_root p,
                b_root_path_cost := p_designated_cost p + p_path_cost p\<rparr>)
     }
   }"

definition br_should_become_designated_port :: "net_bridge \<Rightarrow> net_bridge_port \<Rightarrow> bool" where
  "br_should_become_designated_port br p =
     (if br_is_designated_port br p then True
      else if memcmp_bridge_id (p_designated_root p) (b_designated_root br) \<noteq> 0 then True
      else if b_root_path_cost br < p_designated_cost p then True
      else if b_root_path_cost br > p_designated_cost p then False
      else
        let t = memcmp_bridge_id (b_bridge_id br) (p_designated_bridge p) in
        if t < 0 then True
        else if t > 0 then False
        else if p_port_id p < p_designated_port p then True
        else False)"

text \<open>The stores of \<open>br_become_designated_port\<close> on the port itself.\<close>

definition become_designated :: "net_bridge \<Rightarrow> net_bridge_port \<Rightarrow> net_bridge_port" where
  "become_designated br p =
     p\<lparr>p_designated_root := b_designated_root br,
       p_designated_cost := b_root_path_cost br,
       p_designated_bridge := b_bridge_id br,
       p_designated_port := p_port_id p\<rparr>"

definition br_become_designated_port :: "u16 \<Rightarrow> net_bridge \<Rightarrow> net_bridge" where
  "br_become_designated_port n br = upd_port n (become_designated br) br"

text \<open>Each iteration of the C loop reads and writes its own port only.\<close>

definition br_designated_port_selection :: "net_bridge \<Rightarrow> net_bridge" where
  "br_designated_port_selection br =
     br\<lparr>b_port_list := map (\<lambda>p.
         if p_state p \<noteq> BR_STATE_DISABLED \<and> br_should_become_designated_port br p
         then become_designated br p else p) (b_port_list br)\<rparr>"

definition br_configuration_update :: "net_bridge \<Rightarrow> net_bridge option" where
  "br_configuration_update br = do {
     br \<leftarrow> br_root_selection br;
     Some (br_designated_port_selection br)
   }"

section \<open>Port states\<close>

text \<open>The notification of the bridge's spanning tree listeners (\<open>br_notifier.c\<close>); \<open>br_info\<close> writes
  the kernel log.\<close>

definition br_stp_notify_state_port :: "net_bridge_port \<Rightarrow> net_bridge \<Rightarrow> net_bridge" where
  "br_stp_notify_state_port p br =
     (if b_stp_enabled br \<noteq> BR_NO_STP then emit (Stp_state_changed (dev_name (p_dev p)) (Some (p_state p))) br
      else br)"

definition br_log_state :: "u16 \<Rightarrow> net_bridge \<Rightarrow> net_bridge" where
  "br_log_state n br =
     (case br_get_port br n of None \<Rightarrow> br | Some p \<Rightarrow> br_stp_notify_state_port p (emit (Br_log_state n (p_state p)) br))"

definition br_make_blocking :: "u16 \<Rightarrow> net_bridge \<Rightarrow> net_bridge option" where
  "br_make_blocking n br = do {
     p \<leftarrow> br_get_port br n;
     if p_state p \<noteq> BR_STATE_DISABLED \<and> p_state p \<noteq> BR_STATE_BLOCKING then do {
       br \<leftarrow> (if p_state p = BR_STATE_FORWARDING \<or> p_state p = BR_STATE_LEARNING
              then br_topology_change_detection br else Some br);
       let br = upd_port n (\<lambda>p. p\<lparr>p_state := BR_STATE_BLOCKING\<rparr>) br;
       let br = emit (Br_ifinfo_notify n) (br_log_state n br);
       Some (upd_port n (\<lambda>p. p\<lparr>p_forward_delay_timer := del_timer (p_forward_delay_timer p)\<rparr>) br)
     }
     else Some br
   }"

definition br_loopback_detected :: "u16 \<Rightarrow> net_bridge \<Rightarrow> net_bridge option" where
  "br_loopback_detected n br =
     (if n = b_root_port br then br_make_blocking n br else Some br)"

definition br_make_forwarding :: "u16 \<Rightarrow> net_bridge \<Rightarrow> net_bridge option" where
  "br_make_forwarding n br = do {
     p \<leftarrow> br_get_port br n;
     if p_state p \<noteq> BR_STATE_BLOCKING then Some br
     else do {
       br \<leftarrow>
         (if b_stp_enabled br = BR_NO_STP \<or> b_forward_delay br = 0 then do {
            let br = upd_port n (\<lambda>p. p\<lparr>p_state := BR_STATE_FORWARDING\<rparr>) br;
            br \<leftarrow> br_topology_change_detection br;
            Some (upd_port n (\<lambda>p.
              p\<lparr>p_forward_delay_timer := del_timer (p_forward_delay_timer p)\<rparr>) br)
          }
          else if b_stp_enabled br = BR_KERNEL_STP
          then Some (upd_port n (\<lambda>p. p\<lparr>p_state := BR_STATE_LISTENING\<rparr>) br)
          else Some (upd_port n (\<lambda>p. p\<lparr>p_state := BR_STATE_LEARNING\<rparr>) br));
       let br = emit (Br_ifinfo_notify n) (br_log_state n br);
       Some (if b_forward_delay br \<noteq> 0
             then upd_port n (\<lambda>p. p\<lparr>p_forward_delay_timer :=
                    mod_timer (p_forward_delay_timer p) (b_jiffies br + b_forward_delay br)\<rparr>) br
             else br)
     }
   }"

text \<open>The body of the loop of \<open>br_port_state_selection\<close>; \<open>netif_carrier_on\<close> and
  \<open>netif_carrier_off\<close> set the carrier of the bridge device.\<close>

definition port_state_select :: "u16 \<Rightarrow> net_bridge \<Rightarrow> net_bridge option" where
  "port_state_select n br = do {
     p \<leftarrow> br_get_port br n;
     if b_stp_enabled br \<noteq> BR_USER_STP then
       (if n = b_root_port br then
          br_make_forwarding n
            (upd_port n (\<lambda>p. p\<lparr>p_config_pending := False, p_topology_change_ack := False\<rparr>) br)
        else if br_is_designated_port br p then
          br_make_forwarding n
            (upd_port n (\<lambda>p. p\<lparr>p_message_age_timer := del_timer (p_message_age_timer p)\<rparr>) br)
        else
          br_make_blocking n
            (upd_port n (\<lambda>p. p\<lparr>p_config_pending := False, p_topology_change_ack := False\<rparr>) br))
     else Some br
   }"

definition br_port_state_selection :: "net_bridge \<Rightarrow> net_bridge option" where
  "br_port_state_selection br = do {
     (br, liveports) \<leftarrow> for_each (\<lambda>n (br, liveports). do {
         p \<leftarrow> br_get_port br n;
         if p_state p = BR_STATE_DISABLED then Some (br, liveports)
         else do {
           br \<leftarrow> port_state_select n br;
           p \<leftarrow> br_get_port br n;
           Some (br, if p_state p = BR_STATE_FORWARDING then liveports + 1 else liveports)
         }
       }) (port_nos br) (br, 0 :: u32);
     Some (br\<lparr>b_dev := (b_dev br)\<lparr>dev_carrier := (liveports \<noteq> 0)\<rparr>\<rparr>)
   }"

section \<open>Receiving\<close>

definition br_record_config_information ::
  "u16 \<Rightarrow> br_config_bpdu \<Rightarrow> net_bridge \<Rightarrow> net_bridge" where
  "br_record_config_information n bpdu br = upd_port n (\<lambda>p.
     p\<lparr>p_designated_root := bpdu_root bpdu,
       p_designated_cost := bpdu_root_path_cost bpdu,
       p_designated_bridge := bpdu_bridge_id bpdu,
       p_designated_port := bpdu_port_id bpdu,
       p_designated_age := b_jiffies br - bpdu_message_age bpdu,
       p_message_age_timer := mod_timer (p_message_age_timer p)
         (b_jiffies br + (b_max_age br - bpdu_message_age bpdu))\<rparr>) br"

definition br_record_config_timeout_values ::
  "br_config_bpdu \<Rightarrow> net_bridge \<Rightarrow> net_bridge" where
  "br_record_config_timeout_values bpdu br =
     br\<lparr>b_max_age := bpdu_max_age bpdu,
        b_hello_time := bpdu_hello_time bpdu,
        b_forward_delay := bpdu_forward_delay bpdu,
        b_topology_change := bpdu_topology_change bpdu\<rparr>"

definition br_supersedes_port_info ::
  "net_bridge \<Rightarrow> net_bridge_port \<Rightarrow> br_config_bpdu \<Rightarrow> bool" where
  "br_supersedes_port_info br p bpdu =
     (let t = memcmp_bridge_id (bpdu_root bpdu) (p_designated_root p) in
      if t < 0 then True
      else if t > 0 then False
      else if bpdu_root_path_cost bpdu < p_designated_cost p then True
      else if bpdu_root_path_cost bpdu > p_designated_cost p then False
      else
        let t = memcmp_bridge_id (bpdu_bridge_id bpdu) (p_designated_bridge p) in
        if t < 0 then True
        else if t > 0 then False
        else if memcmp_bridge_id (bpdu_bridge_id bpdu) (b_bridge_id br) \<noteq> 0 then True
        else if bpdu_port_id bpdu \<le> p_designated_port p then True
        else False)"

definition br_reply :: "u16 \<Rightarrow> net_bridge \<Rightarrow> net_bridge option" where
  "br_reply n br = br_transmit_config n br"

definition br_topology_change_acknowledge :: "u16 \<Rightarrow> net_bridge \<Rightarrow> net_bridge option" where
  "br_topology_change_acknowledge n br =
     br_transmit_config n (upd_port n (\<lambda>p. p\<lparr>p_topology_change_ack := True\<rparr>) br)"

text \<open>The two blocks of \<open>br_received_config_bpdu\<close> behind the state selection: the bridge has just
  ceased to be the root, and the message came in on the (new) root port.\<close>

definition cease_root :: "net_bridge \<Rightarrow> net_bridge option" where
  "cease_root br = do {
     let br = br\<lparr>b_hello_timer := del_timer (b_hello_timer br)\<rparr>;
     if b_topology_change_detected br then do {
       let br = br\<lparr>b_topology_change_timer := del_timer (b_topology_change_timer br)\<rparr>;
       br \<leftarrow> br_transmit_tcn br;
       Some (br\<lparr>b_tcn_timer := mod_timer (b_tcn_timer br) (b_jiffies br + b_bridge_hello_time br)\<rparr>)
     }
     else Some br
   }"

definition relay_config :: "br_config_bpdu \<Rightarrow> net_bridge \<Rightarrow> net_bridge option" where
  "relay_config bpdu br = do {
     br \<leftarrow> br_config_bpdu_generation (br_record_config_timeout_values bpdu br);
     Some (if bpdu_topology_change_ack bpdu then br_topology_change_acknowledged br else br)
   }"

definition br_received_config_bpdu ::
  "u16 \<Rightarrow> br_config_bpdu \<Rightarrow> net_bridge \<Rightarrow> net_bridge option" where
  "br_received_config_bpdu n bpdu br = do {
     p \<leftarrow> br_get_port br n;
     let was_root = br_is_root_bridge br;
     if br_supersedes_port_info br p bpdu then do {
       let br = br_record_config_information n bpdu br;
       br \<leftarrow> br_configuration_update br;
       br \<leftarrow> br_port_state_selection br;
       br \<leftarrow> (if \<not> br_is_root_bridge br \<and> was_root then cease_root br else Some br);
       if n = b_root_port br then relay_config bpdu br else Some br
     }
     else if br_is_designated_port br p then br_reply n br
     else Some br
   }"

definition br_received_tcn_bpdu :: "u16 \<Rightarrow> net_bridge \<Rightarrow> net_bridge option" where
  "br_received_tcn_bpdu n br = do {
     p \<leftarrow> br_get_port br n;
     if br_is_designated_port br p then do {
       br \<leftarrow> br_topology_change_detection br;
       br_topology_change_acknowledge n br
     }
     else Some br
   }"

section \<open>Parameters\<close>

definition BR_MIN_HELLO_TIME :: u32 where "BR_MIN_HELLO_TIME = 1 * HZ"
definition BR_MAX_HELLO_TIME :: u32 where "BR_MAX_HELLO_TIME = 10 * HZ"
definition BR_MIN_FORWARD_DELAY :: u32 where "BR_MIN_FORWARD_DELAY = 2 * HZ"
definition BR_MAX_FORWARD_DELAY :: u32 where "BR_MAX_FORWARD_DELAY = 30 * HZ"
definition BR_MIN_MAX_AGE :: u32 where "BR_MIN_MAX_AGE = 6 * HZ"
definition BR_MAX_MAX_AGE :: u32 where "BR_MAX_MAX_AGE = 40 * HZ"

definition USER_HZ :: u32 where
  "USER_HZ = 100"

definition clock_t_to_jiffies :: "u32 \<Rightarrow> u32" where
  "clock_t_to_jiffies x =
     (if x \<ge> (- 1) div (HZ div USER_HZ) then - 1 else x * (HZ div USER_HZ))"

definition br_set_hello_time :: "u32 \<Rightarrow> net_bridge \<Rightarrow> errno + net_bridge" where
  "br_set_hello_time v br =
     (let t = clock_t_to_jiffies v in
      if t < BR_MIN_HELLO_TIME \<or> t > BR_MAX_HELLO_TIME then Inl ERANGE
      else
        let br = br\<lparr>b_bridge_hello_time := t\<rparr> in
        Inr (if br_is_root_bridge br then br\<lparr>b_hello_time := b_bridge_hello_time br\<rparr> else br))"

definition br_set_max_age :: "u32 \<Rightarrow> net_bridge \<Rightarrow> errno + net_bridge" where
  "br_set_max_age v br =
     (let t = clock_t_to_jiffies v in
      if t < BR_MIN_MAX_AGE \<or> t > BR_MAX_MAX_AGE then Inl ERANGE
      else
        let br = br\<lparr>b_bridge_max_age := t\<rparr> in
        Inr (if br_is_root_bridge br then br\<lparr>b_max_age := b_bridge_max_age br\<rparr> else br))"

definition br_set_forward_delay :: "u32 \<Rightarrow> net_bridge \<Rightarrow> errno + net_bridge" where
  "br_set_forward_delay v br =
     (let t = clock_t_to_jiffies v in
      if b_stp_enabled br \<noteq> BR_NO_STP
         \<and> (t < BR_MIN_FORWARD_DELAY \<or> t > BR_MAX_FORWARD_DELAY) then Inl ERANGE
      else
        let br = br\<lparr>b_bridge_forward_delay := t\<rparr> in
        Inr (if br_is_root_bridge br
             then br\<lparr>b_forward_delay := b_bridge_forward_delay br\<rparr> else br))"

section \<open>What the protocol leaves alone\<close>

text \<open>\<open>bridge_core\<close> erases from a bridge what the state-selection and transmission routines
  write: port states, the acknowledgement and pending flags, timers, the topology change flags,
  the carrier of the bridge device and the effect log. A routine that keeps the core therefore
  keeps the spanning tree information and the forwarding database.\<close>

definition port_core :: "net_bridge_port \<Rightarrow> net_bridge_port" where
  "port_core p = p\<lparr>p_state := BR_STATE_DISABLED, p_topology_change_ack := False,
     p_config_pending := False, p_forward_delay_timer := None, p_hold_timer := None,
     p_message_age_timer := None\<rparr>"

definition bridge_core :: "net_bridge \<Rightarrow> net_bridge" where
  "bridge_core br = br\<lparr>b_port_list := map port_core (b_port_list br),
     b_dev := (b_dev br)\<lparr>dev_carrier := False\<rparr>, b_topology_change := False,
     b_topology_change_detected := False, b_hello_timer := None, b_tcn_timer := None,
     b_topology_change_timer := None, b_out := []\<rparr>"

lemma port_core_upds [simp]:
  "port_core (p\<lparr>p_state := s\<rparr>) = port_core p"
  "port_core (p\<lparr>p_topology_change_ack := b\<rparr>) = port_core p"
  "port_core (p\<lparr>p_config_pending := b\<rparr>) = port_core p"
  "port_core (p\<lparr>p_forward_delay_timer := t\<rparr>) = port_core p"
  "port_core (p\<lparr>p_hold_timer := t\<rparr>) = port_core p"
  "port_core (p\<lparr>p_message_age_timer := t\<rparr>) = port_core p"
  by (simp_all add: port_core_def)

lemma port_core_fields [simp]:
  "p_port_no (port_core p) = p_port_no p" "p_port_id (port_core p) = p_port_id p"
  "p_designated_root (port_core p) = p_designated_root p"
  "p_designated_cost (port_core p) = p_designated_cost p"
  "p_designated_bridge (port_core p) = p_designated_bridge p"
  "p_designated_port (port_core p) = p_designated_port p"
  "p_path_cost (port_core p) = p_path_cost p" "p_dev (port_core p) = p_dev p"
  by (simp_all add: port_core_def)

lemma bridge_core_upds [simp]:
  "bridge_core (br\<lparr>b_topology_change := b\<rparr>) = bridge_core br"
  "bridge_core (br\<lparr>b_topology_change_detected := b\<rparr>) = bridge_core br"
  "bridge_core (br\<lparr>b_hello_timer := t\<rparr>) = bridge_core br"
  "bridge_core (br\<lparr>b_tcn_timer := t\<rparr>) = bridge_core br"
  "bridge_core (br\<lparr>b_topology_change_timer := t\<rparr>) = bridge_core br"
  "bridge_core (br\<lparr>b_dev := (b_dev br)\<lparr>dev_carrier := b\<rparr>\<rparr>) = bridge_core br"
  "bridge_core (emit e br) = bridge_core br"
  by (simp_all add: bridge_core_def emit_def)

lemma bridge_core_upd_port [simp]:
  assumes "\<And>p. port_core (f p) = port_core p"
  shows "bridge_core (upd_port n f br) = bridge_core br"
  using assms by (simp add: bridge_core_def upd_port_def upd_list_def)

lemma bridge_core_log_state [simp]: "bridge_core (br_log_state n br) = bridge_core br"
  by (simp add: br_log_state_def br_stp_notify_state_port_def split: option.split)

text \<open>What follows from equal cores.\<close>

lemma port_core_idem [simp]: "port_core (port_core p) = port_core p"
  by (simp add: port_core_def)

lemma bridge_core_fields [simp]:
  "port_nos (bridge_core br) = port_nos br"
  "map port_core (b_port_list (bridge_core br)) = map port_core (b_port_list br)"
  "b_bridge_id (bridge_core br) = b_bridge_id br"
  "b_designated_root (bridge_core br) = b_designated_root br"
  "b_root_path_cost (bridge_core br) = b_root_path_cost br"
  "b_root_port (bridge_core br) = b_root_port br"
  "b_stp_enabled (bridge_core br) = b_stp_enabled br" "b_max_age (bridge_core br) = b_max_age br"
  "b_forward_delay (bridge_core br) = b_forward_delay br"
  "b_hello_time (bridge_core br) = b_hello_time br"
  "b_bridge_max_age (bridge_core br) = b_bridge_max_age br"
  "b_bridge_forward_delay (bridge_core br) = b_bridge_forward_delay br"
  "b_bridge_hello_time (bridge_core br) = b_bridge_hello_time br"
  "b_jiffies (bridge_core br) = b_jiffies br" "b_hash (bridge_core br) = b_hash br"
  "b_num_fdb_entries (bridge_core br) = b_num_fdb_entries br"
  "b_fdb_salt (bridge_core br) = b_fdb_salt br"
  "dev_up (b_dev (bridge_core br)) = dev_up (b_dev br)"
  "dev_addr (b_dev (bridge_core br)) = dev_addr (b_dev br)"
  "b_group_addr (bridge_core br) = b_group_addr br" "b_gc_timer (bridge_core br) = b_gc_timer br"
  "b_ageing_time (bridge_core br) = b_ageing_time br"
  by (simp_all add: bridge_core_def port_nos_def)

lemma bridge_core_eqD:
  assumes "bridge_core br' = bridge_core br"
  shows "port_nos br' = port_nos br" "map port_core (b_port_list br') = map port_core (b_port_list br)"
    "b_bridge_id br' = b_bridge_id br" "b_designated_root br' = b_designated_root br"
    "b_root_path_cost br' = b_root_path_cost br" "b_root_port br' = b_root_port br"
    "b_stp_enabled br' = b_stp_enabled br" "b_max_age br' = b_max_age br"
    "b_forward_delay br' = b_forward_delay br" "b_hello_time br' = b_hello_time br"
    "b_bridge_max_age br' = b_bridge_max_age br"
    "b_bridge_forward_delay br' = b_bridge_forward_delay br"
    "b_bridge_hello_time br' = b_bridge_hello_time br"
    "b_jiffies br' = b_jiffies br" "b_hash br' = b_hash br"
    "b_num_fdb_entries br' = b_num_fdb_entries br" "b_fdb_salt br' = b_fdb_salt br"
    "dev_up (b_dev br') = dev_up (b_dev br)" "dev_addr (b_dev br') = dev_addr (b_dev br)"
    "b_group_addr br' = b_group_addr br" "b_gc_timer br' = b_gc_timer br"
    "b_ageing_time br' = b_ageing_time br"
  using assms by (metis bridge_core_fields)+

section \<open>The invariant\<close>

text \<open>Port numbers are distinct and not 0; \<open>root_port\<close> is 0 exactly on a bridge that considers
  itself the root, and names a port otherwise; nobody believes in a root worse than itself.\<close>

definition stp_wf :: "net_bridge \<Rightarrow> bool" where
  "stp_wf br \<longleftrightarrow>
     distinct (port_nos br) \<and> 0 \<notin> set (port_nos br)
     \<and> (b_root_port br = 0 \<longleftrightarrow> b_bridge_id br = b_designated_root br)
     \<and> (b_root_port br \<noteq> 0 \<longrightarrow> b_root_port br \<in> set (port_nos br))
     \<and> b_designated_root br \<le> b_bridge_id br"

lemma stp_wf_cong: "bridge_core br' = bridge_core br \<Longrightarrow> stp_wf br' \<longleftrightarrow> stp_wf br"
  unfolding stp_wf_def using bridge_core_eqD(1,3,4,6) [of br' br] by simp

lemma stp_wf_distinct: "stp_wf br \<Longrightarrow> distinct (port_nos br)"
  by (simp add: stp_wf_def)

lemma stp_wf_root_port: "stp_wf br \<Longrightarrow> \<not> br_is_root_bridge br \<Longrightarrow> b_root_port br \<in> set (port_nos br)"
  by (auto simp: stp_wf_def br_is_root_bridge_iff)

section \<open>Sending does not fault\<close>

lemma br_send_bpdu_runs:
  assumes "n \<in> set (port_nos br)"
  shows "runs (br_send_bpdu n data br)
    (\<lambda>br'. bridge_core br' = bridge_core br \<and> b_port_list br' = b_port_list br)"
  using br_get_port_ex [OF assms] by (auto simp: br_send_bpdu_def)

lemma br_send_config_bpdu_runs:
  assumes "n \<in> set (port_nos br)"
  shows "runs (br_send_config_bpdu n bpdu br)
    (\<lambda>br'. bridge_core br' = bridge_core br \<and> b_port_list br' = b_port_list br)"
  using br_get_port_ex [OF assms] br_send_bpdu_runs [OF assms] by (auto simp: br_send_config_bpdu_def)

lemma br_transmit_tcn_runs:
  assumes "b_root_port br \<in> set (port_nos br)"
  shows "runs (br_transmit_tcn br)
    (\<lambda>br'. bridge_core br' = bridge_core br \<and> b_port_list br' = b_port_list br)"
  using br_get_port_ex [OF assms] br_send_bpdu_runs [OF assms]
  by (auto simp: br_transmit_tcn_def br_send_tcn_bpdu_def)

lemma br_transmit_config_runs:
  assumes "stp_wf br" "n \<in> set (port_nos br)"
  shows "runs (br_transmit_config n br)
    (\<lambda>br'. bridge_core br' = bridge_core br
       \<and> map p_state (b_port_list br') = map p_state (b_port_list br))"
proof -
  obtain p where p: "br_get_port br n = Some p" using br_get_port_ex [OF assms(2)] by blast
  have root: "br_is_root_bridge br \<or> (\<exists>q. br_get_port br (b_root_port br) = Some q)"
    using stp_wf_root_port [OF assms(1)] br_get_port_ex by blast
  show ?thesis
    using root
    by (auto simp: br_transmit_config_def p Let_def
        intro!: runs_mono [OF br_send_config_bpdu_runs [OF assms(2)]])
qed

lemma br_topology_change_detection_runs:
  assumes "stp_wf br"
  shows "runs (br_topology_change_detection br)
    (\<lambda>br'. bridge_core br' = bridge_core br \<and> b_port_list br' = b_port_list br)"
proof -
  have "runs (br_transmit_tcn br)
      (\<lambda>br'. bridge_core br' = bridge_core br \<and> b_port_list br' = b_port_list br)"
    if "\<not> br_is_root_bridge br"
    using br_transmit_tcn_runs stp_wf_root_port [OF assms that] by blast
  then show ?thesis
    by (auto simp: br_topology_change_detection_def Let_def elim!: runs_mono)
qed

lemma br_config_bpdu_generation_runs:
  assumes "stp_wf br"
  shows "runs (br_config_bpdu_generation br)
    (\<lambda>br'. bridge_core br' = bridge_core br
       \<and> map p_state (b_port_list br') = map p_state (b_port_list br))"
  unfolding br_config_bpdu_generation_def
proof (rule for_each_runs)
  fix n s
  assume n: "n \<in> set (port_nos br)"
    and s: "bridge_core s = bridge_core br \<and> map p_state (b_port_list s) = map p_state (b_port_list br)"
  have wf: "stp_wf s" and n': "n \<in> set (port_nos s)"
    using s n assms stp_wf_cong [of s br] bridge_core_eqD(1) [of s br] by simp_all
  show "runs (do { p \<leftarrow> br_get_port s n;
        if p_state p \<noteq> BR_STATE_DISABLED \<and> br_is_designated_port s p
        then br_transmit_config n s else Some s })
      (\<lambda>s. bridge_core s = bridge_core br \<and> map p_state (b_port_list s) = map p_state (b_port_list br))"
    using br_get_port_ex [OF n'] s by (auto intro!: runs_mono [OF br_transmit_config_runs [OF wf n']])
qed simp

lemma br_become_root_bridge_runs:
  assumes "stp_wf br"
  shows "runs (br_become_root_bridge br)
    (\<lambda>br'. bridge_core br' = bridge_core (br\<lparr>b_max_age := b_bridge_max_age br,
         b_hello_time := b_bridge_hello_time br, b_forward_delay := b_bridge_forward_delay br\<rparr>)
       \<and> map p_state (b_port_list br') = map p_state (b_port_list br))"
proof -
  let ?br = "br\<lparr>b_max_age := b_bridge_max_age br, b_hello_time := b_bridge_hello_time br,
    b_forward_delay := b_bridge_forward_delay br\<rparr>"
  have "stp_wf ?br" using assms by (simp add: stp_wf_def port_nos_def)
  have "runs (br_config_bpdu_generation (s\<lparr>b_tcn_timer := t\<rparr>))
    (\<lambda>br'. bridge_core br' = bridge_core ?br
       \<and> map p_state (b_port_list br') = map p_state (b_port_list br))"
    if "bridge_core s = bridge_core ?br" "b_port_list s = b_port_list br" for s t
    using that \<open>stp_wf ?br\<close> br_config_bpdu_generation_runs [of "s\<lparr>b_tcn_timer := t\<rparr>"]
      stp_wf_cong [of "s\<lparr>b_tcn_timer := t\<rparr>" ?br] by simp
  then show ?thesis
    using br_topology_change_detection_runs [OF \<open>stp_wf ?br\<close>]
    by (auto simp: br_become_root_bridge_def Let_def elim!: runs_mono)
qed

section \<open>An example\<close>

text \<open>A bridge with two ports, as it is right after both were enabled: it considers itself the
  root and both ports are designated and blocked. The instances at the end of the components
  use it.\<close>

definition example_dev :: "u8 \<Rightarrow> net_device" where
  "example_dev k = \<lparr>dev_ifindex = unat k, dev_name = ''eth'', dev_addr = Mac 0 0x10 0x20 0x30 0x40 k,
     dev_up = True, dev_running = True, dev_carrier = True, dev_promisc = True,
     dev_priv_flags = 0, dev_mtu = 1500,
     dev_loopback = False, dev_type = 1, dev_addr_len = 6, dev_xmit_is_bridge = False,
     dev_path_refcount = 0, dev_phy_type = 0\<rparr>"

definition example_id :: bridge_id where
  "example_id = Bridge_id 0x80 0 (Mac 0 0x10 0x20 0x30 0x40 1)"

definition example_port :: "u16 \<Rightarrow> net_bridge_port" where
  "example_port n = \<lparr>p_dev = example_dev (ucast n), p_priority = 32, p_state = BR_STATE_BLOCKING,
     p_port_no = n, p_topology_change_ack = False, p_config_pending = False,
     p_port_id = 0x8000 + n, p_designated_port = 0x8000 + n, p_designated_root = example_id,
     p_designated_bridge = example_id, p_path_cost = 100, p_designated_cost = 0,
     p_designated_age = 0, p_dirty = False, p_forward_delay_timer = None, p_hold_timer = None,
     p_message_age_timer = None, p_flags = 0, p_is_dedicated_stp_port = False,
     p_is_bpdu_blocked = False\<rparr>"

definition example_bridge :: net_bridge where
  "example_bridge = \<lparr>b_port_list = [example_port 2, example_port 1], b_dev = example_dev 1,
     b_hash = (\<lambda>_. []), b_set_mac_addr = False, b_num_fdb_entries = 0,
     b_igmp_timer = None, b_igmp_proxy = False, b_igmp_snooping = 0, b_mc_hash = (\<lambda>_. []),
     b_igmp_delayed_skb = replicate 64 None, b_igmp_rate_limit = 0, b_igmp_rate_bucket = 0,
     b_igmp_rate_last_packet = 0, b_igmp_rate_rem_time = 0, b_group_fwd_mask = 0,
     b_designated_root = example_id, b_bridge_id = example_id, b_root_path_cost = 0,
     b_max_age = 20000, b_hello_time = 2000, b_forward_delay = 15000, b_bridge_max_age = 20000,
     b_ageing_time = 300000, b_bridge_hello_time = 2000, b_bridge_forward_delay = 15000,
     b_group_addr = Mac 1 0x80 0xc2 0 0 0, b_root_port = 0, b_stp_enabled = BR_KERNEL_STP,
     b_topology_change = False, b_topology_change_detected = False, b_hello_timer = None,
     b_tcn_timer = None, b_topology_change_timer = None, b_gc_timer = None, b_jiffies = 100000,
     b_cpu = 0, b_fdb_salt = 7, b_mc_salt = 9, b_out = []\<rparr>"

lemmas example_defs = example_bridge_def example_port_def example_dev_def example_id_def

lemma example_port_nos [simp]: "port_nos example_bridge = [2, 1]"
  by (simp add: example_defs port_nos_def)

lemma example_get_port [simp]:
  "br_get_port example_bridge 1 = Some (example_port 1)"
  "br_get_port example_bridge 2 = Some (example_port 2)"
  by (simp_all add: example_bridge_def br_get_port_def, simp_all add: example_port_def)

lemma example_wf [simp]: "stp_wf example_bridge"
  by (simp add: stp_wf_def) (simp add: example_defs)

end
