(* ===== verification/Stp_States.thy ===== *)
theory Stp_States
  imports Stp
begin

text \<open>
  What the routines of \<open>br_stp.c\<close> that move ports between states compute: \<open>br_make_blocking\<close>,
  \<open>br_make_forwarding\<close> and the loop of \<open>br_port_state_selection\<close> are related to port-wise
  reference functions (\<open>blocked_port\<close>, \<open>started_port\<close>, \<open>select_port\<close>).
\<close>

section \<open>Port states, port by port\<close>

definition blocked_port :: "net_bridge_port \<Rightarrow> net_bridge_port" where
  "blocked_port p =
     (if p_state p = BR_STATE_DISABLED \<or> p_state p = BR_STATE_BLOCKING then p
      else p\<lparr>p_state := BR_STATE_BLOCKING, p_forward_delay_timer := None\<rparr>)"

definition start_state :: "net_bridge \<Rightarrow> br_state" where
  "start_state br =
     (if b_stp_enabled br = BR_NO_STP \<or> b_forward_delay br = 0 then BR_STATE_FORWARDING
      else if b_stp_enabled br = BR_KERNEL_STP then BR_STATE_LISTENING
      else BR_STATE_LEARNING)"

definition started_port :: "net_bridge \<Rightarrow> net_bridge_port \<Rightarrow> net_bridge_port" where
  "started_port br p =
     (if p_state p \<noteq> BR_STATE_BLOCKING then p
      else p\<lparr>p_state := start_state br,
             p_forward_delay_timer :=
               (if b_forward_delay br \<noteq> 0 then Some (b_jiffies br + b_forward_delay br)
                else None)\<rparr>)"

definition select_port :: "net_bridge \<Rightarrow> net_bridge_port \<Rightarrow> net_bridge_port" where
  "select_port br p =
     (if p_state p = BR_STATE_DISABLED \<or> b_stp_enabled br = BR_USER_STP then p
      else if p_port_no p = b_root_port br then
        started_port br (p\<lparr>p_config_pending := False, p_topology_change_ack := False\<rparr>)
      else if br_is_designated_port br p then
        started_port br (p\<lparr>p_message_age_timer := None\<rparr>)
      else blocked_port (p\<lparr>p_config_pending := False, p_topology_change_ack := False\<rparr>))"

lemma blocked_port_no [simp]: "p_port_no (blocked_port p) = p_port_no p"
  by (simp add: blocked_port_def)

lemma started_port_no [simp]: "p_port_no (started_port br p) = p_port_no p"
  by (simp add: started_port_def)

lemma select_port_no [simp]: "p_port_no (select_port br p) = p_port_no p"
  by (simp add: select_port_def)

lemma br_is_designated_port_cong:
  "port_core p' = port_core p \<Longrightarrow> b_bridge_id br' = b_bridge_id br \<Longrightarrow>
   br_is_designated_port br' p' = br_is_designated_port br p"
  by (metis br_is_designated_port_iff port_core_fields)

lemma select_port_cong:
  "bridge_core br' = bridge_core br \<Longrightarrow> select_port br' p = select_port br p"
  using bridge_core_eqD [of br' br]
  by (simp add: select_port_def started_port_def start_state_def br_is_designated_port_iff)

lemma br_log_state_fields [simp]:
  "b_port_list (br_log_state n br) = b_port_list br"
  "b_forward_delay (br_log_state n br) = b_forward_delay br"
  "b_jiffies (br_log_state n br) = b_jiffies br"
  by (simp_all add: br_log_state_def br_stp_notify_state_port_def split: option.split)

lemma b_port_list_upd_port_cong:
  "b_port_list br' = b_port_list br \<Longrightarrow> b_port_list (upd_port n f br') = b_port_list (upd_port n f br)"
  by (simp add: upd_port_def)

lemma br_make_blocking_runs:
  assumes wf: "stp_wf br" and n: "n \<in> set (port_nos br)"
  shows "runs (br_make_blocking n br)
    (\<lambda>br'. bridge_core br' = bridge_core br \<and> b_port_list br' = b_port_list (upd_port n blocked_port br))"
proof -
  obtain p where p: "br_get_port br n = Some p" using br_get_port_ex [OF n] by blast
  note d = stp_wf_distinct [OF wf]
  show ?thesis
  proof (cases "p_state p = BR_STATE_DISABLED \<or> p_state p = BR_STATE_BLOCKING")
    case True
    then show ?thesis
      using arg_cong [OF upd_port_id [OF d p, of blocked_port], of b_port_list]
      by (auto simp: br_make_blocking_def p blocked_port_def)
  next
    case False
    have "b_port_list (upd_port n blocked_port br)
        = b_port_list (upd_port n (\<lambda>p. p\<lparr>p_state := BR_STATE_BLOCKING, p_forward_delay_timer := None\<rparr>) br)"
      using False by (intro arg_cong [of _ _ b_port_list] upd_port_cong [OF d p]) (simp add: blocked_port_def)
    then show ?thesis
      using False
      by (auto simp: br_make_blocking_def p del_timer_def
          intro!: runs_mono [OF br_topology_change_detection_runs [OF wf]])
  qed
qed

lemma br_make_forwarding_runs:
  assumes wf: "stp_wf br" and n: "n \<in> set (port_nos br)"
  shows "runs (br_make_forwarding n br)
    (\<lambda>br'. bridge_core br' = bridge_core br
       \<and> b_port_list br' = b_port_list (upd_port n (started_port br) br))"
proof -
  obtain p where p: "br_get_port br n = Some p" using br_get_port_ex [OF n] by blast
  note d = stp_wf_distinct [OF wf]
  show ?thesis
  proof (cases "p_state p = BR_STATE_BLOCKING")
    case False
    then show ?thesis
      using arg_cong [OF upd_port_id [OF d p, of "started_port br"], of b_port_list]
      by (auto simp: br_make_forwarding_def p started_port_def)
  next
    case True
    let ?fwd = "upd_port n (\<lambda>p. p\<lparr>p_state := BR_STATE_FORWARDING\<rparr>) br"
    have "stp_wf ?fwd" using wf stp_wf_cong [of ?fwd br] by simp
    then have tcd: "runs (br_topology_change_detection ?fwd) (\<lambda>a. bridge_core a = bridge_core br
        \<and> b_port_list a = b_port_list ?fwd \<and> b_forward_delay a = b_forward_delay br
        \<and> b_jiffies a = b_jiffies br)"
      by (rule runs_mono [OF br_topology_change_detection_runs])
        (auto intro: bridge_core_eqD(9,14))
    have eq: "b_port_list (upd_port n (started_port br) br)
        = b_port_list (upd_port n (\<lambda>p. p\<lparr>p_state := start_state br,
             p_forward_delay_timer := (if b_forward_delay br \<noteq> 0
               then Some (b_jiffies br + b_forward_delay br) else None)\<rparr>) br)"
      using True by (intro arg_cong [of _ _ b_port_list] upd_port_cong [OF d p])
        (simp add: started_port_def)
    show ?thesis
    proof (cases "b_stp_enabled br = BR_NO_STP \<or> b_forward_delay br = 0")
      case True': True
      show ?thesis
        unfolding eq using True True'
        by (auto simp: br_make_forwarding_def p start_state_def mod_timer_def del_timer_def
            Let_def intro!: runs_mono [OF tcd])
    next
      case False
      then show ?thesis
        unfolding eq using True
        by (auto simp: br_make_forwarding_def p start_state_def mod_timer_def)
    qed
  qed
qed

text \<open>The same after a store to the port's flags or timers, as the loop body does.\<close>

lemma upd_port_core:
  assumes f: "\<And>p. port_core (f p) = port_core p"
    and wf: "stp_wf br" and n: "n \<in> set (port_nos br)"
  shows "p_port_no (f p) = p_port_no p" "bridge_core (upd_port n f br) = bridge_core br"
    "stp_wf (upd_port n f br)" "n \<in> set (port_nos (upd_port n f br))"
proof -
  show k: "p_port_no (f p) = p_port_no p" for p using f [of p] by (metis port_core_fields(1))
  show c: "bridge_core (upd_port n f br) = bridge_core br" using f by simp
  show "stp_wf (upd_port n f br)" "n \<in> set (port_nos (upd_port n f br))"
    using wf stp_wf_cong [OF c] n k by simp_all
qed

lemma br_make_forwarding_upd_runs:
  assumes "\<And>p. port_core (f p) = port_core p" "stp_wf br" "n \<in> set (port_nos br)"
  shows "runs (br_make_forwarding n (upd_port n f br))
    (\<lambda>br'. bridge_core br' = bridge_core br
       \<and> b_port_list br' = b_port_list (upd_port n (\<lambda>p. started_port br (f p)) br))"
proof -
  note u = upd_port_core [OF assms]
  have "started_port (upd_port n f br) = started_port br"
    by (simp add: fun_eq_iff started_port_def start_state_def)
  then show ?thesis
    by (intro runs_mono [OF br_make_forwarding_runs [OF u(3,4)]]) (simp add: u(1,2))
qed

lemma br_make_blocking_upd_runs:
  assumes "\<And>p. port_core (f p) = port_core p" "stp_wf br" "n \<in> set (port_nos br)"
  shows "runs (br_make_blocking n (upd_port n f br))
    (\<lambda>br'. bridge_core br' = bridge_core br
       \<and> b_port_list br' = b_port_list (upd_port n (\<lambda>p. blocked_port (f p)) br))"
proof -
  note u = upd_port_core [OF assms]
  show ?thesis
    by (rule runs_mono [OF br_make_blocking_runs [OF u(3,4)]]) (simp add: u(1,2))
qed

text \<open>One iteration of the loop, and the loop.\<close>

lemma port_state_select_runs:
  assumes wf: "stp_wf br" and n: "br_get_port br n = Some p" and e: "p_state p \<noteq> BR_STATE_DISABLED"
  shows "runs (port_state_select n br)
    (\<lambda>br'. bridge_core br' = bridge_core br
       \<and> b_port_list br' = b_port_list (upd_port n (select_port br) br))"
proof -
  have no: "p_port_no p = n" "n \<in> set (port_nos br)"
    using br_get_port_SomeD [OF n] br_get_port_eq_None_iff [of br n] n by auto
  note d = stp_wf_distinct [OF wf]
  have sel: "upd_port n (select_port br) br = upd_port n g br" if "select_port br p = g p" for g
    using that by (rule upd_port_cong [OF d n])
  let ?c = "\<lambda>p. p\<lparr>p_config_pending := False, p_topology_change_ack := False\<rparr>"
  let ?m = "\<lambda>p. p\<lparr>p_message_age_timer := None\<rparr>"
  consider "b_stp_enabled br = BR_USER_STP"
    | "b_stp_enabled br \<noteq> BR_USER_STP" "n = b_root_port br"
    | "b_stp_enabled br \<noteq> BR_USER_STP" "n \<noteq> b_root_port br" "br_is_designated_port br p"
    | "b_stp_enabled br \<noteq> BR_USER_STP" "n \<noteq> b_root_port br" "\<not> br_is_designated_port br p"
    by blast
  then show ?thesis
  proof cases
    case 1
    then have "upd_port n (select_port br) br = br"
      by (intro upd_port_id [OF d n]) (simp add: select_port_def)
    with 1 show ?thesis by (simp add: port_state_select_def n)
  next
    case 2
    then have "upd_port n (select_port br) br = upd_port n (\<lambda>p. started_port br (?c p)) br"
      using e no by (intro sel) (simp add: select_port_def)
    with 2 n br_make_forwarding_upd_runs [of ?c, OF _ wf no(2)] show ?thesis
      by (simp add: port_state_select_def n)
  next
    case 3
    then have "upd_port n (select_port br) br = upd_port n (\<lambda>p. started_port br (?m p)) br"
      using e no by (intro sel) (simp add: select_port_def)
    with 3 br_make_forwarding_upd_runs [of ?m, OF _ wf no(2)] show ?thesis
      by (simp add: port_state_select_def n del_timer_def)
  next
    case 4
    then have "upd_port n (select_port br) br = upd_port n (\<lambda>p. blocked_port (?c p)) br"
      using e no by (intro sel) (simp add: select_port_def)
    with 4 br_make_blocking_upd_runs [of ?c, OF _ wf no(2)] show ?thesis
      by (simp add: port_state_select_def n)
  qed
qed

definition state_select_body ::
  "u16 \<Rightarrow> net_bridge \<times> u32 \<Rightarrow> (net_bridge \<times> u32) option" where
  "state_select_body n = (\<lambda>(br, liveports). do {
     p \<leftarrow> br_get_port br n;
     if p_state p = BR_STATE_DISABLED then Some (br, liveports)
     else do {
       br \<leftarrow> port_state_select n br;
       p \<leftarrow> br_get_port br n;
       Some (br, if p_state p = BR_STATE_FORWARDING then liveports + 1 else liveports)
     }
   })"

definition will_forward :: "net_bridge \<Rightarrow> u16 \<Rightarrow> bool" where
  "will_forward br n \<longleftrightarrow>
     (\<exists>p. br_get_port br n = Some p \<and> p_state (select_port br p) = BR_STATE_FORWARDING)"

lemma br_get_port_cong: "b_port_list br' = b_port_list br \<Longrightarrow> br_get_port br' n = br_get_port br n"
  by (simp add: br_get_port_def)

lemma state_select_body_runs:
  assumes wf: "stp_wf br" and n: "n \<in> set (port_nos br)"
  shows "runs (state_select_body n (br, live)) (\<lambda>(br', live').
    bridge_core br' = bridge_core br
    \<and> b_port_list br' = b_port_list (upd_port n (select_port br) br)
    \<and> live' = live + (if will_forward br n then 1 else 0))"
proof -
  obtain p where p: "br_get_port br n = Some p" using br_get_port_ex [OF n] by blast
  show ?thesis
  proof (cases "p_state p = BR_STATE_DISABLED")
    case True
    then have "upd_port n (select_port br) br = br"
      by (intro upd_port_id [OF stp_wf_distinct [OF wf] p]) (simp add: select_port_def)
    with True show ?thesis
      by (simp add: state_select_body_def p will_forward_def select_port_def)
  next
    case False
    have "br_get_port br' n = Some (select_port br p)"
      if "b_port_list br' = b_port_list (upd_port n (select_port br) br)" for br'
      using br_get_port_cong [OF that] by (simp add: br_get_port_upd_port p)
    then show ?thesis
      using False
      by (auto simp: state_select_body_def p will_forward_def
          intro!: runs_mono [OF port_state_select_runs [OF wf p False]])
  qed
qed

lemma state_select_loop:
  assumes "stp_wf br" "distinct ns" "set ns \<subseteq> set (port_nos br)"
  shows "runs (for_each state_select_body ns (br, live)) (\<lambda>(br', live').
    bridge_core br' = bridge_core br
    \<and> b_port_list br' = map (\<lambda>p. if p_port_no p \<in> set ns then select_port br p else p) (b_port_list br)
    \<and> live' = live + of_nat (length (filter (will_forward br) ns)))"
  using assms
proof (induction ns arbitrary: br live)
  case Nil
  then show ?case by simp
next
  case (Cons n ns)
  have n: "n \<in> set (port_nos br)" using Cons.prems by simp
  have "runs (for_each state_select_body ns (s, live')) (\<lambda>(br', live').
      bridge_core br' = bridge_core br
      \<and> b_port_list br'
         = map (\<lambda>p. if p_port_no p \<in> set (n # ns) then select_port br p else p) (b_port_list br)
      \<and> live' = live + of_nat (length (filter (will_forward br) (n # ns))))"
    if s: "bridge_core s = bridge_core br"
      "b_port_list s = b_port_list (upd_port n (select_port br) br)"
      "live' = live + (if will_forward br n then 1 else 0)" for s live'
  proof -
    have wf: "stp_wf s" "set ns \<subseteq> set (port_nos s)"
      using Cons.prems stp_wf_cong [OF s(1)] bridge_core_eqD(1) [OF s(1)] by simp_all
    have wfwd: "will_forward s m = will_forward br m" if "m \<in> set ns" for m
    proof -
      have "m \<noteq> n" using that Cons.prems by auto
      then have "br_get_port s m = br_get_port br m"
        using br_get_port_cong [OF s(2), of m] by (simp add: br_get_port_upd_port option.map_ident)
      then show ?thesis by (simp add: will_forward_def select_port_cong [OF s(1)])
    qed
    show ?thesis
      using wfwd Cons.prems
      by (intro runs_mono [OF Cons.IH [OF wf(1) _ wf(2)]])
        (auto simp: s upd_list_def select_port_cong [OF s(1)] cong: filter_cong)
  qed
  then show ?case
    by (auto intro!: runs_mono [OF state_select_body_runs [OF Cons.prems(1) n]])
qed

lemma length_port_nos: "distinct (port_nos br) \<Longrightarrow> length (port_nos br) \<le> 65536"
  using card_mono [OF finite_class.finite_UNIV subset_UNIV, of "set (port_nos br)"]
  by (simp add: distinct_card card_word)

text \<open>The loop of \<open>br_port_state_selection\<close> is \<open>select_port\<close> on every port; the bridge device has a
  carrier exactly when some port forwards afterwards.\<close>

lemma br_port_state_selection_runs:
  assumes wf: "stp_wf br"
  shows "runs (br_port_state_selection br) (\<lambda>br'.
    bridge_core br' = bridge_core br
    \<and> b_port_list br' = map (select_port br) (b_port_list br)
    \<and> (dev_carrier (b_dev br') \<longleftrightarrow> (\<exists>p\<in>set (b_port_list br'). p_state p = BR_STATE_FORWARDING)))"
proof -
  note d = stp_wf_distinct [OF wf]
  have live: "(of_nat (length (filter (will_forward br) (port_nos br))) :: u32) \<noteq> 0
      \<longleftrightarrow> (\<exists>p\<in>set (b_port_list br). p_state (select_port br p) = BR_STATE_FORWARDING)"
  proof -
    have "length (filter (will_forward br) (port_nos br)) < 2 ^ 32"
      using length_port_nos [OF d] by (intro le_less_trans [OF length_filter_le]) simp
    then have "(of_nat (length (filter (will_forward br) (port_nos br))) :: u32) = 0
        \<longleftrightarrow> filter (will_forward br) (port_nos br) = []"
      by (auto simp: word_of_nat_eq_0_iff dest!: nat_dvd_not_less [rotated] simp flip: length_0_conv)
    then show ?thesis
      by (force simp: filter_empty_conv will_forward_def br_get_port_eq_iff [OF d] port_nos_def)
  qed
  have all: "map (\<lambda>p. if p_port_no p \<in> set (port_nos br) then select_port br p else p) (b_port_list br)
      = map (select_port br) (b_port_list br)"
    by (simp add: port_nos_def)
  have alt: "br_port_state_selection br
      = Option.bind (for_each state_select_body (port_nos br) (br, 0))
          (\<lambda>(br, liveports). Some (br\<lparr>b_dev := (b_dev br)\<lparr>dev_carrier := (liveports \<noteq> 0)\<rparr>\<rparr>))"
    unfolding br_port_state_selection_def state_select_body_def ..
  show ?thesis
    unfolding alt runs_bind
    by (rule runs_mono [OF state_select_loop [OF wf d subset_refl]]) (auto simp: all live)
qed

text \<open>C5: The loop of \<open>br_port_state_selection\<close>, whose iterations send messages and change the
  bridge while it runs, is equivalent to applying \<open>select_port\<close> to every port independently, with
  the roles fixed at the start. It never dereferences NULL, leaves the spanning tree information
  alone, and turns the carrier of the bridge device on exactly when some port forwards
  afterwards (the counter of live ports cannot wrap).\<close>

theorem br_port_state_selection_portwise:
  assumes "stp_wf br"
  shows "runs (br_port_state_selection br) (\<lambda>br'.
    b_port_list br' = map (select_port br) (b_port_list br)
    \<and> (dev_carrier (b_dev br') \<longleftrightarrow> (\<exists>p\<in>set (b_port_list br'). p_state p = BR_STATE_FORWARDING))
    \<and> b_designated_root br' = b_designated_root br \<and> b_root_port br' = b_root_port br
    \<and> b_hash br' = b_hash br)"
  by (rule runs_mono [OF br_port_state_selection_runs [OF assms]])
    (auto intro: bridge_core_eqD)

theorem br_port_state_selection_portwise_witness:
  "runs (br_port_state_selection example_bridge) (\<lambda>br'.
    b_port_list br' = map (select_port example_bridge) (b_port_list example_bridge)
    \<and> (dev_carrier (b_dev br') \<longleftrightarrow> (\<exists>p\<in>set (b_port_list br'). p_state p = BR_STATE_FORWARDING))
    \<and> b_designated_root br' = b_designated_root example_bridge
    \<and> b_root_port br' = b_root_port example_bridge \<and> b_hash br' = b_hash example_bridge)"
  by (rule br_port_state_selection_portwise [OF example_wf])

end
