(* ===== verification/Stp_Root.thy ===== *)
theory Stp_Root
  imports Stp_States "HOL-Library.Product_Lexorder"
begin

text \<open>
  Root and designated port selection of \<open>br_stp.c\<close>: \<open>br_root_selection\<close> finds the lexicographic
  minimum over the priority vectors of the ports (\<open>root_vector\<close>), \<open>br_designated_port_selection\<close>
  decides between the vector a port recorded and the one the bridge would send on it.
\<close>

section \<open>Root selection is a lexicographic minimum\<close>

definition root_candidate :: "net_bridge \<Rightarrow> net_bridge_port \<Rightarrow> bool" where
  "root_candidate br p \<longleftrightarrow>
     p_state p \<noteq> BR_STATE_DISABLED \<and> \<not> br_is_designated_port br p
     \<and> p_designated_root p < b_bridge_id br"

definition root_vector ::
  "net_bridge_port \<Rightarrow> bridge_id \<times> u32 \<times> bridge_id \<times> u16 \<times> u16" where
  "root_vector p =
     (p_designated_root p, p_designated_cost p + p_path_cost p, p_designated_bridge p,
      p_designated_port p, p_port_id p)"

lemma br_should_become_root_port_0:
  "br_should_become_root_port br p 0 = Some (root_candidate br p)"
  by (auto simp: br_should_become_root_port_def root_candidate_def not_le)

text \<open>A three-way comparison is one step of the lexicographic order.\<close>

lemma lex_step:
  fixes x y :: "'a::linorder"
  shows "(if x < y then Some True else if y < x then Some False else Some r)
    = Some (x < y \<or> x \<le> y \<and> r)"
    "(if x < y then True else if y < x then False else r) \<longleftrightarrow> x < y \<or> x \<le> y \<and> r"
  by auto

lemma br_should_become_root_port_eq:
  assumes "br_get_port br n = Some rp" "n \<noteq> 0"
  shows "br_should_become_root_port br p n
    = Some (root_candidate br p \<and> root_vector p < root_vector rp)"
proof -
  have last: "(if a then Some True else Some False) = Some a" for a by simp
  have "br_should_become_root_port br p n =
      (if root_candidate br p then Some (root_vector p < root_vector rp) else Some False)"
    unfolding br_should_become_root_port_def root_candidate_def root_vector_def Let_def
      memcmp_bridge_id_simps memcmp_bridge_id_le memcmp_bridge_id_gt last lex_step less_prod_simp
    using assms by (auto simp: not_le)
  then show ?thesis by simp
qed

text \<open>\<open>best_root br ps n\<close>: \<open>n\<close> is the number of a candidate among \<open>ps\<close> with the least vector, 0
  when there is none.\<close>

definition best_root :: "net_bridge \<Rightarrow> net_bridge_port list \<Rightarrow> u16 \<Rightarrow> bool" where
  "best_root br ps n \<longleftrightarrow>
     (if \<exists>q\<in>set ps. root_candidate br q
      then \<exists>p\<in>set ps. root_candidate br p \<and> p_port_no p = n
             \<and> (\<forall>q\<in>set ps. root_candidate br q \<longrightarrow> root_vector p \<le> root_vector q)
      else n = 0)"

lemma br_root_selection_loop:
  assumes "distinct (port_nos br)" "0 \<notin> set (port_nos br)"
  shows "runs (for_each (\<lambda>p root_port. do {
      b \<leftarrow> br_should_become_root_port br p root_port;
      Some (if b then p_port_no p else root_port)
    }) (b_port_list br) 0) (best_root br (b_port_list br))"
proof (rule for_each_prefix)
  show "best_root br [] 0" by (simp add: best_root_def)
next
  fix pre p post n
  assume xs: "b_port_list br = pre @ p # post" and I: "best_root br pre n"
  have p0: "p_port_no q \<noteq> 0" if "q \<in> set (b_port_list br)" for q
    using assms(2) that by (force simp: port_nos_def)
  show "runs (do { b \<leftarrow> br_should_become_root_port br p n; Some (if b then p_port_no p else n) })
      (best_root br (pre @ [p]))"
  proof (cases "\<exists>q\<in>set pre. root_candidate br q")
    case False
    then have "n = 0" using I by (simp add: best_root_def)
    with False show ?thesis
      by (auto simp: br_should_become_root_port_0 best_root_def)
  next
    case True
    then obtain rp where rp: "rp \<in> set pre" "root_candidate br rp" "p_port_no rp = n"
      "\<forall>q\<in>set pre. root_candidate br q \<longrightarrow> root_vector rp \<le> root_vector q"
      using I by (auto simp: best_root_def)
    have "br_get_port br n = Some rp" "n \<noteq> 0"
      using rp xs p0 [of rp] by (auto simp: br_get_port_eq_iff [OF assms(1)])
    note eq = br_should_become_root_port_eq [OF this]
    show ?thesis
      using True rp by (auto simp: eq best_root_def not_less intro: order.trans less_imp_le)
  qed
qed

text \<open>The outcome of root selection: number, root and path cost of the best candidate, or the
  bridge itself at cost 0 when no port is a candidate.\<close>

definition root_selected :: "net_bridge \<Rightarrow> net_bridge \<Rightarrow> bool" where
  "root_selected br br' \<longleftrightarrow> (\<exists>n r c.
     br' = br\<lparr>b_root_port := n, b_designated_root := r, b_root_path_cost := c\<rparr>
     \<and> best_root br (b_port_list br) n
     \<and> (if n = 0 then r = b_bridge_id br \<and> c = 0
        else \<exists>p\<in>set (b_port_list br). root_candidate br p \<and> p_port_no p = n
               \<and> r = p_designated_root p \<and> c = p_designated_cost p + p_path_cost p))"

lemma br_root_selection_runs:
  assumes "distinct (port_nos br)" "0 \<notin> set (port_nos br)"
  shows "runs (br_root_selection br) (root_selected br)"
proof -
  have self: "root_selected br (br\<lparr>b_root_port := 0, b_designated_root := b_bridge_id br,
      b_root_path_cost := 0\<rparr>)" if "best_root br (b_port_list br) 0"
    using that unfolding root_selected_def by auto
  have port: "runs (br_get_port (br\<lparr>b_root_port := n\<rparr>) n) (\<lambda>p. root_selected br
      (br\<lparr>b_root_port := n, b_designated_root := p_designated_root p,
          b_root_path_cost := p_designated_cost p + p_path_cost p\<rparr>))"
    if n: "best_root br (b_port_list br) n" "n \<noteq> 0" for n
  proof -
    obtain p where p: "p \<in> set (b_port_list br)" "root_candidate br p" "p_port_no p = n"
      using n by (auto simp: best_root_def split: if_splits)
    have "br_get_port (br\<lparr>b_root_port := n\<rparr>) n = Some p"
      using p br_get_port_eq_iff [OF assms(1), of n p] by (simp add: br_get_port_def)
    then show ?thesis using n p unfolding root_selected_def by auto
  qed
  show ?thesis
    unfolding br_root_selection_def runs_bind Let_def
    by (rule runs_mono [OF br_root_selection_loop [OF assms]]) (auto simp: self port)
qed

lemma root_selected_wf:
  assumes "distinct (port_nos br)" "0 \<notin> set (port_nos br)" "root_selected br br'"
  shows "stp_wf br'"
proof -
  obtain n r c where br': "br' = br\<lparr>b_root_port := n, b_designated_root := r, b_root_path_cost := c\<rparr>"
    and sel: "if n = 0 then r = b_bridge_id br \<and> c = 0 else \<exists>p\<in>set (b_port_list br).
       root_candidate br p \<and> p_port_no p = n \<and> r = p_designated_root p
       \<and> c = p_designated_cost p + p_path_cost p"
    using assms(3) unfolding root_selected_def by blast
  have "port_nos br' = port_nos br" by (simp add: br' port_nos_def)
  moreover have "n \<in> set (port_nos br)" "r < b_bridge_id br" if "n \<noteq> 0"
    using sel that by (auto simp: port_nos_def root_candidate_def)
  moreover have "r = b_bridge_id br" if "n = 0" using sel that by simp
  ultimately show ?thesis
    using assms(1,2) by (cases "n = 0") (auto simp: stp_wf_def br')
qed

text \<open>The same as one statement: the least candidate, its root and the cost through it.\<close>

definition optimal_root :: "net_bridge \<Rightarrow> u16 \<Rightarrow> bridge_id \<Rightarrow> u32 \<Rightarrow> bool" where
  "optimal_root br n r c \<longleftrightarrow>
     (if \<exists>q\<in>set (b_port_list br). root_candidate br q
      then \<exists>p\<in>set (b_port_list br). root_candidate br p \<and> n = p_port_no p
             \<and> r = p_designated_root p \<and> c = p_designated_cost p + p_path_cost p
             \<and> (\<forall>q\<in>set (b_port_list br). root_candidate br q \<longrightarrow> root_vector p \<le> root_vector q)
      else n = 0 \<and> r = b_bridge_id br \<and> c = 0)"

lemma root_selected_optimal:
  assumes "root_selected br br'" "distinct (port_nos br)" "0 \<notin> set (port_nos br)"
  shows "\<exists>n r c. br' = br\<lparr>b_root_port := n, b_designated_root := r, b_root_path_cost := c\<rparr>
    \<and> optimal_root br n r c"
proof -
  obtain n r c where br': "br' = br\<lparr>b_root_port := n, b_designated_root := r, b_root_path_cost := c\<rparr>"
    and best: "best_root br (b_port_list br) n"
    and sel: "if n = 0 then r = b_bridge_id br \<and> c = 0 else \<exists>p\<in>set (b_port_list br).
       root_candidate br p \<and> p_port_no p = n \<and> r = p_designated_root p
       \<and> c = p_designated_cost p + p_path_cost p"
    using assms(1) unfolding root_selected_def by blast
  have "optimal_root br n r c"
  proof (cases "\<exists>q\<in>set (b_port_list br). root_candidate br q")
    case True
    then obtain p where p: "p \<in> set (b_port_list br)" "root_candidate br p" "p_port_no p = n"
      "\<forall>q\<in>set (b_port_list br). root_candidate br q \<longrightarrow> root_vector p \<le> root_vector q"
      using best unfolding best_root_def by auto
    have "n \<noteq> 0" using assms(3) p by (force simp: port_nos_def)
    then obtain p' where p': "p' \<in> set (b_port_list br)" "p_port_no p' = n"
      "r = p_designated_root p'" "c = p_designated_cost p' + p_path_cost p'"
      using sel by auto
    have "p' = p"
      using p p' br_get_port_eq_iff [OF assms(2), of n p] br_get_port_eq_iff [OF assms(2), of n p']
      by simp
    with p p' True show ?thesis unfolding optimal_root_def by auto
  qed (use best sel in \<open>simp add: best_root_def optimal_root_def\<close>)
  with br' show ?thesis by blast
qed

section \<open>Designated ports\<close>

definition port_vector :: "net_bridge_port \<Rightarrow> bridge_id \<times> u32 \<times> bridge_id \<times> u16" where
  "port_vector p =
     (p_designated_root p, p_designated_cost p, p_designated_bridge p, p_designated_port p)"

text \<open>The vector the bridge itself would announce on a port.\<close>

definition own_vector ::
  "net_bridge \<Rightarrow> net_bridge_port \<Rightarrow> bridge_id \<times> u32 \<times> bridge_id \<times> u16" where
  "own_vector br p = (b_designated_root br, b_root_path_cost br, b_bridge_id br, p_port_id p)"

lemma br_should_become_designated_port_iff:
  "br_should_become_designated_port br p \<longleftrightarrow>
     br_is_designated_port br p \<or> p_designated_root p \<noteq> b_designated_root br
     \<or> own_vector br p < port_vector p"
proof -
  have last: "(if a then True else False) = a" for a by simp
  show ?thesis
    unfolding br_should_become_designated_port_def own_vector_def port_vector_def Let_def
      memcmp_bridge_id_simps memcmp_bridge_id_gt last lex_step less_prod_simp
    by auto
qed

lemma become_designated_vector [simp]: "port_vector (become_designated br p) = own_vector br p"
  by (simp add: port_vector_def own_vector_def become_designated_def)

lemma become_designated_fields [simp]:
  "p_state (become_designated br p) = p_state p"
  "p_port_no (become_designated br p) = p_port_no p"
  "p_port_id (become_designated br p) = p_port_id p"
  by (simp_all add: become_designated_def)

text \<open>Every enabled port carries either the bridge's own vector or a strictly better one for the
  same root.\<close>

definition settled :: "net_bridge \<Rightarrow> bool" where
  "settled br \<longleftrightarrow> (\<forall>p\<in>set (b_port_list br). p_state p \<noteq> BR_STATE_DISABLED \<longrightarrow>
     port_vector p = own_vector br p
     \<or> p_designated_root p = b_designated_root br \<and> \<not> br_is_designated_port br p
        \<and> port_vector p < own_vector br p)"

lemma own_vector_cong [simp]:
  "own_vector (br\<lparr>b_port_list := ps\<rparr>) p = own_vector br p"
  "own_vector br (become_designated br' p) = own_vector br p"
  by (simp_all add: own_vector_def become_designated_def)

lemma br_is_designated_port_port_list [simp]:
  "br_is_designated_port (br\<lparr>b_port_list := ps\<rparr>) = br_is_designated_port br"
  by (simp add: fun_eq_iff br_is_designated_port_def)

lemma port_vector_eq_own:
  "port_vector p = own_vector br p \<Longrightarrow> br_is_designated_port br p"
  by (simp add: port_vector_def own_vector_def br_is_designated_port_iff)

lemma settled_designated_port_selection: "settled (br_designated_port_selection br)"
proof -
  have "p_designated_root p = b_designated_root br \<and> \<not> br_is_designated_port br p
      \<and> port_vector p < own_vector br p" if "\<not> br_should_become_designated_port br p" for p
    using that port_vector_eq_own [of p br]
    by (auto simp: br_should_become_designated_port_iff not_less order.order_iff_strict)
  then show ?thesis
    by (auto simp: settled_def br_designated_port_selection_def)
qed

text \<open>Designated port selection changes no number, no state and nothing the invariant reads.\<close>

lemma br_designated_port_selection_fields [simp]:
  "port_nos (br_designated_port_selection br) = port_nos br"
  "map p_state (b_port_list (br_designated_port_selection br)) = map p_state (b_port_list br)"
  "b_bridge_id (br_designated_port_selection br) = b_bridge_id br"
  "b_designated_root (br_designated_port_selection br) = b_designated_root br"
  "b_root_port (br_designated_port_selection br) = b_root_port br"
  "b_root_path_cost (br_designated_port_selection br) = b_root_path_cost br"
  by (simp_all add: br_designated_port_selection_def port_nos_def cong: if_cong)

definition config_updated :: "net_bridge \<Rightarrow> net_bridge \<Rightarrow> bool" where
  "config_updated br br' \<longleftrightarrow>
     (\<exists>br1. root_selected br br1 \<and> br' = br_designated_port_selection br1)"

lemma br_configuration_update_runs:
  assumes "distinct (port_nos br)" "0 \<notin> set (port_nos br)"
  shows "runs (br_configuration_update br) (config_updated br)"
  unfolding br_configuration_update_def config_updated_def runs_bind
  by (rule runs_mono [OF br_root_selection_runs [OF assms]]) auto

lemma root_selected_fields:
  assumes "root_selected br br'"
  shows "b_port_list br' = b_port_list br" "b_bridge_id br' = b_bridge_id br"
    "port_nos br' = port_nos br" "b_stp_enabled br' = b_stp_enabled br"
    "b_forward_delay br' = b_forward_delay br" "b_hash br' = b_hash br"
    "b_num_fdb_entries br' = b_num_fdb_entries br" "b_jiffies br' = b_jiffies br"
    "best_root br (b_port_list br) (b_root_port br')"
  using assms unfolding root_selected_def by (auto simp: port_nos_def)

lemma config_updated_wf:
  assumes "distinct (port_nos br)" "0 \<notin> set (port_nos br)" "config_updated br br'"
  shows "stp_wf br'"
proof -
  obtain br1 where 1: "root_selected br br1" "br' = br_designated_port_selection br1"
    using assms(3) by (auto simp: config_updated_def)
  show ?thesis
    using root_selected_wf [OF assms(1,2) 1(1)] by (simp add: stp_wf_def 1(2))
qed

lemma config_updated_fields:
  assumes "config_updated br br'"
  shows "port_nos br' = port_nos br" "b_bridge_id br' = b_bridge_id br"
    "map p_state (b_port_list br') = map p_state (b_port_list br)"
    "b_stp_enabled br' = b_stp_enabled br" "b_forward_delay br' = b_forward_delay br"
    "b_hash br' = b_hash br" "b_num_fdb_entries br' = b_num_fdb_entries br" "b_jiffies br' = b_jiffies br"
    "best_root br (b_port_list br) (b_root_port br')" "settled br'"
proof -
  obtain br1 where 1: "root_selected br br1" "br' = br_designated_port_selection br1"
    using assms by (auto simp: config_updated_def)
  note r = root_selected_fields [OF 1(1)]
  show "b_stp_enabled br' = b_stp_enabled br" "b_forward_delay br' = b_forward_delay br"
    "b_hash br' = b_hash br" "b_num_fdb_entries br' = b_num_fdb_entries br"
    "b_jiffies br' = b_jiffies br"
    using r by (simp_all add: 1(2) br_designated_port_selection_def)
  show "port_nos br' = port_nos br" "b_bridge_id br' = b_bridge_id br"
    "map p_state (b_port_list br') = map p_state (b_port_list br)"
    "best_root br (b_port_list br) (b_root_port br')"
    using r by (simp_all add: 1(2))
  show "settled br'" by (simp add: 1(2) settled_designated_port_selection)
qed

text \<open>As long as the root path cost does not wrap around, the root port does not become a
  designated port.\<close>

lemma root_port_stays:
  assumes sel: "root_selected br br1" and d: "distinct (port_nos br)"
    and p: "p \<in> set (b_port_list br)" "p_port_no p = b_root_port br1" "b_root_port br1 \<noteq> 0"
    and c: "p_path_cost p \<noteq> 0" "unat (p_designated_cost p) + unat (p_path_cost p) < 2 ^ 32"
  shows "\<not> br_should_become_designated_port br1 p" "\<not> br_is_designated_port br1 p"
proof -
  obtain q where q: "q \<in> set (b_port_list br)" "root_candidate br q" "p_port_no q = b_root_port br1"
    "b_designated_root br1 = p_designated_root q"
    "b_root_path_cost br1 = p_designated_cost q + p_path_cost q"
    using sel p(3) by (auto simp: root_selected_def split: if_splits)
  have "q = p"
    using br_get_port_eq_iff [OF d, of "b_root_port br1" q]
      br_get_port_eq_iff [OF d, of "b_root_port br1" p] p q by simp
  have "unat (p_designated_cost p) < unat (p_designated_cost p + p_path_cost p)"
    using c by (simp add: unat_word_ariths unat_gt_0)
  then have "p_designated_cost p < b_root_path_cost br1"
    using q(5) by (simp add: \<open>q = p\<close> word_less_nat_alt)
  then have "\<not> own_vector br1 p < port_vector p"
    using q(4) by (auto simp: \<open>q = p\<close> own_vector_def port_vector_def not_less)
  moreover show "\<not> br_is_designated_port br1 p"
    using q(2) root_selected_fields(2) [OF sel]
    by (simp add: \<open>q = p\<close> root_candidate_def br_is_designated_port_iff)
  ultimately show "\<not> br_should_become_designated_port br1 p"
    using q(4) by (simp add: br_should_become_designated_port_iff \<open>q = p\<close>)
qed

section \<open>Roles and states\<close>

text \<open>Of the enabled ports exactly those that are neither the root port nor designated are
  blocked.\<close>

definition roles_ok :: "net_bridge \<Rightarrow> bool" where
  "roles_ok br \<longleftrightarrow> (\<forall>p\<in>set (b_port_list br). p_state p \<noteq> BR_STATE_DISABLED \<longrightarrow>
     (p_state p = BR_STATE_BLOCKING
       \<longleftrightarrow> p_port_no p \<noteq> b_root_port br \<and> \<not> br_is_designated_port br p))"

lemma select_port_core [simp]: "port_core (select_port br p) = port_core p"
  by (simp add: select_port_def started_port_def blocked_port_def)

lemma select_port_disabled [simp]:
  "p_state (select_port br p) = BR_STATE_DISABLED \<longleftrightarrow> p_state p = BR_STATE_DISABLED"
  by (simp add: select_port_def started_port_def blocked_port_def start_state_def)

lemma select_port_role:
  assumes "p_state p \<noteq> BR_STATE_DISABLED" "b_stp_enabled br \<noteq> BR_USER_STP"
  shows "p_state (select_port br p) = BR_STATE_BLOCKING
    \<longleftrightarrow> p_port_no p \<noteq> b_root_port br \<and> \<not> br_is_designated_port br p"
  using assms by (simp add: select_port_def started_port_def blocked_port_def start_state_def)

text \<open>Both predicates only read the core of a port and a view of its state.\<close>

lemma ports_transfer:
  assumes "map port_core ps' = map port_core ps" "map h ps' = map h ps"
    and "\<forall>p\<in>set ps. P (port_core p) (h p)"
  shows "\<forall>p\<in>set ps'. P (port_core p) (h p)"
  using assms by (induction ps' ps rule: list_induct2') auto

lemma settled_alt:
  "settled br \<longleftrightarrow> (\<forall>p\<in>set (b_port_list br). (\<lambda>c d. \<not> d \<longrightarrow>
     port_vector c = own_vector br c \<or> p_designated_root c = b_designated_root br
       \<and> \<not> br_is_designated_port br c \<and> port_vector c < own_vector br c)
     (port_core p) (p_state p = BR_STATE_DISABLED))"
  by (simp add: settled_def port_vector_def own_vector_def br_is_designated_port_iff)

lemma roles_ok_alt:
  "roles_ok br \<longleftrightarrow> (\<forall>p\<in>set (b_port_list br). (\<lambda>c s. s \<noteq> BR_STATE_DISABLED \<longrightarrow>
     (s = BR_STATE_BLOCKING \<longleftrightarrow> p_port_no c \<noteq> b_root_port br \<and> \<not> br_is_designated_port br c))
     (port_core p) (p_state p))"
  by (simp add: roles_ok_def br_is_designated_port_iff)

lemma settled_transfer:
  assumes c: "bridge_core br' = bridge_core br"
    and "map (\<lambda>p. p_state p = BR_STATE_DISABLED) (b_port_list br')
       = map (\<lambda>p. p_state p = BR_STATE_DISABLED) (b_port_list br)"
    and "settled br"
  shows "settled br'"
proof -
  have "own_vector br' = own_vector br" "br_is_designated_port br' = br_is_designated_port br"
    using bridge_core_eqD(3,4,5) [OF c]
    by (simp_all add: fun_eq_iff own_vector_def br_is_designated_port_iff)
  then show ?thesis
    using assms(3) bridge_core_eqD(4) [OF c] unfolding settled_alt
    by (intro ports_transfer [OF bridge_core_eqD(2) [OF c] assms(2)]) simp
qed

lemma roles_ok_transfer:
  assumes c: "bridge_core br' = bridge_core br"
    and "map p_state (b_port_list br') = map p_state (b_port_list br)" and "roles_ok br"
  shows "roles_ok br'"
proof -
  have "br_is_designated_port br' = br_is_designated_port br"
    using bridge_core_eqD(3) [OF c] by (simp add: fun_eq_iff br_is_designated_port_iff)
  then show ?thesis
    using assms(3) bridge_core_eqD(6) [OF c] unfolding roles_ok_alt
    by (intro ports_transfer [OF bridge_core_eqD(2) [OF c] assms(2)]) simp
qed

lemma br_port_state_selection_roles:
  assumes "stp_wf br" "b_stp_enabled br \<noteq> BR_USER_STP" "settled br"
  shows "runs (br_port_state_selection br)
    (\<lambda>br'. bridge_core br' = bridge_core br \<and> b_port_list br' = map (select_port br) (b_port_list br)
      \<and> settled br' \<and> roles_ok br')"
proof (rule runs_mono [OF br_port_state_selection_runs [OF assms(1)]])
  fix br'
  assume "bridge_core br' = bridge_core br \<and> b_port_list br' = map (select_port br) (b_port_list br)
    \<and> (dev_carrier (b_dev br') \<longleftrightarrow> (\<exists>p\<in>set (b_port_list br'). p_state p = BR_STATE_FORWARDING))"
  then have c: "bridge_core br' = bridge_core br" and l: "b_port_list br' = map (select_port br) (b_port_list br)"
    by simp_all
  have "settled br'"
    by (rule settled_transfer [OF c _ assms(3)]) (simp add: l comp_def)
  moreover have "roles_ok br'"
    using select_port_role [OF _ assms(2)] bridge_core_eqD(3,6) [OF c]
      br_is_designated_port_cong [of "select_port br _" _ br' br]
    by (auto simp: roles_ok_def l)
  ultimately show "bridge_core br' = bridge_core br \<and> b_port_list br' = map (select_port br) (b_port_list br)
    \<and> settled br' \<and> roles_ok br'" using c l by blast
qed

section \<open>Properties of selection\<close>

text \<open>C2: Root selection is optimal. With distinct non-zero port numbers \<open>br_root_selection\<close> never
  dereferences NULL. If some port is a candidate (enabled, not designated, and with a recorded
  root better than the bridge), it chooses a candidate whose vector (root, path cost through the
  port, designated bridge, designated port, port id) is lexicographically least and takes over
  its root and cost; if there is none the bridge becomes the root at cost 0. Nothing else of
  the bridge changes.\<close>

theorem br_root_selection_optimal:
  assumes "distinct (port_nos br)" "0 \<notin> set (port_nos br)"
  shows "runs (br_root_selection br) (\<lambda>br'. \<exists>n r c.
    br' = br\<lparr>b_root_port := n, b_designated_root := r, b_root_path_cost := c\<rparr> \<and> optimal_root br n r c)"
  by (rule runs_mono [OF br_root_selection_runs [OF assms] root_selected_optimal [OF _ assms]])

theorem br_root_selection_optimal_witness:
  "runs (br_root_selection example_bridge) (\<lambda>br'. \<exists>n r c.
    br' = example_bridge\<lparr>b_root_port := n, b_designated_root := r, b_root_path_cost := c\<rparr>
    \<and> optimal_root example_bridge n r c)"
  by (rule br_root_selection_optimal) simp_all

text \<open>C4: After \<open>br_configuration_update\<close> every enabled port records the best information for its
  segment: either what the bridge itself would announce there, in which case the port is
  designated, or a strictly better vector for the same root, in which case it is not. The root
  port is not designated, provided path costs are positive (as \<open>br_stp_set_path_cost\<close>
  enforces) and adding the path cost to the recorded cost does not wrap around 32 bits.\<close>

theorem br_configuration_update_settles:
  assumes "distinct (port_nos br)" "0 \<notin> set (port_nos br)"
    and "\<forall>p\<in>set (b_port_list br). p_path_cost p \<noteq> 0
           \<and> unat (p_designated_cost p) + unat (p_path_cost p) < 2 ^ 32"
  shows "runs (br_configuration_update br) (\<lambda>br'. \<forall>p\<in>set (b_port_list br').
    (p_state p \<noteq> BR_STATE_DISABLED \<longrightarrow>
       br_is_designated_port br' p \<and> port_vector p = own_vector br' p
       \<or> \<not> br_is_designated_port br' p \<and> p_designated_root p = b_designated_root br'
          \<and> port_vector p < own_vector br' p)
    \<and> (p_port_no p = b_root_port br' \<longrightarrow> \<not> br_is_designated_port br' p))"
proof (rule runs_mono [OF br_configuration_update_runs [OF assms(1,2)]], intro ballI conjI)
  fix br' p assume u: "config_updated br br'" and p: "p \<in> set (b_port_list br')"
  show "p_state p \<noteq> BR_STATE_DISABLED \<longrightarrow>
       br_is_designated_port br' p \<and> port_vector p = own_vector br' p
       \<or> \<not> br_is_designated_port br' p \<and> p_designated_root p = b_designated_root br'
          \<and> port_vector p < own_vector br' p"
    using config_updated_fields(10) [OF u] p port_vector_eq_own [of p br'] by (auto simp: settled_def)
  obtain br1 where 1: "root_selected br br1" "br' = br_designated_port_selection br1"
    using u by (auto simp: config_updated_def)
  obtain q where q: "q \<in> set (b_port_list br)"
    "p = (if p_state q \<noteq> BR_STATE_DISABLED \<and> br_should_become_designated_port br1 q
          then become_designated br1 q else q)"
    using p root_selected_fields(1) [OF 1(1)] by (auto simp: 1(2) br_designated_port_selection_def)
  show "p_port_no p = b_root_port br' \<longrightarrow> \<not> br_is_designated_port br' p"
  proof
    assume "p_port_no p = b_root_port br'"
    then have no: "p_port_no q = b_root_port br1" using q(2) by (simp add: 1(2) split: if_splits)
    moreover have "b_root_port br1 \<noteq> 0" using q(1) no assms(2) by (force simp: port_nos_def)
    ultimately show "\<not> br_is_designated_port br' p"
      using root_port_stays [OF 1(1) assms(1) q(1)] assms(3) q
      by (auto simp: 1(2) br_designated_port_selection_def)
  qed
qed

theorem br_configuration_update_settles_witness:
  "runs (br_configuration_update example_bridge) (\<lambda>br'. \<forall>p\<in>set (b_port_list br').
    (p_state p \<noteq> BR_STATE_DISABLED \<longrightarrow>
       br_is_designated_port br' p \<and> port_vector p = own_vector br' p
       \<or> \<not> br_is_designated_port br' p \<and> p_designated_root p = b_designated_root br'
          \<and> port_vector p < own_vector br' p)
    \<and> (p_port_no p = b_root_port br' \<longrightarrow> \<not> br_is_designated_port br' p))"
  by (rule br_configuration_update_settles) (simp_all add: example_bridge_def example_port_def port_nos_def)

definition wrap_bridge :: net_bridge where
  "wrap_bridge = upd_port 1 (\<lambda>p. p\<lparr>p_designated_root := Bridge_id 0 0 (Mac 0 0 0 0 0 9),
     p_designated_bridge := Bridge_id 0 0 (Mac 0 0 0 0 0 9), p_designated_port := 0x8005,
     p_designated_cost := 0xffffffff\<rparr>) example_bridge"


end
