(* ===== verification/Stp_Rcv.thy ===== *)
theory Stp_Rcv
  imports Stp_Root
begin

text \<open>
  Receiving spanning tree messages: \<open>br_stp_rcv\<close> of \<open>br_stp_bpdu.c\<close> and what the two handlers it
  calls, \<open>br_received_config_bpdu\<close> and \<open>br_received_tcn_bpdu\<close>, do to a bridge that satisfies
  \<open>stp_wf\<close>.
\<close>

section \<open>The receive function\<close>

text \<open>\<open>p\<close> is the port of the receiving device (\<open>br_port_get_rcu\<close>, None when the device is in no
  bridge), \<open>dest\<close> the destination address of the frame, \<open>data\<close> its bytes after the LLC header.
  \<open>pskb_may_pull (skb, len)\<close> holds when there are \<open>len\<close> bytes. The frame is freed on every path.\<close>

definition br_stp_rcv ::
  "u16 option \<Rightarrow> mac_addr \<Rightarrow> u8 list \<Rightarrow> net_bridge \<Rightarrow> net_bridge option" where
  "br_stp_rcv port dest data br =
     (if length data < 4 then Some br
      else if data ! 0 \<noteq> 0 \<or> data ! 1 \<noteq> 0 \<or> data ! 2 \<noteq> 0 then Some br
      else case port of
        None \<Rightarrow> Some br
      | Some n \<Rightarrow> do {
          p \<leftarrow> br_get_port br n;
          if b_stp_enabled br \<noteq> BR_KERNEL_STP then Some br
          else if \<not> dev_up (b_dev br) then Some br
          else if p_state p = BR_STATE_DISABLED then Some br
          else if compare_ether_addr dest (b_group_addr br) then Some br
          else
            let buf = drop 3 data in
            if buf ! 0 = BPDU_TYPE_CONFIG then
              (if length buf < 32 then Some br
               else
                 let bpdu = config_bpdu_of_buf buf in
                 if sint (bpdu_message_age bpdu) > sint (bpdu_max_age bpdu) then Some br
                 else br_received_config_bpdu n bpdu br)
            else if buf ! 0 = BPDU_TYPE_TCN then br_received_tcn_bpdu n br
            else Some br
        })"

section \<open>The handlers keep the invariant\<close>

lemma br_record_config_information_fields [simp]:
  "port_nos (br_record_config_information n bpdu br) = port_nos br"
  "b_bridge_id (br_record_config_information n bpdu br) = b_bridge_id br"
  "b_stp_enabled (br_record_config_information n bpdu br) = b_stp_enabled br"
  "b_hash (br_record_config_information n bpdu br) = b_hash br"
  "b_num_fdb_entries (br_record_config_information n bpdu br) = b_num_fdb_entries br"
  "map p_state (b_port_list (br_record_config_information n bpdu br)) = map p_state (b_port_list br)"
  by (simp_all add: br_record_config_information_def)

lemma stp_wf_record_timeout [simp]:
  "stp_wf (br_record_config_timeout_values bpdu br) = stp_wf br"
  by (simp add: stp_wf_def br_record_config_timeout_values_def port_nos_def)

lemma settled_record_timeout [simp]:
  "settled (br_record_config_timeout_values bpdu br) = settled br"
  "roles_ok (br_record_config_timeout_values bpdu br) = roles_ok br"
  by (simp_all add: settled_def roles_ok_def br_record_config_timeout_values_def own_vector_def
      br_is_designated_port_iff)

text \<open>What the part of \<open>br_received_config_bpdu\<close> behind the state selection keeps.\<close>

definition after_selection :: "net_bridge \<Rightarrow> net_bridge \<Rightarrow> bool" where
  "after_selection br br' \<longleftrightarrow>
     bridge_core (br'\<lparr>b_max_age := 0, b_hello_time := 0, b_forward_delay := 0\<rparr>)
       = bridge_core (br\<lparr>b_max_age := 0, b_hello_time := 0, b_forward_delay := 0\<rparr>)
     \<and> map p_state (b_port_list br') = map p_state (b_port_list br)"

lemma after_selection_refl [simp]: "after_selection br br"
  by (simp add: after_selection_def)

lemma after_selection_trans [trans]:
  "after_selection a b \<Longrightarrow> after_selection b c \<Longrightarrow> after_selection a c"
  by (simp add: after_selection_def)

lemma after_selection_core:
  assumes "bridge_core br' = bridge_core br" "map p_state (b_port_list br') = map p_state (b_port_list br)"
  shows "after_selection br br'"
proof -
  have "bridge_core (br\<lparr>b_max_age := 0, b_hello_time := 0, b_forward_delay := 0\<rparr>)
      = (bridge_core br)\<lparr>b_max_age := 0, b_hello_time := 0, b_forward_delay := 0\<rparr>" for br
    by (simp add: bridge_core_def)
  with assms show ?thesis by (simp add: after_selection_def)
qed

lemma after_selection_timeouts [simp]:
  "after_selection br (br_record_config_timeout_values bpdu br)"
  by (simp add: after_selection_def br_record_config_timeout_values_def bridge_core_def)

lemma after_selection_keeps:
  assumes "after_selection br br'"
  shows "stp_wf br' = stp_wf br" "settled br \<Longrightarrow> settled br'" "roles_ok br \<Longrightarrow> roles_ok br'"
    "b_designated_root br' = b_designated_root br" "b_bridge_id br' = b_bridge_id br"
    "b_root_port br' = b_root_port br" "port_nos br' = port_nos br" "b_hash br' = b_hash br"
    "b_num_fdb_entries br' = b_num_fdb_entries br" "b_root_path_cost br' = b_root_path_cost br"
proof -
  let ?z = "\<lambda>br. br\<lparr>b_max_age := 0, b_hello_time := 0, b_forward_delay := 0\<rparr> :: net_bridge"
  have c: "bridge_core (?z br') = bridge_core (?z br)"
    and st: "map p_state (b_port_list (?z br')) = map p_state (b_port_list (?z br))"
    using assms by (simp_all add: after_selection_def)
  have z: "stp_wf (?z br) = stp_wf br" "settled (?z br) = settled br" "roles_ok (?z br) = roles_ok br" for br
    by (simp_all add: stp_wf_def settled_def roles_ok_def own_vector_def port_nos_def br_is_designated_port_iff)
  have d: "map (\<lambda>p. p_state p = BR_STATE_DISABLED) (b_port_list (?z br'))
      = map (\<lambda>p. p_state p = BR_STATE_DISABLED) (b_port_list (?z br))"
    using arg_cong [OF st, of "map (\<lambda>s. s = BR_STATE_DISABLED)"] by (simp add: comp_def)
  show "stp_wf br' = stp_wf br" using stp_wf_cong [OF c] by (simp add: z)
  show "settled br \<Longrightarrow> settled br'" using settled_transfer [OF c d] by (simp add: z)
  show "roles_ok br \<Longrightarrow> roles_ok br'" using roles_ok_transfer [OF c st] by (simp add: z)
  show "b_designated_root br' = b_designated_root br" "b_bridge_id br' = b_bridge_id br"
    "b_root_port br' = b_root_port br" "b_hash br' = b_hash br"
    "b_num_fdb_entries br' = b_num_fdb_entries br" "b_root_path_cost br' = b_root_path_cost br"
    using bridge_core_eqD [OF c] by simp_all
  show "port_nos br' = port_nos br"
    using bridge_core_eqD(1) [OF c] by (simp add: port_nos_def)
qed

lemma cease_root_runs:
  assumes "stp_wf br" "\<not> br_is_root_bridge br"
  shows "runs (cease_root br) (after_selection br)"
proof -
  have tcn: "runs (br_transmit_tcn (br\<lparr>b_hello_timer := s, b_topology_change_timer := t\<rparr>))
      (\<lambda>br'. bridge_core br' = bridge_core br \<and> b_port_list br' = b_port_list br)" for s t
    using stp_wf_root_port [OF assms]
    by (intro runs_mono [OF br_transmit_tcn_runs]) (auto simp: port_nos_def)
  show ?thesis
    by (auto simp: cease_root_def Let_def intro!: after_selection_core runs_mono [OF tcn])
qed

lemma relay_config_runs:
  assumes "stp_wf br"
  shows "runs (relay_config bpdu br) (after_selection br)"
proof -
  have gen: "runs (br_config_bpdu_generation (br_record_config_timeout_values bpdu br))
      (after_selection br)"
    using assms
    by (intro runs_mono [OF br_config_bpdu_generation_runs])
      (auto intro: after_selection_core after_selection_trans [OF after_selection_timeouts])
  have "after_selection br (br_topology_change_acknowledged a)" if "after_selection br a" for a
    by (rule after_selection_trans [OF that])
      (auto simp: br_topology_change_acknowledged_def intro: after_selection_core)
  then show ?thesis
    by (auto simp: relay_config_def intro!: runs_mono [OF gen])
qed

text \<open>\<open>selected br br'\<close>: \<open>br'\<close> is \<open>br\<close> after configuration update, state selection and steps that
  leave their outcome alone.\<close>

definition selected :: "net_bridge \<Rightarrow> net_bridge \<Rightarrow> bool" where
  "selected br br' \<longleftrightarrow> (\<exists>br1 br2. config_updated br br1 \<and> bridge_core br2 = bridge_core br1
     \<and> map (\<lambda>p. p_state p = BR_STATE_DISABLED) (b_port_list br2) = map (\<lambda>p. p_state p = BR_STATE_DISABLED) (b_port_list br)
     \<and> (b_stp_enabled br \<noteq> BR_USER_STP \<longrightarrow> settled br2 \<and> roles_ok br2) \<and> after_selection br2 br')"

lemma configuration_and_state_selection_runs:
  assumes "distinct (port_nos br)" "0 \<notin> set (port_nos br)"
  shows "runs (Option.bind (br_configuration_update br) br_port_state_selection)
    (\<lambda>br2. stp_wf br2 \<and> selected br br2)"
  unfolding runs_bind
proof (rule runs_mono [OF br_configuration_update_runs [OF assms]])
  fix br1 assume 1: "config_updated br br1"
  note wf = config_updated_wf [OF assms 1]
  have st: "map (\<lambda>p. p_state p = BR_STATE_DISABLED) (map (select_port br1) (b_port_list br1))
      = map (\<lambda>p. p_state p = BR_STATE_DISABLED) (b_port_list br)"
    using arg_cong [OF config_updated_fields(3) [OF 1], of "map (\<lambda>s. s = BR_STATE_DISABLED)"] by (simp add: comp_def)
  have mk: "stp_wf br2 \<and> selected br br2"
    if "bridge_core br2 = bridge_core br1" and "b_port_list br2 = map (select_port br1) (b_port_list br1)"
      and "b_stp_enabled br \<noteq> BR_USER_STP \<longrightarrow> settled br2 \<and> roles_ok br2" for br2
    using 1 wf stp_wf_cong [OF that(1)] that(1,3) st [folded that(2)] after_selection_refl unfolding selected_def by blast
  show "runs (br_port_state_selection br1) (\<lambda>br2. stp_wf br2 \<and> selected br br2)"
  proof (cases "b_stp_enabled br = BR_USER_STP")
    case True
    then show ?thesis
      by (intro runs_mono [OF br_port_state_selection_runs [OF wf]] mk) simp_all
  next
    case False
    have "b_stp_enabled br1 \<noteq> BR_USER_STP" "settled br1"
      using False config_updated_fields(4,10) [OF 1] by simp_all
    then show ?thesis
      by (intro runs_mono [OF br_port_state_selection_roles [OF wf]] mk) simp_all
  qed
qed

lemma selected_after: "selected br br2 \<Longrightarrow> after_selection br2 br' \<Longrightarrow> selected br br'"
  unfolding selected_def using after_selection_trans by blast

lemma stp_wf_after: "stp_wf br \<Longrightarrow> after_selection br br' \<Longrightarrow> stp_wf br'"
  by (simp add: after_selection_keeps(1))

text \<open>The handler for configuration messages: it does not fault, it keeps the invariant, and a
  message that supersedes the port's information leads to a fresh selection on the bridge that
  has recorded it.\<close>

lemma br_received_config_bpdu_runs:
  assumes wf: "stp_wf br" and n: "n \<in> set (port_nos br)"
  shows "runs (br_received_config_bpdu n bpdu br) (\<lambda>br'. stp_wf br' \<and>
    (\<forall>p. br_get_port br n = Some p \<longrightarrow> (if br_supersedes_port_info br p bpdu
       then selected (br_record_config_information n bpdu br) br'
       else bridge_core br' = bridge_core br)))"
proof -
  obtain p where p: "br_get_port br n = Some p" using br_get_port_ex [OF n] by blast
  let ?br = "br_record_config_information n bpdu br"
  let ?Q = "\<lambda>br'. stp_wf br' \<and> selected ?br br'"
  have tail: "runs (Option.bind (if \<not> br_is_root_bridge br2 \<and> w then cease_root br2 else Some br2)
      (\<lambda>br. if n = b_root_port br then relay_config bpdu br else Some br)) ?Q"
    if "?Q br2" for br2 w
  proof -
    have "runs (if \<not> br_is_root_bridge br2 \<and> w then cease_root br2 else Some br2) ?Q"
      using that by (auto intro!: runs_mono [OF cease_root_runs]
        intro: selected_after stp_wf_after)
    then show ?thesis
      unfolding runs_bind
      by (rule runs_mono) (auto intro!: runs_mono [OF relay_config_runs]
        intro: selected_after stp_wf_after)
  qed
  have "runs (Option.bind (br_configuration_update ?br) br_port_state_selection) ?Q"
    using wf by (intro configuration_and_state_selection_runs) (simp_all add: stp_wf_def)
  then have sup: "runs (Option.bind (br_configuration_update ?br) (\<lambda>br. Option.bind (br_port_state_selection br)
      (\<lambda>br. Option.bind (if \<not> br_is_root_bridge br \<and> w then cease_root br else Some br)
      (\<lambda>br. if n = b_root_port br then relay_config bpdu br else Some br)))) ?Q" for w
    unfolding runs_bind by (elim runs_mono) (use tail in \<open>simp only: runs_bind\<close>)
  have reply: "runs (br_transmit_config n br) (\<lambda>br'. stp_wf br' \<and> bridge_core br' = bridge_core br)"
    by (rule runs_mono [OF br_transmit_config_runs [OF wf n]]) (use wf in \<open>auto dest: stp_wf_cong\<close>)
  show ?thesis
  proof (cases "br_supersedes_port_info br p bpdu")
    case True
    then show ?thesis
      using sup by (simp add: br_received_config_bpdu_def p Let_def del: runs_bind)
  next
    case False
    then show ?thesis
      using reply wf by (simp add: br_received_config_bpdu_def p Let_def br_reply_def)
  qed
qed

lemma br_received_tcn_bpdu_runs:
  assumes wf: "stp_wf br" and n: "n \<in> set (port_nos br)"
  shows "runs (br_received_tcn_bpdu n br) (\<lambda>br'. stp_wf br' \<and> bridge_core br' = bridge_core br)"
proof -
  obtain p where p: "br_get_port br n = Some p" using br_get_port_ex [OF n] by blast
  have ack: "runs (br_topology_change_acknowledge n s) (\<lambda>br'. stp_wf br' \<and> bridge_core br' = bridge_core br)"
    if c: "bridge_core s = bridge_core br" for s
  proof -
    have "stp_wf s" "n \<in> set (port_nos s)"
      using wf n stp_wf_cong [OF c] bridge_core_eqD(1) [OF c] by simp_all
    note u = upd_port_core [of "\<lambda>p. p\<lparr>p_topology_change_ack := True\<rparr>", OF _ this, simplified]
    show ?thesis
      unfolding br_topology_change_acknowledge_def
      by (rule runs_mono [OF br_transmit_config_runs])
        (use u \<open>n \<in> set (port_nos s)\<close> c wf in \<open>auto dest: stp_wf_cong\<close>)
  qed
  show ?thesis
    using wf by (auto simp: br_received_tcn_bpdu_def p ack
        intro!: runs_mono [OF br_topology_change_detection_runs [OF wf]])
qed

lemma br_stp_rcv_runs:
  assumes wf: "stp_wf br" and n: "\<And>n. port = Some n \<Longrightarrow> n \<in> set (port_nos br)"
  shows "runs (br_stp_rcv port dest data br) stp_wf"
proof (cases port)
  case (Some n)
  then have n: "n \<in> set (port_nos br)" using n by simp
  have "runs (br_received_config_bpdu n bpdu br) stp_wf" for bpdu
    by (rule runs_mono [OF br_received_config_bpdu_runs [OF wf n]]) simp
  moreover have "runs (br_received_tcn_bpdu n br) stp_wf"
    by (rule runs_mono [OF br_received_tcn_bpdu_runs [OF wf n]]) simp
  ultimately show ?thesis
    using br_get_port_ex [OF n] wf Some by (auto simp: br_stp_rcv_def Let_def)
qed (use wf in \<open>simp add: br_stp_rcv_def\<close>)

section \<open>A better root is adopted\<close>

lemma root_selected_le:
  assumes "root_selected br br'" "distinct (port_nos br)" "0 \<notin> set (port_nos br)"
    and q: "q \<in> set (b_port_list br)" "root_candidate br q"
  shows "b_designated_root br' \<le> p_designated_root q" "b_root_port br' \<noteq> 0"
proof -
  obtain n r c where br': "br' = br\<lparr>b_root_port := n, b_designated_root := r, b_root_path_cost := c\<rparr>"
    and opt: "optimal_root br n r c"
    using root_selected_optimal [OF assms(1-3)] by blast
  obtain p where p: "p \<in> set (b_port_list br)" "n = p_port_no p" "r = p_designated_root p"
    "root_vector p \<le> root_vector q"
    using opt q unfolding optimal_root_def by (auto split: if_splits)
  show "b_designated_root br' \<le> p_designated_root q"
    using p by (auto simp: br' root_vector_def less_eq_prod_simp)
  show "b_root_port br' \<noteq> 0" using assms(3) p by (force simp: br' port_nos_def)
qed

lemma selected_le:
  assumes "selected br br'" "distinct (port_nos br)" "0 \<notin> set (port_nos br)"
    and q: "q \<in> set (b_port_list br)" "root_candidate br q"
  shows "b_designated_root br' \<le> p_designated_root q" "b_root_port br' \<noteq> 0"
proof -
  obtain br0 br1 br2 where "root_selected br br0" "br1 = br_designated_port_selection br0"
    "bridge_core br2 = bridge_core br1" "after_selection br2 br'"
    using assms(1) by (auto simp: selected_def config_updated_def)
  then show "b_designated_root br' \<le> p_designated_root q" "b_root_port br' \<noteq> 0"
    using root_selected_le [OF _ assms(2,3) q, of br0] bridge_core_eqD(4,6) [of br2 br1]
      after_selection_keeps(4,6) [of br2 br'] by simp_all
qed

lemma recorded_root_candidate:
  assumes "br_get_port br n = Some p" "p_state p \<noteq> BR_STATE_DISABLED"
    and "bpdu_root bpdu < b_bridge_id br"
    and "\<not> (bpdu_bridge_id bpdu = b_bridge_id br \<and> bpdu_port_id bpdu = p_port_id p)"
  shows "\<exists>q\<in>set (b_port_list (br_record_config_information n bpdu br)).
    root_candidate (br_record_config_information n bpdu br) q \<and> p_designated_root q = bpdu_root bpdu"
  using assms br_get_port_SomeD [OF assms(1)]
  by (intro bexI [where x = "the (br_get_port (br_record_config_information n bpdu br) n)"])
    (auto simp: br_record_config_information_def br_get_port_upd_port root_candidate_def
      br_is_designated_port_iff upd_list_def intro!: image_eqI [where x = p])

section \<open>Properties of the receive path\<close>

text \<open>C3: A bridge that receives a configuration message naming a better root than itself adopts
  that root or an even better one. For a message that supersedes what the port has recorded, and
  that is not an echo of the bridge's own message on that port, the handler runs without a fault
  and afterwards the bridge's designated root is at most the root in the message, the bridge is
  not its own root, and its root port exists.\<close>

theorem better_root_adopted:
  assumes "stp_wf br" "br_get_port br n = Some p" "p_state p \<noteq> BR_STATE_DISABLED"
    and "br_supersedes_port_info br p bpdu" "bpdu_root bpdu < b_bridge_id br"
    and "\<not> (bpdu_bridge_id bpdu = b_bridge_id br \<and> bpdu_port_id bpdu = p_port_id p)"
  shows "runs (br_received_config_bpdu n bpdu br) (\<lambda>br'.
    b_designated_root br' \<le> bpdu_root bpdu \<and> \<not> br_is_root_bridge br'
    \<and> b_root_port br' \<in> set (port_nos br'))"
proof -
  let ?br = "br_record_config_information n bpdu br"
  have n: "n \<in> set (port_nos br)" using assms(2) br_get_port_eq_None_iff [of br n] by auto
  obtain q where q: "q \<in> set (b_port_list ?br)" "root_candidate ?br q" "p_designated_root q = bpdu_root bpdu"
    using recorded_root_candidate [OF assms(2,3,5,6)] by blast
  have d: "distinct (port_nos ?br)" "0 \<notin> set (port_nos ?br)" using assms(1) by (simp_all add: stp_wf_def)
  show ?thesis
    by (rule runs_mono [OF br_received_config_bpdu_runs [OF assms(1) n]])
      (use selected_le [OF _ d q(1,2)] assms(2,4) q(3) in
        \<open>auto simp: stp_wf_def br_is_root_bridge_iff\<close>)
qed

theorem better_root_adopted_witness:
  "runs (br_received_config_bpdu 1 example_bpdu example_bridge) (\<lambda>br'.
    b_designated_root br' \<le> bpdu_root example_bpdu \<and> \<not> br_is_root_bridge br'
    \<and> b_root_port br' \<in> set (port_nos br'))"
  by (rule better_root_adopted [OF example_wf example_get_port(1)])
    (simp_all add: example_defs example_bpdu_def br_supersedes_port_info_def less_bridge_id_def)

text \<open>C6: After a configuration message has superseded a port's information (and the kernel or
  nobody runs the protocol), roles and states agree: an enabled port is blocked exactly when it
  is neither the root port nor designated, and every enabled port records the bridge's own vector
  or a strictly better one for the same root. The invariant holds again.\<close>

theorem received_config_roles:
  assumes "stp_wf br" "br_get_port br n = Some p" "br_supersedes_port_info br p bpdu"
    and "b_stp_enabled br \<noteq> BR_USER_STP"
  shows "runs (br_received_config_bpdu n bpdu br) (\<lambda>br'. stp_wf br' \<and> roles_ok br' \<and> settled br')"
proof -
  have n: "n \<in> set (port_nos br)" using assms(2) br_get_port_eq_None_iff [of br n] by auto
  have "settled br' \<and> roles_ok br'" if "selected (br_record_config_information n bpdu br) br'" for br'
    using that assms(4) by (auto simp: selected_def intro: after_selection_keeps(2,3))
  then show ?thesis
    by (intro runs_mono [OF br_received_config_bpdu_runs [OF assms(1) n]])
      (use assms(2,3) in simp)
qed

theorem received_config_roles_witness:
  "runs (br_received_config_bpdu 1 example_bpdu example_bridge)
    (\<lambda>br'. stp_wf br' \<and> roles_ok br' \<and> settled br')"
  by (rule received_config_roles [OF example_wf example_get_port(1)])
    (simp_all add: example_defs example_bpdu_def br_supersedes_port_info_def less_bridge_id_def)

text \<open>C7: Only a well-formed message can change the bridge. If \<open>br_stp_rcv\<close> has any effect, the
  kernel runs the protocol, the bridge is up, the receiving port is enabled, the frame was sent
  to the bridge's group address, and the data is a topology change notification or a complete
  configuration message whose age does not exceed its maximum age.\<close>

theorem br_stp_rcv_effect:
  assumes "br_stp_rcv port dest data br \<noteq> Some br" "stp_wf br"
    and "\<forall>n. port = Some n \<longrightarrow> n \<in> set (port_nos br)"
  shows "b_stp_enabled br = BR_KERNEL_STP \<and> dev_up (b_dev br) \<and> dest = b_group_addr br
    \<and> (\<exists>n p. port = Some n \<and> br_get_port br n = Some p \<and> p_state p \<noteq> BR_STATE_DISABLED)
    \<and> take 3 data = [0, 0, 0]
    \<and> (length data \<ge> 35 \<and> data ! 3 = BPDU_TYPE_CONFIG
         \<and> unat (bpdu_message_age (config_bpdu_of_buf (drop 3 data)))
           \<le> unat (bpdu_max_age (config_bpdu_of_buf (drop 3 data)))
       \<or> length data \<ge> 4 \<and> data ! 3 = BPDU_TYPE_TCN)"
proof -
  have small: "unat (br_get_ticks hi lo) < 2 ^ 31" for hi lo
  proof -
    have "unat (get_unaligned_be16 hi lo) < 65536"
      using unsigned_less [of "get_unaligned_be16 hi lo"] by simp
    then show ?thesis
      using jiffies_of_bounds(2) [of "unat (get_unaligned_be16 hi lo)"]
      by (simp add: unat_br_get_ticks)
  qed
  have sint: "sint (bpdu_message_age (config_bpdu_of_buf b)) \<le> sint (bpdu_max_age (config_bpdu_of_buf b))
      \<longleftrightarrow> unat (bpdu_message_age (config_bpdu_of_buf b)) \<le> unat (bpdu_max_age (config_bpdu_of_buf b))" for b
    using small by (intro sint_le_iff) (simp_all add: config_bpdu_of_buf_def)
  obtain n where n: "port = Some n" using assms(1) by (auto simp: br_stp_rcv_def split: option.splits if_splits)
  obtain p where p: "br_get_port br n = Some p" using br_get_port_ex assms(3) n by blast
  have t3: "take 3 data = [0, 0, 0]" if "length data \<ge> 4" "data ! 0 = 0" "data ! 1 = 0" "data ! 2 = 0"
    using that by (auto intro!: nth_equalityI simp: less_Suc_eq numeral_eq_Suc)
  show ?thesis
    using assms(1) t3 sint [of "drop 3 data"]
    by (simp add: br_stp_rcv_def n p Let_def not_less not_le split: if_splits)
      (intro disjI1, linarith)
qed

theorem br_stp_rcv_effect_witness:
  "br_stp_rcv (Some 1) (Mac 1 0x80 0xc2 0 0 0) [0, 0, 0, 0x80] example_bridge \<noteq> Some example_bridge
   \<and> take 3 [0, 0, 0, 0x80 :: u8] = [0, 0, 0]"
proof -
  have "runs (br_stp_rcv (Some 1) (Mac 1 0x80 0xc2 0 0 0) [0, 0, 0, 0x80] example_bridge) b_topology_change"
    by code_simp
  then have "br_stp_rcv (Some 1) (Mac 1 0x80 0xc2 0 0 0) [0, 0, 0, 0x80] example_bridge \<noteq> Some example_bridge"
    by (auto simp: example_bridge_def)
  then show ?thesis using br_stp_rcv_effect [OF _ example_wf] by auto
qed

text \<open>C8: What one bridge sends, its neighbour understands. The LLC payload of the frame that
  \<open>br_send_bpdu\<close> builds for a configuration message leads, on an enabled port of a running bridge
  with the same group address, to \<open>br_received_config_bpdu\<close> with exactly the sender's message, its
  times rounded to ticks. The 14 + 3 header bytes dropped are what the link and LLC layers
  consume.\<close>

theorem sent_config_is_received:
  assumes "unat (bpdu_message_age b) \<le> unat (bpdu_max_age b)" "unat (bpdu_max_age b) < 256000"
    and "unat (bpdu_hello_time b) < 256000" "unat (bpdu_forward_delay b) < 256000"
    and "br_get_port br n = Some p" "p_state p \<noteq> BR_STATE_DISABLED"
    and "b_stp_enabled br = BR_KERNEL_STP" "dev_up (b_dev br)"
  shows "br_stp_rcv (Some n) (b_group_addr br)
      (drop 17 (bpdu_frame (b_group_addr br) sa (config_bpdu_buf b))) br
    = br_received_config_bpdu n
        (b\<lparr>bpdu_message_age := wire_time (bpdu_message_age b),
           bpdu_max_age := wire_time (bpdu_max_age b),
           bpdu_hello_time := wire_time (bpdu_hello_time b),
           bpdu_forward_delay := wire_time (bpdu_forward_delay b)\<rparr>) br"
proof -
  let ?f = "drop 17 (bpdu_frame (b_group_addr br) sa (config_bpdu_buf b))"
  have f: "?f = config_bpdu_buf b"
    by (simp add: bpdu_frame_def eth_header_def llc_ui_header_def)
  have hd: "config_bpdu_buf b ! 0 = 0" "config_bpdu_buf b ! 1 = 0" "config_bpdu_buf b ! 2 = 0"
    "config_bpdu_buf b ! 3 = BPDU_TYPE_CONFIG"
    by (simp_all add: config_bpdu_buf_def)
  have le: "unat (wire_time (bpdu_message_age b)) \<le> unat (wire_time (bpdu_max_age b))"
    using wire_time_mono assms(1) by blast
  have "unat (wire_time (bpdu_max_age b)) < 2 ^ 31"
    using wire_time_le [of "bpdu_max_age b"] assms(2) by simp
  then have "\<not> sint (wire_time (bpdu_message_age b)) > sint (wire_time (bpdu_max_age b))"
    using le by (simp add: not_less sint_le_iff)
  then show ?thesis
    using assms config_bpdu_roundtrip [of b] hd
    unfolding f br_stp_rcv_def by (simp add: length_config_bpdu_buf Let_def)
qed

theorem sent_config_is_received_witness:
  "br_stp_rcv (Some 1) (b_group_addr example_bridge)
      (drop 17 (bpdu_frame (b_group_addr example_bridge) (Mac 0 1 2 3 4 6) (config_bpdu_buf example_bpdu)))
      example_bridge
    = br_received_config_bpdu 1
        (example_bpdu\<lparr>bpdu_message_age := wire_time (bpdu_message_age example_bpdu),
           bpdu_max_age := wire_time (bpdu_max_age example_bpdu),
           bpdu_hello_time := wire_time (bpdu_hello_time example_bpdu),
           bpdu_forward_delay := wire_time (bpdu_forward_delay example_bpdu)\<rparr>) example_bridge"
  by (rule sent_config_is_received [OF _ _ _ _ example_get_port(1)])
    (simp_all add: example_bpdu_def example_defs)

end
