(* ===== verification/Fdb.thy ===== *)
theory Fdb
  imports Stp_States
begin

text \<open>
  The forwarding database: \<open>net/bridge/br_fdb.c\<close>. The hash table is \<open>b_hash\<close>, a list of entries
  per bucket, newest first. An entry is never moved and its address never changes, so a pointer
  to an entry is modelled by the entry's address: a store through the pointer is \<open>fdb_store\<close>.
\<close>

section \<open>Hashing\<close>

definition rol32 :: "u32 \<Rightarrow> nat \<Rightarrow> u32" where
  "rol32 w n = or (push_bit n w) (drop_bit (32 - n) w)"

definition JHASH_INITVAL :: u32 where
  "JHASH_INITVAL = 0xdeadbeef"

definition jhash_final :: "u32 \<Rightarrow> u32 \<Rightarrow> u32 \<Rightarrow> u32" where
  "jhash_final a b c =
     (let c = xor c b - rol32 b 14;
          a = xor a c - rol32 c 11;
          b = xor b a - rol32 a 25;
          c = xor c b - rol32 b 16;
          a = xor a c - rol32 c 4;
          b = xor b a - rol32 a 14;
          c = xor c b - rol32 b 24
      in c)"

definition jhash_3words :: "u32 \<Rightarrow> u32 \<Rightarrow> u32 \<Rightarrow> u32 \<Rightarrow> u32" where
  "jhash_3words a b c initval = jhash_final (a + JHASH_INITVAL) (b + JHASH_INITVAL) (c + initval)"

definition jhash_1word :: "u32 \<Rightarrow> u32 \<Rightarrow> u32" where
  "jhash_1word a initval = jhash_3words a 0 0 initval"

text \<open>\<open>BR_HASH_SIZE\<close> is 256, so the bucket number is the low byte of the hash. The key is the
  little-endian load of the last four bytes of the address.\<close>

fun br_mac_hash :: "u32 \<Rightarrow> mac_addr \<Rightarrow> u8" where
  "br_mac_hash fdb_salt (Mac a b c d e f) =
     ucast (and (jhash_1word (be32 f e d c) fdb_salt) (256 - 1))"

definition buckets :: "u8 list" where
  "buckets = map of_nat [0..<256]"

abbreviation fdb_head :: "net_bridge \<Rightarrow> mac_addr \<Rightarrow> u8" where
  "fdb_head br addr \<equiv> br_mac_hash (b_fdb_salt br) addr"

section \<open>Entries\<close>

definition fdb_find :: "net_bridge_fdb_entry list \<Rightarrow> mac_addr \<Rightarrow> net_bridge_fdb_entry option" where
  "fdb_find head addr = find (\<lambda>fdb. \<not> compare_ether_addr (f_addr fdb) addr) head"

definition fdb_find_rcu :: "net_bridge_fdb_entry list \<Rightarrow> mac_addr \<Rightarrow> net_bridge_fdb_entry option" where
  "fdb_find_rcu head addr = find (\<lambda>fdb. \<not> compare_ether_addr (f_addr fdb) addr) head"

definition fdb_lookup :: "net_bridge \<Rightarrow> mac_addr \<Rightarrow> net_bridge_fdb_entry option" where
  "fdb_lookup br addr = fdb_find (b_hash br (fdb_head br addr)) addr"

text \<open>\<open>hlist_add_head_rcu\<close> and \<open>hlist_del_rcu\<close> together with the counter the code keeps beside them,
  and a store through a pointer to an entry.\<close>

definition fdb_link :: "net_bridge_fdb_entry \<Rightarrow> net_bridge \<Rightarrow> net_bridge" where
  "fdb_link f br = br\<lparr>b_num_fdb_entries := b_num_fdb_entries br + 1,
     b_hash := (b_hash br)(fdb_head br (f_addr f) := f # b_hash br (fdb_head br (f_addr f)))\<rparr>"

definition fdb_unlink :: "mac_addr \<Rightarrow> net_bridge \<Rightarrow> net_bridge" where
  "fdb_unlink addr br = br\<lparr>b_num_fdb_entries := b_num_fdb_entries br - 1,
     b_hash := (b_hash br)(fdb_head br addr :=
       filter (\<lambda>g. f_addr g \<noteq> addr) (b_hash br (fdb_head br addr)))\<rparr>"

definition fdb_store ::
  "mac_addr \<Rightarrow> (net_bridge_fdb_entry \<Rightarrow> net_bridge_fdb_entry) \<Rightarrow> net_bridge \<Rightarrow> net_bridge" where
  "fdb_store addr g br = br\<lparr>b_hash := (b_hash br)(fdb_head br addr :=
     map (\<lambda>f. if f_addr f = addr then g f else f) (b_hash br (fdb_head br addr)))\<rparr>"

definition hold_time :: "net_bridge \<Rightarrow> u32" where
  "hold_time br = (if b_topology_change br then 15 * HZ else b_ageing_time br)"

definition BLOG_KEY_NONE :: u32 where
  "BLOG_KEY_NONE = 0"

text \<open>\<open>blog_query (QUERY_BRIDGEFDB, fdb, ...)\<close> may answer with \<open>BRIDGEFDB_TIME_SET\<close>.\<close>

definition blog_refresh :: "br_env \<Rightarrow> net_bridge_fdb_entry \<Rightarrow> net_bridge_fdb_entry" where
  "blog_refresh env f =
     (if f_fdb_key f \<noteq> BLOG_KEY_NONE
      then case env_blog_query env f of None \<Rightarrow> f | Some t \<Rightarrow> f\<lparr>f_updated := t\<rparr>
      else f)"

text \<open>The decision of \<open>has_expired\<close>, on an entry that has already been refreshed by the query.\<close>

definition expired :: "net_bridge \<Rightarrow> net_bridge_fdb_entry \<Rightarrow> bool" where
  "expired br f \<longleftrightarrow> \<not> f_is_static f \<and> time_before_eq (f_updated f + hold_time br) (b_jiffies br)"

definition has_expired :: "br_env \<Rightarrow> net_bridge_fdb_entry \<Rightarrow> net_bridge \<Rightarrow> bool \<times> net_bridge" where
  "has_expired env f br =
     (let f = blog_refresh env f
      in (expired br f, fdb_store (f_addr f) (\<lambda>_. f) br))"

section \<open>Notifications\<close>

definition NUD_REACHABLE :: u16 where "NUD_REACHABLE = 0x02"
definition NUD_STALE :: u16 where "NUD_STALE = 0x04"
definition NUD_NOARP :: u16 where "NUD_NOARP = 0x40"
definition NUD_PERMANENT :: u16 where "NUD_PERMANENT = 0x80"

text \<open>\<open>fdb_to_nud\<close> reads \<open>fdb->dst->br\<close> for an entry that is neither local nor static.\<close>

definition fdb_to_nud ::
  "br_env \<Rightarrow> net_bridge_fdb_entry \<Rightarrow> net_bridge \<Rightarrow> (u16 \<times> net_bridge_fdb_entry) option" where
  "fdb_to_nud env f br =
     (if f_is_local f then Some (NUD_PERMANENT, f)
      else if f_is_static f then Some (NUD_NOARP, f)
      else do {
        dst \<leftarrow> f_dst f;
        _ \<leftarrow> br_get_port br dst;
        let f = blog_refresh env f;
        Some (if expired br f then NUD_STALE else NUD_REACHABLE, f)
      })"

text \<open>The fields of the message that \<open>fdb_fill_info\<close> builds, and the entry after its queries.\<close>

definition fdb_fill_info ::
  "br_env \<Rightarrow> net_bridge_fdb_entry \<Rightarrow> net_bridge \<Rightarrow> ((nat \<times> u16) \<times> net_bridge_fdb_entry) option" where
  "fdb_fill_info env f br = do {
     ifindex \<leftarrow> (case f_dst f of
         None \<Rightarrow> Some (dev_ifindex (b_dev br))
       | Some dst \<Rightarrow> do { p \<leftarrow> br_get_port br dst; Some (dev_ifindex (p_dev p)) });
     (nud, f) \<leftarrow> fdb_to_nud env f br;
     Some ((ifindex, nud), blog_refresh env f)
   }"

text \<open>\<open>fdb_notify\<close> of an entry that is in the table; the message is taken to be delivered.\<close>

definition fdb_notify_new ::
  "br_env \<Rightarrow> net_bridge_fdb_entry \<Rightarrow> net_bridge \<Rightarrow> net_bridge option" where
  "fdb_notify_new env f br = do {
     ((ifindex, nud), f) \<leftarrow> fdb_fill_info env f br;
     Some (emit (Fdb_notify_new (f_addr f) ifindex nud) (fdb_store (f_addr f) (\<lambda>_. f) br))
   }"

definition fdb_delete :: "br_env \<Rightarrow> net_bridge_fdb_entry \<Rightarrow> net_bridge \<Rightarrow> net_bridge option" where
  "fdb_delete env f br = do {
     let br = fdb_unlink (f_addr f) br;
     ((ifindex, nud), f) \<leftarrow> fdb_fill_info env f br;
     let br = emit (Fdb_notify_del (f_addr f) ifindex nud) br;
     Some (if f_fdb_key f \<noteq> BLOG_KEY_NONE then emit (Blog_notify_destroy (f_addr f)) br else br)
   }"

section \<open>Looking up and creating\<close>

definition br_fdb_get ::
  "br_env \<Rightarrow> mac_addr \<Rightarrow> net_bridge \<Rightarrow> net_bridge_fdb_entry option \<times> net_bridge" where
  "br_fdb_get env addr br =
     (case fdb_lookup br addr of
        None \<Rightarrow> (None, br)
      | Some fdb \<Rightarrow>
          let (e, br) = has_expired env fdb br
          in (if e then None else Some (blog_refresh env fdb), br))"

definition BR_MAX_FDB_ENTRIES :: int where
  "BR_MAX_FDB_ENTRIES = 4096"

definition fdb_create ::
  "br_env \<Rightarrow> u16 option \<Rightarrow> mac_addr \<Rightarrow> bool \<Rightarrow> bool \<Rightarrow> net_bridge
    \<Rightarrow> net_bridge_fdb_entry option \<times> net_bridge" where
  "fdb_create env source addr is_local is_static br =
     (if b_num_fdb_entries br \<ge> BR_MAX_FDB_ENTRIES then (None, br)
      else if hold_time br = 0 \<and> \<not> is_static then (None, br)
      else if \<not> env_alloc env then (None, br)
      else
        let fdb = \<lparr>f_dst = source, f_updated = b_jiffies br, f_used = b_jiffies br,
                   f_addr = addr, f_is_local = is_local, f_is_static = is_static,
                   f_fdb_key = BLOG_KEY_NONE\<rparr>
        in (Some fdb, fdb_link fdb br))"

definition fdb_adddel_static ::
  "br_env \<Rightarrow> u16 \<Rightarrow> mac_addr \<Rightarrow> bool \<Rightarrow> net_bridge \<Rightarrow> (result \<times> net_bridge) option" where
  "fdb_adddel_static env source addr addEntry br =
     (if \<not> is_valid_ether_addr addr then Some (Some EINVAL, br)
      else do {
        let fdb = fdb_lookup br addr;
        if (case fdb of None \<Rightarrow> False | Some f \<Rightarrow> addEntry \<and> f_is_static f) then Some (None, br)
        else do {
          br \<leftarrow> (case fdb of None \<Rightarrow> Some br | Some f \<Rightarrow> fdb_delete env f br);
          if addEntry then
            let (fdb, br) = fdb_create env (Some source) addr False True br
            in Some (if fdb = None then Some ENOMEM else None, br)
          else Some (None, br)
        }
      })"

definition fdb_insert ::
  "br_env \<Rightarrow> u16 option \<Rightarrow> mac_addr \<Rightarrow> net_bridge \<Rightarrow> (result \<times> net_bridge) option" where
  "fdb_insert env source addr br =
     (if \<not> is_valid_ether_addr addr then Some (Some EINVAL, br)
      else do {
        let fdb = fdb_lookup br addr;
        if (case fdb of None \<Rightarrow> False | Some f \<Rightarrow> f_is_local f) then Some (None, br)
        else do {
          br \<leftarrow> (case fdb of None \<Rightarrow> Some br
            | Some f \<Rightarrow> do {
                n \<leftarrow> source;
                _ \<leftarrow> br_get_port br n;
                fdb_delete env f br
              });
          let (fdb, br) = fdb_create env source addr True True br;
          case fdb of
            None \<Rightarrow> Some (Some ENOMEM, br)
          | Some f \<Rightarrow> do { br \<leftarrow> fdb_notify_new env f br; Some (None, br) }
        }
      })"

definition br_fdb_insert ::
  "br_env \<Rightarrow> u16 option \<Rightarrow> mac_addr \<Rightarrow> net_bridge \<Rightarrow> (result \<times> net_bridge) option" where
  "br_fdb_insert env source addr br = fdb_insert env source addr br"

definition br_fdb_adddel_static ::
  "br_env \<Rightarrow> u16 \<Rightarrow> mac_addr \<Rightarrow> bool \<Rightarrow> net_bridge \<Rightarrow> (result \<times> net_bridge) option" where
  "br_fdb_adddel_static env source addr bInsert br = fdb_adddel_static env source addr bInsert br"

definition br_fdb_refresh :: "mac_addr \<Rightarrow> net_bridge \<Rightarrow> net_bridge" where
  "br_fdb_refresh addr br = fdb_store addr (\<lambda>f. f\<lparr>f_updated := b_jiffies br\<rparr>) br"

section \<open>Learning\<close>

text \<open>The branch of \<open>br_fdb_update\<close> for a frame that carries a local address as its source.\<close>

definition fdb_local_source :: "br_env \<Rightarrow> u16 \<Rightarrow> net_bridge \<Rightarrow> net_bridge option" where
  "fdb_local_source env source br =
     (if env_ratelimit env then Some br
      else if b_stp_enabled br \<noteq> BR_NO_STP then do {
        p \<leftarrow> br_get_port br source;
        if p_state p \<noteq> BR_STATE_DISABLED \<and> p_state p \<noteq> BR_STATE_BLOCKING
        then br_loopback_detected source br else Some br
      }
      else Some br)"

definition fdb_moved :: "br_env \<Rightarrow> net_bridge_fdb_entry \<Rightarrow> net_bridge \<Rightarrow> net_bridge" where
  "fdb_moved env fdb br =
     (let br = (if env_clear_arl env then emit (Ethsw_clear_arl (f_addr fdb)) br else br)
      in if f_fdb_key fdb \<noteq> BLOG_KEY_NONE then emit (Blog_notify_destroy (f_addr fdb)) br else br)"

definition br_fdb_update :: "br_env \<Rightarrow> u16 \<Rightarrow> mac_addr \<Rightarrow> net_bridge \<Rightarrow> net_bridge option" where
  "br_fdb_update env source addr br =
     (if hold_time br = 0 then Some br
      else do {
        src \<leftarrow> br_get_port br source;
        if \<not> (p_state src = BR_STATE_LEARNING \<or> p_state src = BR_STATE_FORWARDING) then Some br
        else case fdb_find_rcu (b_hash br (fdb_head br addr)) addr of
          Some fdb \<Rightarrow>
            if f_is_local fdb then fdb_local_source env source br
            else do {
              br \<leftarrow> (case f_dst fdb of None \<Rightarrow> Some br
                | Some dst \<Rightarrow> do {
                    d \<leftarrow> br_get_port br dst;
                    Some (if p_port_no d \<noteq> p_port_no src then fdb_moved env fdb br else br)
                  });
              Some (fdb_store addr (\<lambda>f. f\<lparr>f_dst := Some source, f_updated := b_jiffies br\<rparr>) br)
            }
        | None \<Rightarrow>
            if fdb_lookup br addr = None then
              let (fdb, br) = fdb_create env (Some source) addr False False br
              in case fdb of None \<Rightarrow> Some br | Some f \<Rightarrow> fdb_notify_new env f br
            else Some br
      })"

section \<open>Removing entries\<close>

definition all_entries :: "net_bridge \<Rightarrow> net_bridge_fdb_entry list" where
  "all_entries br = concat (map (b_hash br) buckets)"

text \<open>\<open>hlist_for_each_entry_safe\<close> over every bucket: the bodies touch the current entry only, so the
  loop runs over the entries present at its start.\<close>

definition fdb_for_each ::
  "(net_bridge_fdb_entry \<Rightarrow> 's \<Rightarrow> 's option) \<Rightarrow> net_bridge \<Rightarrow> 's \<Rightarrow> 's option" where
  "fdb_for_each body br s = for_each body (all_entries br) s"

definition other_port_with ::
  "u16 \<Rightarrow> mac_addr \<Rightarrow> net_bridge \<Rightarrow> net_bridge_port option" where
  "other_port_with n addr br =
     find (\<lambda>op. p_port_no op \<noteq> n \<and> \<not> compare_ether_addr (dev_addr (p_dev op)) addr) (b_port_list br)"

definition br_fdb_changeaddr :: "br_env \<Rightarrow> u16 \<Rightarrow> mac_addr \<Rightarrow> net_bridge \<Rightarrow> net_bridge option" where
  "br_fdb_changeaddr env n newaddr br = do {
     br \<leftarrow> (case find (\<lambda>f. f_dst f = Some n \<and> f_is_local f) (all_entries br) of
         None \<Rightarrow> Some br
       | Some f \<Rightarrow>
           (case other_port_with n (f_addr f) br of
              Some op \<Rightarrow> Some (fdb_store (f_addr f) (\<lambda>f. f\<lparr>f_dst := Some (p_port_no op)\<rparr>) br)
            | None \<Rightarrow> fdb_delete env f br));
     (_, br) \<leftarrow> fdb_insert env (Some n) newaddr br;
     Some br
   }"

definition br_fdb_change_mac_address ::
  "br_env \<Rightarrow> mac_addr \<Rightarrow> net_bridge \<Rightarrow> net_bridge option" where
  "br_fdb_change_mac_address env newaddr br = do {
     let (f, br) = br_fdb_get env (dev_addr (b_dev br)) br;
     br \<leftarrow> (case f of None \<Rightarrow> Some br
       | Some f \<Rightarrow> if f_is_local f \<and> f_dst f = None then fdb_delete env f br else Some br);
     (_, br) \<leftarrow> fdb_insert env None newaddr br;
     Some br
   }"

text \<open>Whether a wireless driver still knows the station.\<close>

definition wl_alive :: "br_env \<Rightarrow> mac_addr \<Rightarrow> bool" where
  "wl_alive env addr \<longleftrightarrow>
     (case env_wl_hook env of None \<Rightarrow> False | Some hook \<Rightarrow> hook addr = 0)
     \<or> (case env_dhd_hook env of None \<Rightarrow> False | Some hook \<Rightarrow> hook addr = 0)"

definition cleanup_entry ::
  "br_env \<Rightarrow> u32 \<Rightarrow> net_bridge_fdb_entry \<Rightarrow> net_bridge \<times> u32 \<Rightarrow> (net_bridge \<times> u32) option" where
  "cleanup_entry env delay f = (\<lambda>(br, next_timer).
     if f_is_static f then Some (br, next_timer)
     else do {
       let f = blog_refresh env f;
       let br = fdb_store (f_addr f) (\<lambda>_. f) br;
       let this_timer = f_updated f + delay;
       if time_before_eq this_timer (b_jiffies br) then
         (if wl_alive env (f_addr f)
          then Some (fdb_store (f_addr f) (\<lambda>f. f\<lparr>f_updated := b_jiffies br\<rparr>) br, next_timer)
          else do { br \<leftarrow> fdb_delete env f br; Some (br, next_timer) })
       else Some (br, if time_before this_timer next_timer then this_timer else next_timer)
     })"

definition br_fdb_cleanup :: "br_env \<Rightarrow> net_bridge \<Rightarrow> net_bridge option" where
  "br_fdb_cleanup env br = do {
     let delay = hold_time br;
     (br, next_timer) \<leftarrow> fdb_for_each (cleanup_entry env delay) br (br, b_jiffies br + b_ageing_time br);
     Some (br\<lparr>b_gc_timer := mod_timer (b_gc_timer br)
                (round_jiffies_up (b_cpu br) (b_jiffies br) next_timer)\<rparr>)
   }"

definition br_fdb_flush :: "br_env \<Rightarrow> net_bridge \<Rightarrow> net_bridge option" where
  "br_fdb_flush env br =
     fdb_for_each (\<lambda>f br. if \<not> f_is_static f then fdb_delete env f br else Some br) br br"

text \<open>\<open>do_all\<close>: 0 only dynamic entries, 1 all entries, 2 only static entries.\<close>

definition delete_by_port_entry ::
  "br_env \<Rightarrow> u16 \<Rightarrow> nat \<Rightarrow> net_bridge_fdb_entry \<Rightarrow> net_bridge \<Rightarrow> net_bridge option" where
  "delete_by_port_entry env n do_all f br =
     (if f_dst f \<noteq> Some n then Some br
      else if f_is_static f \<and> do_all = 0 then Some br
      else if \<not> f_is_static f \<and> do_all = 2 then Some br
      else case (if f_is_local f then other_port_with n (f_addr f) br else None) of
        Some op \<Rightarrow> Some (fdb_store (f_addr f) (\<lambda>f. f\<lparr>f_dst := Some (p_port_no op)\<rparr>) br)
      | None \<Rightarrow> fdb_delete env f br)"

definition br_fdb_delete_by_port :: "br_env \<Rightarrow> u16 \<Rightarrow> nat \<Rightarrow> net_bridge \<Rightarrow> net_bridge option" where
  "br_fdb_delete_by_port env n do_all br = fdb_for_each (delete_by_port_entry env n do_all) br br"

end
