(* ===== verification/Fdb_Table.thy ===== *)
theory Fdb_Table
  imports Fdb
begin

text \<open>
  The hash table of \<open>br_fdb.c\<close> as a finite map. The locale \<open>mac_table\<close> is the interface between
  the table and the routines that use it: a lookup, the three ways the code changes the table
  (link an entry, unlink one, store through a pointer to one) and a size. The rest of
  \<open>br_fdb.c\<close> is verified against that interface; the interpretation at the end of the second
  section discharges its laws for the chained hash table and its counter.
\<close>

section \<open>The interface\<close>

locale mac_table =
  fixes table_inv :: "'t \<Rightarrow> bool"
    and lookup :: "'t \<Rightarrow> mac_addr \<Rightarrow> net_bridge_fdb_entry option"
    and link :: "net_bridge_fdb_entry \<Rightarrow> 't \<Rightarrow> 't"
    and unlink :: "mac_addr \<Rightarrow> 't \<Rightarrow> 't"
    and store :: "mac_addr \<Rightarrow> (net_bridge_fdb_entry \<Rightarrow> net_bridge_fdb_entry) \<Rightarrow> 't \<Rightarrow> 't"
    and entries :: "'t \<Rightarrow> net_bridge_fdb_entry list"
    and count :: "'t \<Rightarrow> int"
  assumes lookup_addr: "table_inv t \<Longrightarrow> lookup t a = Some f \<Longrightarrow> f_addr f = a"
    and link: "table_inv t \<Longrightarrow> lookup t (f_addr f) = None \<Longrightarrow>
      table_inv (link f t) \<and> lookup (link f t) = (lookup t)(f_addr f \<mapsto> f)
      \<and> count (link f t) = count t + 1"
    and unlink: "table_inv t \<Longrightarrow> lookup t a \<noteq> None \<Longrightarrow>
      table_inv (unlink a t) \<and> lookup (unlink a t) = (lookup t)(a := None)
      \<and> count (unlink a t) = count t - 1"
    and store: "table_inv t \<Longrightarrow> (\<And>f. lookup t a = Some f \<Longrightarrow> f_addr (g f) = a) \<Longrightarrow>
      table_inv (store a g t) \<and> lookup (store a g t) = (lookup t)(a := map_option g (lookup t a))
      \<and> count (store a g t) = count t"
    and entries: "table_inv t \<Longrightarrow> set (entries t) = ran (lookup t) \<and> distinct (map f_addr (entries t))
      \<and> count t = int (length (entries t))"
begin

lemma count_card: "table_inv t \<Longrightarrow> count t = int (card (dom (lookup t)))"
proof -
  assume i: "table_inv t"
  have "dom (lookup t) = f_addr ` set (entries t)"
    using entries [OF i] lookup_addr [OF i] by (fastforce simp: ran_def dom_def)
  then have "card (dom (lookup t)) = length (entries t)"
    using entries [OF i] by (metis distinct_card length_map set_map)
  then show ?thesis using entries [OF i] by simp
qed

text \<open>A loop over all entries in which the iteration for \<open>f\<close> replaces \<open>f\<close> by \<open>act f\<close> (None: removes
  it) turns the map into the one with every entry replaced. \<open>T\<close> is the table within the loop's
  state and \<open>J\<close> what the iterations additionally rely on and keep.\<close>

lemma sweep_list:
  assumes "table_inv (T s)" "J s" "distinct (map f_addr fs)"
    and "\<And>f. f \<in> set fs \<Longrightarrow> lookup (T s) (f_addr f) = Some f"
    and step: "\<And>f s. f \<in> set fs \<Longrightarrow> table_inv (T s) \<Longrightarrow> J s \<Longrightarrow> lookup (T s) (f_addr f) = Some f \<Longrightarrow>
      runs (body f s) (\<lambda>s'. table_inv (T s') \<and> J s' \<and> lookup (T s') = (lookup (T s))(f_addr f := act f))"
  shows "runs (for_each body fs s) (\<lambda>s'. table_inv (T s') \<and> J s' \<and>
    lookup (T s') = (\<lambda>a. case lookup (T s) a of None \<Rightarrow> None | Some f \<Rightarrow> if f \<in> set fs then act f else Some f))"
  using assms(1-4) step
proof (induction fs arbitrary: s)
  case Nil
  then show ?case by (simp add: option.case_eq_if fun_eq_iff)
next
  case (Cons f fs)
  have 1: "runs (body f s) (\<lambda>s'. table_inv (T s') \<and> J s' \<and> lookup (T s') = (lookup (T s))(f_addr f := act f))"
    by (rule Cons.prems(5)) (use Cons.prems(1-4) in simp_all)
  have f: "lookup (T s) (f_addr f) = Some f" "f \<notin> set fs" using Cons.prems by auto
  have "runs (for_each body fs s') (\<lambda>s'. table_inv (T s') \<and> J s' \<and> lookup (T s') = (\<lambda>a. case lookup (T s) a of
      None \<Rightarrow> None | Some g \<Rightarrow> if g \<in> set (f # fs) then act g else Some g))"
    if s': "table_inv (T s')" "J s'" "lookup (T s') = (lookup (T s))(f_addr f := act f)" for s'
  proof -
    have d: "distinct (map f_addr fs)" "f_addr f \<notin> f_addr ` set fs" using Cons.prems(3) by simp_all
    have l: "lookup (T s') (f_addr g) = Some g" if "g \<in> set fs" for g
    proof -
      have "f_addr g \<noteq> f_addr f" using that d(2) by (metis image_eqI)
      then show ?thesis using that Cons.prems(4) [of g] by (simp add: s'(3))
    qed
    have ih: "runs (for_each body fs s') (\<lambda>s''. table_inv (T s'') \<and> J s'' \<and> lookup (T s'') =
        (\<lambda>a. case lookup (T s') a of None \<Rightarrow> None | Some g \<Rightarrow> if g \<in> set fs then act g else Some g))"
      by (rule Cons.IH [OF s'(1,2) d(1) l], assumption, rule Cons.prems(5)) simp_all
    have notin: "g \<notin> set fs" if "act f = Some g" for g
    proof -
      have "lookup (T s') (f_addr f) = Some g" using that by (simp add: s'(3))
      then have "f_addr g = f_addr f" by (rule lookup_addr [OF s'(1)])
      then show ?thesis using d(2) by (metis image_eqI)
    qed
    have neq: "g \<noteq> f" if "lookup (T s) a = Some g" "a \<noteq> f_addr f" for a g
      using lookup_addr [OF Cons.prems(1) that(1)] that(2) by auto
    have eq: "(\<lambda>a. case lookup (T s') a of None \<Rightarrow> None | Some g \<Rightarrow> if g \<in> set fs then act g else Some g)
        = (\<lambda>a. case lookup (T s) a of None \<Rightarrow> None | Some g \<Rightarrow> if g \<in> set (f # fs) then act g else Some g)"
      using f notin neq by (auto simp: fun_eq_iff s'(3) split: option.split)
    show ?thesis using ih unfolding eq .
  qed
  with 1 show ?case unfolding for_each.simps runs_bind by (elim runs_mono) blast
qed

lemma sweep:
  assumes "table_inv (T s)" "J s"
    and "\<And>f s. table_inv (T s) \<Longrightarrow> J s \<Longrightarrow> lookup (T s) (f_addr f) = Some f \<Longrightarrow>
      runs (body f s) (\<lambda>s'. table_inv (T s') \<and> J s' \<and> lookup (T s') = (lookup (T s))(f_addr f := act f))"
  shows "runs (for_each body (entries (T s)) s) (\<lambda>s'. table_inv (T s') \<and> J s' \<and>
    lookup (T s') = (\<lambda>a. Option.bind (lookup (T s) a) act))"
proof -
  have mem: "f \<in> set (entries (T s)) \<longleftrightarrow> lookup (T s) (f_addr f) = Some f" for f
    using entries [OF assms(1)] lookup_addr [OF assms(1)] by (auto simp: ran_def)
  have eq: "(\<lambda>a. case lookup (T s) a of None \<Rightarrow> None
      | Some f \<Rightarrow> if f \<in> set (entries (T s)) then act f else Some f) = (\<lambda>a. Option.bind (lookup (T s) a) act)"
    using mem lookup_addr [OF assms(1)] by (auto simp: fun_eq_iff split: option.split)
  show ?thesis
    using sweep_list [of T s J "entries (T s)" body act] assms mem entries [OF assms(1)]
    unfolding eq by auto
qed

end

section \<open>The chained hash table\<close>

text \<open>Every entry is in the bucket its address hashes to, no address occurs twice, and the counter
  is the number of entries.\<close>

definition fdb_table :: "net_bridge \<Rightarrow> bool" where
  "fdb_table br \<longleftrightarrow>
     (\<forall>h. \<forall>f\<in>set (b_hash br h). fdb_head br (f_addr f) = h)
     \<and> (\<forall>h. distinct (map f_addr (b_hash br h)))
     \<and> b_num_fdb_entries br = int (length (all_entries br))"

lemma set_buckets: "set buckets = UNIV"
proof -
  have "h \<in> of_nat ` {0..<256}" for h :: u8
    using unsigned_less [of h] by (intro image_eqI [of _ _ "unat h"]) simp_all
  then show ?thesis by (auto simp: buckets_def)
qed

lemma distinct_buckets: "distinct buckets"
  unfolding buckets_def distinct_map
  by (auto intro!: inj_onI simp: word_unat_eq_iff unat_of_nat take_bit_nat_eq_self)

lemma length_all_entries: "length (all_entries br) = (\<Sum>h\<in>UNIV. length (b_hash br h))"
  by (simp add: all_entries_def length_concat comp_def sum_list_distinct_conv_sum_set
      distinct_buckets set_buckets)

lemma length_all_entries_upd:
  "length (all_entries (br\<lparr>b_hash := (b_hash br)(h := l)\<rparr>)) + length (b_hash br h)
     = length (all_entries br) + length l"
proof -
  have "(\<Sum>k\<in>UNIV. length (((b_hash br)(h := l)) k)) = (\<Sum>k\<in>UNIV - {h}. length (b_hash br k)) + length l"
    by (simp add: sum.remove [of UNIV h])
  moreover have "(\<Sum>k\<in>UNIV. length (b_hash br k)) = (\<Sum>k\<in>UNIV - {h}. length (b_hash br k)) + length (b_hash br h)"
    by (simp add: sum.remove [of UNIV h])
  ultimately show ?thesis by (simp add: length_all_entries)
qed

lemma fdb_find_eq: "fdb_find l a = find (\<lambda>f. f_addr f = a) l"
  by (simp add: fdb_find_def)

lemma find_Some_iff_distinct:
  "distinct (map g l) \<Longrightarrow> find (\<lambda>x. g x = a) l = Some x \<longleftrightarrow> x \<in> set l \<and> g x = a"
  by (induction l) (auto simp: image_iff)

lemma fdb_lookup_iff:
  assumes "fdb_table br"
  shows "fdb_lookup br a = Some f \<longleftrightarrow> f \<in> set (b_hash br (fdb_head br a)) \<and> f_addr f = a"
  using assms by (simp add: fdb_lookup_def fdb_find_eq fdb_table_def find_Some_iff_distinct)

lemma all_entries_cong: "b_hash br' = b_hash br \<Longrightarrow> all_entries br' = all_entries br"
  by (simp add: all_entries_def)

lemma fdb_lookup_cong:
  "b_hash br' = b_hash br \<Longrightarrow> b_fdb_salt br' = b_fdb_salt br \<Longrightarrow> fdb_lookup br' = fdb_lookup br"
  by (simp add: fun_eq_iff fdb_lookup_def)

lemma fdb_table_cong:
  "b_hash br' = b_hash br \<Longrightarrow> b_fdb_salt br' = b_fdb_salt br \<Longrightarrow>
   b_num_fdb_entries br' = b_num_fdb_entries br \<Longrightarrow> fdb_table br' = fdb_table br"
  using all_entries_cong [of br' br] by (simp add: fdb_table_def)

lemma fdb_lookup_addr: "fdb_lookup br a = Some f \<Longrightarrow> f_addr f = a"
  unfolding fdb_lookup_def fdb_find_eq by (drule find_eq_Some_D) simp

lemma fdb_lookup_None_iff: "fdb_lookup br a = None \<longleftrightarrow> a \<notin> f_addr ` set (b_hash br (fdb_head br a))"
  by (auto simp: fdb_lookup_def fdb_find_eq find_None_iff)

lemma fdb_all_entries:
  assumes "fdb_table br"
  shows "set (all_entries br) = ran (fdb_lookup br)" "distinct (map f_addr (all_entries br))"
proof -
  have mem: "f \<in> set (all_entries br) \<longleftrightarrow> (\<exists>h. f \<in> set (b_hash br h))" for f
    by (auto simp: all_entries_def set_buckets)
  show "set (all_entries br) = ran (fdb_lookup br)"
    using assms by (auto simp: mem ran_def fdb_lookup_iff) (auto simp: fdb_table_def)
  have same: "h = k" if "f \<in> set (b_hash br h)" "g \<in> set (b_hash br k)" "f_addr f = f_addr g" for f g h k
    using assms that unfolding fdb_table_def by metis
  have "distinct (map f_addr (concat (map (b_hash br) hs)))" if "distinct hs" for hs
    using that
  proof (induction hs)
    case (Cons h hs)
    have "f_addr ` set (b_hash br h) \<inter> f_addr ` set (concat (map (b_hash br) hs)) = {}"
    proof (rule ccontr)
      assume "\<not> ?thesis"
      then obtain f g k where "f \<in> set (b_hash br h)" "k \<in> set hs" "g \<in> set (b_hash br k)" "f_addr f = f_addr g"
        by auto
      with same [of f h g k] Cons.prems show False by simp
    qed
    with Cons assms show ?case by (simp add: fdb_table_def)
  qed simp
  then show "distinct (map f_addr (all_entries br))"
    by (simp add: all_entries_def distinct_buckets)
qed

lemma fdb_link_table:
  assumes "fdb_table br" "fdb_lookup br (f_addr f) = None"
  shows "fdb_table (fdb_link f br)" "fdb_lookup (fdb_link f br) = (fdb_lookup br)(f_addr f \<mapsto> f)"
    "b_num_fdb_entries (fdb_link f br) = b_num_fdb_entries br + 1"
proof -
  let ?h = "fdb_head br (f_addr f)"
  have "all_entries (fdb_link f br) = all_entries (br\<lparr>b_hash := (b_hash br)(?h := f # b_hash br ?h)\<rparr>)"
    by (rule all_entries_cong) (simp add: fdb_link_def)
  then have "length (all_entries (fdb_link f br)) = Suc (length (all_entries br))"
    using length_all_entries_upd [of br ?h "f # b_hash br ?h"] by simp
  then show "fdb_table (fdb_link f br)"
    using assms by (auto simp: fdb_table_def fdb_link_def fdb_lookup_None_iff)
  show "fdb_lookup (fdb_link f br) = (fdb_lookup br)(f_addr f \<mapsto> f)"
    by (auto simp: fun_eq_iff fdb_lookup_def fdb_find_eq fdb_link_def)
qed (simp add: fdb_link_def)

lemma find_filter_other:
  "find (\<lambda>x. g x = b) (filter (\<lambda>x. g x \<noteq> a) l) = (if b = a then None else find (\<lambda>x. g x = b) l)"
  by (induction l) auto

lemma length_filter_one:
  assumes "distinct (map g l)" "a \<in> g ` set l"
  shows "Suc (length (filter (\<lambda>x. g x \<noteq> a) l)) = length l"
  using assms
proof (induction l)
  case (Cons x l)
  show ?case
  proof (cases "g x = a")
    case True
    then have "filter (\<lambda>x. g x \<noteq> a) l = l" using Cons.prems by (auto simp: filter_id_conv image_iff)
    with True show ?thesis by simp
  qed (use Cons in auto)
qed simp

lemma fdb_unlink_table:
  assumes "fdb_table br" "fdb_lookup br a \<noteq> None"
  shows "fdb_table (fdb_unlink a br)" "fdb_lookup (fdb_unlink a br) = (fdb_lookup br)(a := None)"
    "b_num_fdb_entries (fdb_unlink a br) = b_num_fdb_entries br - 1"
proof -
  let ?h = "fdb_head br a"
  let ?l = "filter (\<lambda>g. f_addr g \<noteq> a) (b_hash br ?h)"
  have "all_entries (fdb_unlink a br) = all_entries (br\<lparr>b_hash := (b_hash br)(?h := ?l)\<rparr>)"
    by (rule all_entries_cong) (simp add: fdb_unlink_def)
  moreover have "Suc (length ?l) = length (b_hash br ?h)"
    using assms by (intro length_filter_one) (auto simp: fdb_table_def fdb_lookup_None_iff)
  ultimately have "Suc (length (all_entries (fdb_unlink a br))) = length (all_entries br)"
    using length_all_entries_upd [of br ?h ?l] by simp
  then have "int (length (all_entries (fdb_unlink a br))) = int (length (all_entries br)) - 1" by simp
  then show "fdb_table (fdb_unlink a br)"
    using assms(1) by (auto simp: fdb_table_def fdb_unlink_def distinct_map_filter)
  show "fdb_lookup (fdb_unlink a br) = (fdb_lookup br)(a := None)"
    by (auto simp: fun_eq_iff fdb_lookup_def fdb_find_eq fdb_unlink_def find_filter_other)
qed (simp add: fdb_unlink_def)

lemma find_map_entry:
  assumes "\<And>x. x \<in> set l \<Longrightarrow> k x = a \<Longrightarrow> k (g x) = a"
  shows "find (\<lambda>x. k x = b) (map (\<lambda>x. if k x = a then g x else x) l)
    = (if b = a then map_option g (find (\<lambda>x. k x = b) l) else find (\<lambda>x. k x = b) l)"
  using assms by (induction l) auto

lemma fdb_store_table:
  assumes "fdb_table br" "\<And>f. fdb_lookup br a = Some f \<Longrightarrow> f_addr (g f) = a"
  shows "fdb_table (fdb_store a g br)"
    "fdb_lookup (fdb_store a g br) = (fdb_lookup br)(a := map_option g (fdb_lookup br a))"
    "b_num_fdb_entries (fdb_store a g br) = b_num_fdb_entries br"
proof -
  let ?h = "fdb_head br a"
  let ?l = "map (\<lambda>f. if f_addr f = a then g f else f) (b_hash br ?h)"
  have g: "f_addr (g f) = a" if "f \<in> set (b_hash br ?h)" "f_addr f = a" for f
    using assms that by (auto simp: fdb_lookup_iff)
  have m: "map f_addr ?l = map f_addr (b_hash br ?h)" using g by auto
  have "all_entries (fdb_store a g br) = all_entries (br\<lparr>b_hash := (b_hash br)(?h := ?l)\<rparr>)"
    by (rule all_entries_cong) (simp add: fdb_store_def)
  then have "length (all_entries (fdb_store a g br)) = length (all_entries br)"
    using length_all_entries_upd [of br ?h ?l] by simp
  moreover have "distinct (map f_addr ?l)" using assms(1) unfolding m by (simp add: fdb_table_def)
  moreover have "fdb_head br (f_addr f) = ?h" if "f \<in> set ?l" for f
  proof -
    have "f_addr f \<in> set (map f_addr ?l)" using that unfolding set_map [of f_addr] by (rule imageI)
    then show ?thesis using assms(1) unfolding m by (auto simp: fdb_table_def)
  qed
  ultimately show "fdb_table (fdb_store a g br)"
    using assms(1) by (simp add: fdb_table_def fdb_store_def)
  have "fdb_lookup (fdb_store a g br) b = ((fdb_lookup br)(a := map_option g (fdb_lookup br a))) b" for b
  proof (cases "fdb_head br b = ?h")
    case True
    then show ?thesis
      using find_map_entry [of "b_hash br ?h" f_addr a g b] g
      by (auto simp: fdb_lookup_def fdb_find_eq fdb_store_def)
  qed (auto simp: fdb_lookup_def fdb_store_def)
  then show "fdb_lookup (fdb_store a g br) = (fdb_lookup br)(a := map_option g (fdb_lookup br a))"
    by (rule ext)
qed (simp add: fdb_store_def)

interpretation fdb: mac_table fdb_table fdb_lookup fdb_link fdb_unlink fdb_store all_entries b_num_fdb_entries
proof unfold_locales
  fix t a f
  show "fdb_lookup t a = Some f \<Longrightarrow> f_addr f = a" by (rule fdb_lookup_addr)
  assume t: "fdb_table t"
  show "fdb_lookup t (f_addr f) = None \<Longrightarrow> fdb_table (fdb_link f t)
      \<and> fdb_lookup (fdb_link f t) = (fdb_lookup t)(f_addr f \<mapsto> f)
      \<and> b_num_fdb_entries (fdb_link f t) = b_num_fdb_entries t + 1"
    using fdb_link_table [OF t] by blast
  show "fdb_lookup t a \<noteq> None \<Longrightarrow> fdb_table (fdb_unlink a t)
      \<and> fdb_lookup (fdb_unlink a t) = (fdb_lookup t)(a := None)
      \<and> b_num_fdb_entries (fdb_unlink a t) = b_num_fdb_entries t - 1"
    using fdb_unlink_table [OF t] by blast
  show "fdb_table (fdb_store a g t)
      \<and> fdb_lookup (fdb_store a g t) = (fdb_lookup t)(a := map_option g (fdb_lookup t a))
      \<and> b_num_fdb_entries (fdb_store a g t) = b_num_fdb_entries t"
    if "\<And>f. fdb_lookup t a = Some f \<Longrightarrow> f_addr (g f) = a" for g
    using fdb_store_table [OF t, of a g] that by blast
  show "set (all_entries t) = ran (fdb_lookup t) \<and> distinct (map f_addr (all_entries t))
      \<and> b_num_fdb_entries t = int (length (all_entries t))"
    using fdb_all_entries [OF t] t by (simp add: fdb_table_def)
qed

end
