(* ===== verification/Fdb_Inv.thy ===== *)
theory Fdb_Inv
  imports Fdb_Table
begin

text \<open>
  The routines of \<open>br_fdb.c\<close> against the map \<open>fdb_lookup\<close>: what each does to the map, that none of
  them dereferences NULL or a port that is gone, and that they keep \<open>fdb_wf\<close>.
\<close>

section \<open>What the routines leave alone\<close>

definition fdb_core :: "net_bridge \<Rightarrow> net_bridge" where
  "fdb_core br = br\<lparr>b_hash := (\<lambda>_. []), b_num_fdb_entries := 0, b_out := []\<rparr>"

lemma fdb_core_upds [simp]:
  "fdb_core (fdb_link f br) = fdb_core br" "fdb_core (fdb_unlink a br) = fdb_core br"
  "fdb_core (fdb_store a g br) = fdb_core br" "fdb_core (emit e br) = fdb_core br"
  by (simp_all add: fdb_core_def fdb_link_def fdb_unlink_def fdb_store_def emit_def)

lemma fdb_core_fields [simp]:
  "b_port_list (fdb_core br) = b_port_list br" "b_fdb_salt (fdb_core br) = b_fdb_salt br"
  "b_jiffies (fdb_core br) = b_jiffies br" "b_topology_change (fdb_core br) = b_topology_change br"
  "b_ageing_time (fdb_core br) = b_ageing_time br" "b_dev (fdb_core br) = b_dev br"
  "b_bridge_id (fdb_core br) = b_bridge_id br" "b_designated_root (fdb_core br) = b_designated_root br"
  "b_root_port (fdb_core br) = b_root_port br" "b_stp_enabled (fdb_core br) = b_stp_enabled br"
  "b_cpu (fdb_core br) = b_cpu br" "b_set_mac_addr (fdb_core br) = b_set_mac_addr br"
  by (simp_all add: fdb_core_def)

lemma fdb_core_eqD:
  assumes "fdb_core br' = fdb_core br"
  shows "b_port_list br' = b_port_list br" "b_fdb_salt br' = b_fdb_salt br"
    "b_jiffies br' = b_jiffies br" "b_topology_change br' = b_topology_change br"
    "b_ageing_time br' = b_ageing_time br" "b_dev br' = b_dev br"
    "b_bridge_id br' = b_bridge_id br" "b_designated_root br' = b_designated_root br"
    "b_root_port br' = b_root_port br" "b_stp_enabled br' = b_stp_enabled br"
    "b_cpu br' = b_cpu br" "b_set_mac_addr br' = b_set_mac_addr br"
  using assms by (metis fdb_core_fields)+

lemma fdb_core_eq_derived:
  assumes "fdb_core br' = fdb_core br"
  shows "br_get_port br' n = br_get_port br n" "port_nos br' = port_nos br" "hold_time br' = hold_time br"
    "stp_wf br' = stp_wf br" "expired br' f = expired br f" "other_port_with n a br' = other_port_with n a br"
  using fdb_core_eqD [OF assms]
  by (simp_all add: br_get_port_def port_nos_def hold_time_def stp_wf_def expired_def other_port_with_def)

section \<open>The invariant\<close>

text \<open>A destination is a port of the bridge; only a local entry may be without one; local entries
  are static. The table has at most \<open>BR_MAX_FDB_ENTRIES\<close> entries.\<close>

definition entry_ok :: "net_bridge \<Rightarrow> net_bridge_fdb_entry \<Rightarrow> bool" where
  "entry_ok br f \<longleftrightarrow>
     (case f_dst f of None \<Rightarrow> f_is_local f | Some n \<Rightarrow> n \<in> set (port_nos br))
     \<and> (f_is_local f \<longrightarrow> f_is_static f)"

definition fdb_wf :: "net_bridge \<Rightarrow> bool" where
  "fdb_wf br \<longleftrightarrow> fdb_table br \<and> (\<forall>a f. fdb_lookup br a = Some f \<longrightarrow> entry_ok br f)
     \<and> b_num_fdb_entries br \<le> BR_MAX_FDB_ENTRIES"

text \<open>\<open>fdb_becomes br m br'\<close>: \<open>br'\<close> is \<open>br\<close> with the table now representing \<open>m\<close>.\<close>

definition fdb_becomes ::
  "net_bridge \<Rightarrow> (mac_addr \<Rightarrow> net_bridge_fdb_entry option) \<Rightarrow> net_bridge \<Rightarrow> bool" where
  "fdb_becomes br m br' \<longleftrightarrow> fdb_core br' = fdb_core br \<and> fdb_table br' \<and> fdb_lookup br' = m"

lemma fdb_becomes_refl: "fdb_table br \<Longrightarrow> fdb_becomes br (fdb_lookup br) br"
  by (simp add: fdb_becomes_def)

lemma fdb_becomes_trans: "fdb_becomes br m br1 \<Longrightarrow> fdb_becomes br1 m' br2 \<Longrightarrow> fdb_becomes br m' br2"
  by (simp add: fdb_becomes_def)

lemma fdb_becomes_emit [simp]: "fdb_becomes br m (emit e br') = fdb_becomes br m br'"
proof -
  have "fdb_table (emit e br') = fdb_table br'" by (rule fdb_table_cong) simp_all
  moreover have "fdb_lookup (emit e br') = fdb_lookup br'" by (rule fdb_lookup_cong) simp_all
  ultimately show ?thesis by (simp add: fdb_becomes_def)
qed

lemma fdb_becomes_count: "fdb_becomes br m br' \<Longrightarrow> b_num_fdb_entries br' = int (card (dom m))"
  using fdb.count_card [of br'] by (auto simp: fdb_becomes_def)

lemma entry_ok_cong: "fdb_core br' = fdb_core br \<Longrightarrow> entry_ok br' f = entry_ok br f"
  using fdb_core_eq_derived(2) [of br' br] by (simp add: entry_ok_def split: option.split)

text \<open>The invariant is a property of the map.\<close>

lemma fdb_becomes_wf:
  assumes "fdb_becomes br m br'" "\<And>a f. m a = Some f \<Longrightarrow> entry_ok br f"
    and "int (card (dom m)) \<le> BR_MAX_FDB_ENTRIES"
  shows "fdb_wf br'"
  using assms fdb_becomes_count [OF assms(1)] entry_ok_cong [of br' br]
  by (simp add: fdb_wf_def fdb_becomes_def)

lemma fdb_wf_card: "fdb_wf br \<Longrightarrow> int (card (dom (fdb_lookup br))) \<le> BR_MAX_FDB_ENTRIES"
  using fdb.count_card [of br] by (simp add: fdb_wf_def)

section \<open>The single steps\<close>

lemma blog_refresh_fields [simp]:
  "f_addr (blog_refresh env f) = f_addr f" "f_dst (blog_refresh env f) = f_dst f"
  "f_is_local (blog_refresh env f) = f_is_local f" "f_is_static (blog_refresh env f) = f_is_static f"
  "f_fdb_key (blog_refresh env f) = f_fdb_key f" "f_used (blog_refresh env f) = f_used f"
  by (simp_all add: blog_refresh_def split: option.split)

lemma blog_refresh_None [simp]: "f_fdb_key f = BLOG_KEY_NONE \<Longrightarrow> blog_refresh env f = f"
  by (simp add: blog_refresh_def)

lemma entry_ok_refresh [simp]: "entry_ok br (blog_refresh env f) = entry_ok br f"
  by (simp add: entry_ok_def split: option.split)

lemma fdb_fill_info_runs:
  assumes "entry_ok br f"
  shows "runs (fdb_fill_info env f br) (\<lambda>(i, f'). f_addr f' = f_addr f \<and> f_fdb_key f' = f_fdb_key f
    \<and> (f_fdb_key f = BLOG_KEY_NONE \<longrightarrow> f' = f))"
proof -
  have "\<exists>p. br_get_port br n = Some p" if "f_dst f = Some n" for n
    using assms that br_get_port_ex by (simp add: entry_ok_def)
  then show ?thesis
    using assms by (cases "f_dst f") (auto simp: fdb_fill_info_def fdb_to_nud_def entry_ok_def Let_def)
qed

lemma fdb_link_becomes:
  "fdb_table br \<Longrightarrow> fdb_lookup br (f_addr f) = None \<Longrightarrow>
   fdb_becomes br ((fdb_lookup br)(f_addr f \<mapsto> f)) (fdb_link f br)"
  using fdb.link [of br f] by (simp add: fdb_becomes_def)

lemma fdb_store_becomes:
  "fdb_table br \<Longrightarrow> fdb_lookup br a = Some f \<Longrightarrow> f_addr (g f) = a \<Longrightarrow>
   fdb_becomes br ((fdb_lookup br)(a \<mapsto> g f)) (fdb_store a g br)"
  using fdb.store [of br a g] by (simp add: fdb_becomes_def)

lemma fdb_delete_runs:
  assumes "fdb_table br" "fdb_lookup br (f_addr f) \<noteq> None" "entry_ok br f"
  shows "runs (fdb_delete env f br) (fdb_becomes br ((fdb_lookup br)(f_addr f := None)))"
proof -
  let ?br = "fdb_unlink (f_addr f) br"
  have b: "fdb_becomes br ((fdb_lookup br)(f_addr f := None)) ?br"
    using fdb.unlink [OF assms(1,2)] by (simp add: fdb_becomes_def)
  have "entry_ok ?br f" using assms(3) entry_ok_cong [of ?br br] by simp
  from fdb_fill_info_runs [OF this, of env] b show ?thesis
    by (auto simp: fdb_delete_def Let_def elim!: runs_mono)
qed

lemma fdb_notify_new_runs:
  assumes "fdb_table br" "fdb_lookup br (f_addr f) = Some f" "entry_ok br f" "f_fdb_key f = BLOG_KEY_NONE"
  shows "runs (fdb_notify_new env f br) (fdb_becomes br (fdb_lookup br))"
proof -
  have "fdb_becomes br ((fdb_lookup br)(f_addr f \<mapsto> f)) (fdb_store (f_addr f) (\<lambda>_. f) br)"
    by (rule fdb_store_becomes [OF assms(1,2)]) simp
  then have "fdb_becomes br (fdb_lookup br) (fdb_store (f_addr f) (\<lambda>_. f) br)"
    using assms(2) by (simp add: fun_upd_idem)
  with fdb_fill_info_runs [OF assms(3), of env] assms(4) show ?thesis
    by (auto simp: fdb_notify_new_def elim!: runs_mono)
qed

section \<open>Creating entries\<close>

definition new_entry :: "net_bridge \<Rightarrow> u16 option \<Rightarrow> mac_addr \<Rightarrow> bool \<Rightarrow> bool \<Rightarrow> net_bridge_fdb_entry" where
  "new_entry br source addr is_local is_static =
     \<lparr>f_dst = source, f_updated = b_jiffies br, f_used = b_jiffies br, f_addr = addr,
      f_is_local = is_local, f_is_static = is_static, f_fdb_key = BLOG_KEY_NONE\<rparr>"

definition can_create :: "br_env \<Rightarrow> bool \<Rightarrow> net_bridge \<Rightarrow> (mac_addr \<Rightarrow> net_bridge_fdb_entry option) \<Rightarrow> bool" where
  "can_create env is_static br m \<longleftrightarrow>
     int (card (dom m)) < BR_MAX_FDB_ENTRIES \<and> (hold_time br \<noteq> 0 \<or> is_static) \<and> env_alloc env"

lemma fdb_create_eq:
  assumes "fdb_table br"
  shows "fdb_create env source addr is_local is_static br =
    (if can_create env is_static br (fdb_lookup br)
     then (Some (new_entry br source addr is_local is_static),
           fdb_link (new_entry br source addr is_local is_static) br)
     else (None, br))"
  using fdb.count_card [OF assms]
  by (auto simp: fdb_create_def can_create_def new_entry_def Let_def)

lemma new_entry_fields [simp]:
  "f_addr (new_entry br s a l t) = a" "f_fdb_key (new_entry br s a l t) = BLOG_KEY_NONE"
  "f_is_local (new_entry br s a l t) = l" "f_is_static (new_entry br s a l t) = t"
  "f_dst (new_entry br s a l t) = s" "f_updated (new_entry br s a l t) = b_jiffies br"
  by (simp_all add: new_entry_def)

lemma fdb_create_notify_runs:
  assumes "fdb_table br" "fdb_lookup br a = None" "entry_ok br (new_entry br s a l t)"
  shows "runs (fdb_notify_new env (new_entry br s a l t) (fdb_link (new_entry br s a l t) br))
    (fdb_becomes br ((fdb_lookup br)(a \<mapsto> new_entry br s a l t)))"
proof -
  let ?f = "new_entry br s a l t"
  have b: "fdb_becomes br ((fdb_lookup br)(a \<mapsto> ?f)) (fdb_link ?f br)"
    using fdb_link_becomes [of br ?f] assms by simp
  have "entry_ok (fdb_link ?f br) ?f" using assms(3) entry_ok_cong [of "fdb_link ?f br" br] by simp
  then have "runs (fdb_notify_new env ?f (fdb_link ?f br)) (fdb_becomes (fdb_link ?f br) (fdb_lookup (fdb_link ?f br)))"
    using b by (intro fdb_notify_new_runs) (simp_all add: fdb_becomes_def)
  then show ?thesis
    by (rule runs_mono) (use b in \<open>simp add: fdb_becomes_def\<close>)
qed

section \<open>The operations as functions on the map\<close>

type_synonym fdb_map = "mac_addr \<Rightarrow> net_bridge_fdb_entry option"

definition spec_insert ::
  "br_env \<Rightarrow> u16 option \<Rightarrow> mac_addr \<Rightarrow> net_bridge \<Rightarrow> fdb_map \<Rightarrow> result \<times> fdb_map" where
  "spec_insert env source addr br m =
     (if \<not> is_valid_ether_addr addr then (Some EINVAL, m)
      else if (case m addr of None \<Rightarrow> False | Some f \<Rightarrow> f_is_local f) then (None, m)
      else
        let m = m(addr := None)
        in if can_create env True br m then (None, m(addr \<mapsto> new_entry br source addr True True))
           else (Some ENOMEM, m))"

definition spec_adddel_static ::
  "br_env \<Rightarrow> u16 \<Rightarrow> mac_addr \<Rightarrow> bool \<Rightarrow> net_bridge \<Rightarrow> fdb_map \<Rightarrow> result \<times> fdb_map" where
  "spec_adddel_static env source addr addEntry br m =
     (if \<not> is_valid_ether_addr addr then (Some EINVAL, m)
      else if (case m addr of None \<Rightarrow> False | Some f \<Rightarrow> addEntry \<and> f_is_static f) then (None, m)
      else
        let m = m(addr := None)
        in if \<not> addEntry then (None, m)
           else if can_create env True br m
           then (None, m(addr \<mapsto> new_entry br (Some source) addr False True))
           else (Some ENOMEM, m))"

text \<open>Learning, on a port that learns or forwards.\<close>

definition spec_learn :: "br_env \<Rightarrow> u16 \<Rightarrow> mac_addr \<Rightarrow> net_bridge \<Rightarrow> fdb_map \<Rightarrow> fdb_map" where
  "spec_learn env source addr br m =
     (case m addr of
        Some f \<Rightarrow>
          if f_is_local f then m
          else m(addr \<mapsto> f\<lparr>f_dst := Some source, f_updated := b_jiffies br\<rparr>)
      | None \<Rightarrow>
          if can_create env False br m then m(addr \<mapsto> new_entry br (Some source) addr False False)
          else m)"

lemma can_create_cong: "fdb_core br' = fdb_core br \<Longrightarrow> can_create env t br' m = can_create env t br m"
  using fdb_core_eq_derived(3) [of br' br] by (simp add: can_create_def)

lemma new_entry_cong: "fdb_core br' = fdb_core br \<Longrightarrow> new_entry br' s a l t = new_entry br s a l t"
  using fdb_core_eqD(3) [of br' br] by (simp add: new_entry_def)

lemma fdb_becomes_core:
  assumes "fdb_becomes br m br'"
  shows "fdb_core br' = fdb_core br" "fdb_table br'" "fdb_lookup br' = m"
  using assms by (simp_all add: fdb_becomes_def)

text \<open>Clearing the address first, as the operations that replace an entry do.\<close>

lemma fdb_clear_runs:
  assumes "fdb_wf br"
  shows "runs (case fdb_lookup br a of None \<Rightarrow> Some br | Some f \<Rightarrow> fdb_delete env f br)
    (fdb_becomes br ((fdb_lookup br)(a := None)))"
proof (cases "fdb_lookup br a")
  case None
  then show ?thesis
    using assms by (simp add: fdb_wf_def fdb_becomes_def fun_upd_idem)
next
  case (Some f)
  have "f_addr f = a" using Some by (rule fdb_lookup_addr)
  with assms Some show ?thesis using fdb_delete_runs [of br f env] by (simp add: fdb_wf_def)
qed

lemma fdb_insert_create_runs:
  assumes b: "fdb_becomes br m br'" "m a = None" and ok: "entry_ok br (new_entry br s a True True)"
  shows "runs (let (fdb, br') = fdb_create env s a True True br'
      in case fdb of None \<Rightarrow> Some (Some ENOMEM, br')
         | Some f \<Rightarrow> do { br' \<leftarrow> fdb_notify_new env f br'; Some (None, br') })
    (\<lambda>(r, br''). if can_create env True br m
       then r = None \<and> fdb_becomes br (m(a \<mapsto> new_entry br s a True True)) br''
       else r = Some ENOMEM \<and> fdb_becomes br m br'')"
proof -
  note c = fdb_becomes_core [OF b(1)]
  have n: "new_entry br' s a True True = new_entry br s a True True" using new_entry_cong [OF c(1)] .
  have "runs (fdb_notify_new env (new_entry br s a True True) (fdb_link (new_entry br s a True True) br'))
      (fdb_becomes br (m(a \<mapsto> new_entry br s a True True)))"
    using fdb_create_notify_runs [of br' a s True True env] c b ok entry_ok_cong [OF c(1)]
    by (auto simp: n intro: fdb_becomes_trans elim!: runs_mono)
  then show ?thesis
    using b c by (auto simp: fdb_create_eq can_create_cong [OF c(1)] n elim!: runs_mono)
qed

lemma fdb_insert_runs:
  assumes wf: "fdb_wf br"
    and s: "\<And>n. s = Some n \<Longrightarrow> n \<in> set (port_nos br)"
    and s0: "s = None \<Longrightarrow> \<forall>f. fdb_lookup br a = Some f \<longrightarrow> f_is_local f"
  shows "runs (fdb_insert env s a br) (\<lambda>(r, br').
    r = fst (spec_insert env s a br (fdb_lookup br))
    \<and> fdb_becomes br (snd (spec_insert env s a br (fdb_lookup br))) br')"
proof (cases "is_valid_ether_addr a \<and> \<not> (\<exists>f. fdb_lookup br a = Some f \<and> f_is_local f)")
  case False
  then show ?thesis
    using wf fdb_becomes_refl [of br]
    by (auto simp: fdb_insert_def spec_insert_def fdb_wf_def split: option.split)
next
  case True
  let ?m = "(fdb_lookup br)(a := None)"
  have ok: "entry_ok br (new_entry br s a True True)" using s by (simp add: entry_ok_def split: option.split)
  have "(case fdb_lookup br a of None \<Rightarrow> Some br | Some f \<Rightarrow> do { n \<leftarrow> s; _ \<leftarrow> br_get_port br n; fdb_delete env f br })
      = (case fdb_lookup br a of None \<Rightarrow> Some br | Some f \<Rightarrow> fdb_delete env f br)"
  proof (cases "fdb_lookup br a")
    case (Some f)
    then obtain n where "s = Some n" using s0 True by (cases s) auto
    then show ?thesis using s br_get_port_ex [of n br] Some by auto
  qed simp
  then have clear: "runs (case fdb_lookup br a of None \<Rightarrow> Some br
      | Some f \<Rightarrow> do { n \<leftarrow> s; _ \<leftarrow> br_get_port br n; fdb_delete env f br }) (fdb_becomes br ?m)"
    using fdb_clear_runs [OF wf, of env a] by simp
  have spec: "spec_insert env s a br (fdb_lookup br) = (if can_create env True br ?m
      then (None, ?m(a \<mapsto> new_entry br s a True True)) else (Some ENOMEM, ?m))"
    using True by (auto simp: spec_insert_def Let_def split: option.split)
  have "runs (Option.bind (case fdb_lookup br a of None \<Rightarrow> Some br
      | Some f \<Rightarrow> do { n \<leftarrow> s; _ \<leftarrow> br_get_port br n; fdb_delete env f br })
      (\<lambda>br'. let (fdb, br') = fdb_create env s a True True br'
      in case fdb of None \<Rightarrow> Some (Some ENOMEM, br')
         | Some f \<Rightarrow> do { br' \<leftarrow> fdb_notify_new env f br'; Some (None, br') }))
    (\<lambda>(r, br'). r = fst (spec_insert env s a br (fdb_lookup br))
      \<and> fdb_becomes br (snd (spec_insert env s a br (fdb_lookup br))) br')"
    unfolding runs_bind spec
    by (rule runs_mono [OF clear], rule runs_mono [OF fdb_insert_create_runs [where m = ?m, OF _ _ ok]])
      (auto split: if_splits)
  then show ?thesis
    using True by (auto simp: fdb_insert_def Let_def split: option.splits)
qed

end
