(* ===== verification/Fdb_Ops.thy ===== *)
theory Fdb_Ops
  imports Fdb_Inv
begin

text \<open>
  Learning, lookup, ageing and removal in the forwarding database: each routine of \<open>br_fdb.c\<close>
  refines a function on the map from addresses to entries, and keeps the invariant \<open>fdb_wf\<close>.
\<close>

section \<open>Static entries\<close>

lemma fdb_adddel_static_runs:
  assumes wf: "fdb_wf br" and n: "n \<in> set (port_nos br)"
  shows "runs (fdb_adddel_static env n a add br) (\<lambda>(r, br').
    r = fst (spec_adddel_static env n a add br (fdb_lookup br))
    \<and> fdb_becomes br (snd (spec_adddel_static env n a add br (fdb_lookup br))) br')"
proof (cases "is_valid_ether_addr a \<and> \<not> (\<exists>f. fdb_lookup br a = Some f \<and> add \<and> f_is_static f)")
  case False
  then show ?thesis
    using wf fdb_becomes_refl [of br]
    by (auto simp: fdb_adddel_static_def spec_adddel_static_def fdb_wf_def split: option.split)
next
  case True
  let ?m = "(fdb_lookup br)(a := None)" and ?f = "new_entry br (Some n) a False True"
  have spec: "spec_adddel_static env n a add br (fdb_lookup br) =
      (if \<not> add then (None, ?m) else if can_create env True br ?m then (None, ?m(a \<mapsto> ?f))
       else (Some ENOMEM, ?m))"
    using True by (auto simp: spec_adddel_static_def Let_def split: option.split)
  let ?Q = "\<lambda>(r, br'). r = fst (spec_adddel_static env n a add br (fdb_lookup br))
      \<and> fdb_becomes br (snd (spec_adddel_static env n a add br (fdb_lookup br))) br'"
  have create: "runs (if add then let (fdb, br') = fdb_create env (Some n) a False True br'
       in Some (if fdb = None then Some ENOMEM else None, br') else Some (None, br')) ?Q"
    if b: "fdb_becomes br ?m br'" for br'
  proof -
    note c = fdb_becomes_core [OF b]
    have "fdb_becomes br (?m(a \<mapsto> ?f)) (fdb_link ?f br')"
      using fdb_link_becomes [of br' ?f] c b by (auto intro: fdb_becomes_trans)
    then show ?thesis
      using b c unfolding spec
      by (simp add: fdb_create_eq can_create_cong [OF c(1)] new_entry_cong [OF c(1)])
  qed
  have "runs (Option.bind (case fdb_lookup br a of None \<Rightarrow> Some br | Some f \<Rightarrow> fdb_delete env f br)
      (\<lambda>br. if add then let (fdb, br) = fdb_create env (Some n) a False True br
               in Some (if fdb = None then Some ENOMEM else None, br)
             else Some (None, br))) ?Q"
    unfolding runs_bind by (rule runs_mono [OF fdb_clear_runs [OF wf]]) (rule create)
  then show ?thesis
    using True by (auto simp: fdb_adddel_static_def Let_def split: option.splits)
qed

section \<open>Learning\<close>

lemma fdb_moved_core [simp]:
  "fdb_core (fdb_moved env f br) = fdb_core br" "b_hash (fdb_moved env f br) = b_hash br"
  "b_num_fdb_entries (fdb_moved env f br) = b_num_fdb_entries br"
  "b_jiffies (fdb_moved env f br) = b_jiffies br"
  by (simp_all add: fdb_moved_def)

lemma fdb_becomes_moved:
  "fdb_table br \<Longrightarrow> fdb_becomes br (fdb_lookup br) (fdb_moved env f br)"
  using fdb_table_cong [of "fdb_moved env f br" br] fdb_lookup_cong [of "fdb_moved env f br" br]
    fdb_core_eqD(2) [of "fdb_moved env f br" br]
  by (simp add: fdb_becomes_def)

lemma fdb_find_rcu_lookup: "fdb_find_rcu (b_hash br (fdb_head br a)) a = fdb_lookup br a"
  by (simp add: fdb_find_rcu_def fdb_lookup_def fdb_find_def)

lemma br_fdb_update_runs:
  assumes wf: "fdb_wf br" and p: "br_get_port br n = Some p"
    and st: "p_state p = BR_STATE_LEARNING \<or> p_state p = BR_STATE_FORWARDING"
    and hold: "hold_time br \<noteq> 0"
    and nl: "\<forall>f. fdb_lookup br a = Some f \<longrightarrow> \<not> f_is_local f"
  shows "runs (br_fdb_update env n a br) (fdb_becomes br (spec_learn env n a br (fdb_lookup br)))"
proof (cases "fdb_lookup br a")
  case None
  have "n \<in> set (port_nos br)" using p br_get_port_eq_None_iff [of br n] by auto
  then have ok: "entry_ok br (new_entry br (Some n) a False False)" by (simp add: entry_ok_def)
  have "fdb_table br" using wf by (simp add: fdb_wf_def)
  then show ?thesis
    using fdb_create_notify_runs [OF _ None ok, of env] None p st hold fdb_becomes_refl [of br]
    by (auto simp: br_fdb_update_def fdb_find_rcu_lookup spec_learn_def fdb_create_eq)
next
  case (Some f)
  have t: "fdb_table br" "entry_ok br f" "\<not> f_is_local f" using wf Some nl by (auto simp: fdb_wf_def)
  then obtain d where d: "f_dst f = Some d" "d \<in> set (port_nos br)"
    by (auto simp: entry_ok_def split: option.splits)
  obtain dp where dp: "br_get_port br d = Some dp" using br_get_port_ex [OF d(2)] by blast
  let ?g = "\<lambda>f. f\<lparr>f_dst := Some n, f_updated := b_jiffies br\<rparr>"
  have st': "fdb_becomes br ((fdb_lookup br)(a \<mapsto> ?g f)) (fdb_store a ?g br')"
    if "fdb_becomes br (fdb_lookup br) br'" for br'
    using fdb_store_becomes [of br' a f ?g] that Some fdb_lookup_addr [OF Some]
    by (auto simp: fdb_becomes_def)
  have "fdb_becomes br ((fdb_lookup br)(a \<mapsto> ?g f)) (fdb_store a ?g br)"
    "fdb_becomes br ((fdb_lookup br)(a \<mapsto> ?g f)) (fdb_store a ?g (fdb_moved env f br))"
    using st' fdb_becomes_refl fdb_becomes_moved t(1) by blast+
  then show ?thesis
    using Some p st hold t d dp
    by (auto simp: br_fdb_update_def fdb_find_rcu_lookup spec_learn_def)
qed

section \<open>Lookup\<close>

lemma br_fdb_get_becomes:
  assumes "fdb_table br"
  shows "fst (br_fdb_get env a br) = Option.bind (fdb_lookup br a)
      (\<lambda>f. if expired br (blog_refresh env f) then None else Some (blog_refresh env f))"
    "fdb_becomes br ((fdb_lookup br)(a := map_option (blog_refresh env) (fdb_lookup br a)))
       (snd (br_fdb_get env a br))"
proof -
  show "fst (br_fdb_get env a br) = Option.bind (fdb_lookup br a)
      (\<lambda>f. if expired br (blog_refresh env f) then None else Some (blog_refresh env f))"
    by (simp add: br_fdb_get_def has_expired_def Let_def split: option.split)
  show "fdb_becomes br ((fdb_lookup br)(a := map_option (blog_refresh env) (fdb_lookup br a)))
       (snd (br_fdb_get env a br))"
  proof (cases "fdb_lookup br a")
    case None
    then show ?thesis using assms fdb_becomes_refl [of br] by (simp add: br_fdb_get_def fun_upd_idem)
  next
    case (Some f)
    have "f_addr f = a" using Some by (rule fdb_lookup_addr)
    then show ?thesis
      using fdb_store_becomes [OF assms Some, of "\<lambda>_. blog_refresh env f"] Some
      by (simp add: br_fdb_get_def has_expired_def Let_def)
  qed
qed

section \<open>Sweeps over the whole table\<close>

lemma finite_dom_lookup: "fdb_table br \<Longrightarrow> finite (dom (fdb_lookup br))"
proof -
  assume t: "fdb_table br"
  have "dom (fdb_lookup br) \<subseteq> f_addr ` set (all_entries br)"
    using fdb.entries [OF t] fdb_lookup_addr [of br] by (fastforce simp: dom_def ran_def)
  then show ?thesis by (rule finite_subset) simp
qed

text \<open>A map with no new addresses whose entries are fine gives a well-formed database.\<close>

lemma fdb_becomes_shrink:
  assumes "fdb_wf br" "fdb_becomes br m br'" "dom m \<subseteq> dom (fdb_lookup br)"
    and "\<And>a f. m a = Some f \<Longrightarrow> entry_ok br f"
  shows "fdb_wf br'"
proof (rule fdb_becomes_wf [OF assms(2,4)])
  have "card (dom m) \<le> card (dom (fdb_lookup br))"
    using assms(1,3) by (intro card_mono finite_dom_lookup) (simp_all add: fdb_wf_def)
  then show "int (card (dom m)) \<le> BR_MAX_FDB_ENTRIES" using fdb_wf_card [OF assms(1)] by simp
qed

lemma fdb_becomes_bind_wf:
  assumes "fdb_wf br" "fdb_becomes br (\<lambda>a. Option.bind (fdb_lookup br a) act) br'"
    and "\<And>f g. entry_ok br f \<Longrightarrow> act f = Some g \<Longrightarrow> entry_ok br g"
  shows "fdb_wf br'"
  using assms(1)
  by (intro fdb_becomes_shrink [OF assms(1,2)])
    (auto simp: bind_eq_Some_conv fdb_wf_def intro: assms(3))

lemma fdb_sweep:
  assumes wf: "fdb_wf (T s)"
    and act: "\<And>f g. entry_ok (T s) f \<Longrightarrow> act f = Some g \<Longrightarrow> entry_ok (T s) g"
    and step: "\<And>f s'. fdb_table (T s') \<Longrightarrow> fdb_core (T s') = fdb_core (T s) \<Longrightarrow>
      fdb_lookup (T s') (f_addr f) = Some f \<Longrightarrow> entry_ok (T s) f \<Longrightarrow>
      runs (body f s') (\<lambda>s''. fdb_becomes (T s') ((fdb_lookup (T s'))(f_addr f := act f)) (T s''))"
  shows "runs (fdb_for_each body (T s) s) (\<lambda>s'. fdb_wf (T s') \<and>
    fdb_becomes (T s) (\<lambda>a. Option.bind (fdb_lookup (T s) a) act) (T s'))"
proof -
  let ?J = "\<lambda>s'. fdb_core (T s') = fdb_core (T s) \<and> (\<forall>a f. fdb_lookup (T s') a = Some f \<longrightarrow> entry_ok (T s) f)"
  have "runs (for_each body (all_entries (T s)) s) (\<lambda>s'. fdb_table (T s') \<and> ?J s'
      \<and> fdb_lookup (T s') = (\<lambda>a. Option.bind (fdb_lookup (T s) a) act))"
  proof (rule fdb.sweep)
    fix f s'
    assume s': "fdb_table (T s')" "?J s'" "fdb_lookup (T s') (f_addr f) = Some f"
    have ok: "entry_ok (T s) f" using s'(2,3) by blast
    have keep: "fdb_table (T s'') \<and> ?J s'' \<and> fdb_lookup (T s'') = (fdb_lookup (T s'))(f_addr f := act f)"
      if "fdb_becomes (T s') ((fdb_lookup (T s'))(f_addr f := act f)) (T s'')" for s''
      using that s'(2) act [OF ok] by (auto simp: fdb_becomes_def split: if_splits)
    show "runs (body f s') (\<lambda>s''. fdb_table (T s'') \<and> ?J s''
        \<and> fdb_lookup (T s'') = (fdb_lookup (T s'))(f_addr f := act f))"
      using step [OF s'(1) _ s'(3) ok] s'(2) keep by (auto elim: runs_mono)
  qed (use wf in \<open>auto simp: fdb_wf_def\<close>)
  then have "runs (for_each body (all_entries (T s)) s)
      (\<lambda>s'. fdb_becomes (T s) (\<lambda>a. Option.bind (fdb_lookup (T s) a) act) (T s'))"
    by (rule runs_mono) (simp add: fdb_becomes_def)
  then show ?thesis
    unfolding fdb_for_each_def by (rule runs_mono) (auto intro: fdb_becomes_bind_wf [OF wf _ act])
qed

text \<open>Ageing: what becomes of an entry when \<open>br_fdb_cleanup\<close> runs.\<close>

definition aged :: "br_env \<Rightarrow> net_bridge \<Rightarrow> net_bridge_fdb_entry \<Rightarrow> net_bridge_fdb_entry option" where
  "aged env br f =
     (if f_is_static f then Some f
      else if \<not> expired br (blog_refresh env f) then Some (blog_refresh env f)
      else if wl_alive env (f_addr f) then Some (f\<lparr>f_updated := b_jiffies br\<rparr>)
      else None)"

lemma blog_refresh_updated [simp]:
  "(blog_refresh env f)\<lparr>f_updated := t\<rparr> = f\<lparr>f_updated := t\<rparr>"
  by (simp add: blog_refresh_def split: option.split)

lemma fdb_store_store:
  assumes "\<And>f. f_addr (g f) = f_addr f"
  shows "fdb_store a h (fdb_store a g br) = fdb_store a (\<lambda>f. h (g f)) br"
  using assms by (simp add: fdb_store_def comp_def if_distrib cong: if_cong)

lemma cleanup_entry_runs:
  assumes t: "fdb_table br" and core: "fdb_core br = fdb_core br0"
    and f: "fdb_lookup br (f_addr f) = Some f" and ok: "entry_ok br0 f"
  shows "runs (cleanup_entry env (hold_time br0) f (br, timer))
    (\<lambda>s. fdb_becomes br ((fdb_lookup br)(f_addr f := aged env br0 f)) (fst s))"
proof (cases "f_is_static f")
  case True
  then show ?thesis
    using t f by (simp add: cleanup_entry_def aged_def fdb_becomes_def fun_upd_idem)
next
  case False
  let ?f = "blog_refresh env f"
  let ?br = "fdb_store (f_addr f) (\<lambda>_. ?f) br"
  have b: "fdb_becomes br ((fdb_lookup br)(f_addr f \<mapsto> ?f)) ?br"
    by (rule fdb_store_becomes [OF t f]) simp
  note c = fdb_becomes_core [OF b]
  have j: "b_jiffies ?br = b_jiffies br0" using fdb_core_eqD(3) [of ?br br0] c(1) core by simp
  have e: "time_before_eq (f_updated ?f + hold_time br0) (b_jiffies ?br) = expired br0 ?f"
    using False by (simp add: expired_def j)
  have "fdb_becomes ?br ((fdb_lookup ?br)(f_addr f \<mapsto> f\<lparr>f_updated := b_jiffies br0\<rparr>))
      (fdb_store (f_addr f) (\<lambda>f. f\<lparr>f_updated := b_jiffies br0\<rparr>) ?br)"
    using fdb_store_becomes [OF c(2), of "f_addr f" ?f "\<lambda>f. f\<lparr>f_updated := b_jiffies br0\<rparr>"] c(3) by simp
  then have alive: "fdb_becomes br ((fdb_lookup br)(f_addr f \<mapsto> f\<lparr>f_updated := b_jiffies br0\<rparr>))
      (fdb_store (f_addr f) (\<lambda>f. f\<lparr>f_updated := b_jiffies br0\<rparr>) ?br)"
    using b c(3) by (simp add: fdb_becomes_def)
  have "entry_ok ?br ?f" using ok entry_ok_cong [of ?br br0] c(1) core by simp
  then have del: "runs (fdb_delete env ?f ?br) (fdb_becomes br ((fdb_lookup br)(f_addr f := None)))"
    using fdb_delete_runs [OF c(2), of ?f env] c(3) b
    by (auto elim!: runs_mono simp: fdb_becomes_def)
  show ?thesis
    using False b alive del e j
    by (auto simp: cleanup_entry_def aged_def Let_def)
qed

lemma aged_ok: "entry_ok br f \<Longrightarrow> aged env br f = Some g \<Longrightarrow> entry_ok br g"
  by (auto simp: aged_def entry_ok_def split: if_splits option.splits)

lemma br_fdb_cleanup_runs:
  assumes wf: "fdb_wf br"
  shows "runs (br_fdb_cleanup env br) (\<lambda>br'. \<exists>br1 t. br' = br1\<lparr>b_gc_timer := Some t\<rparr> \<and> fdb_wf br1
    \<and> fdb_becomes br (\<lambda>a. Option.bind (fdb_lookup br a) (aged env br)) br1)"
proof -
  have loop: "runs (fdb_for_each (cleanup_entry env (hold_time br)) (fst (br, t)) (br, t)) (\<lambda>s. fdb_wf (fst s) \<and>
      fdb_becomes (fst (br, t)) (\<lambda>a. Option.bind (fdb_lookup (fst (br, t)) a) (aged env br)) (fst s))" for t
    using wf cleanup_entry_runs [where env = env and ?br0.0 = br]
    by (intro fdb_sweep) (auto intro: aged_ok)
  show ?thesis
    unfolding br_fdb_cleanup_def Let_def runs_bind
    by (rule runs_mono [OF loop [unfolded fst_conv]]) (auto simp: mod_timer_def, blast)
qed

definition flushed :: "net_bridge_fdb_entry \<Rightarrow> net_bridge_fdb_entry option" where
  "flushed f = (if f_is_static f then Some f else None)"

lemma br_fdb_flush_runs:
  assumes wf: "fdb_wf br"
  shows "runs (br_fdb_flush env br)
    (\<lambda>br'. fdb_wf br' \<and> fdb_becomes br (\<lambda>a. Option.bind (fdb_lookup br a) flushed) br')"
proof -
  have del: "runs (fdb_delete env f s) (fdb_becomes s ((fdb_lookup s)(f_addr f := None)))"
    if "fdb_table s" "fdb_core s = fdb_core br" "fdb_lookup s (f_addr f) = Some f" "entry_ok br f" for f s
    using that entry_ok_cong [OF that(2)] by (intro fdb_delete_runs) simp_all
  have "runs (fdb_for_each (\<lambda>f br. if \<not> f_is_static f then fdb_delete env f br else Some br) (id br) br)
      (\<lambda>s. fdb_wf (id s) \<and> fdb_becomes (id br) (\<lambda>a. Option.bind (fdb_lookup (id br) a) flushed) (id s))"
    using wf del
    by (intro fdb_sweep) (auto simp: flushed_def fdb_becomes_refl fun_upd_idem split: if_splits)
  then show ?thesis
    unfolding br_fdb_flush_def id_apply .
qed

definition port_deleted ::
  "u16 \<Rightarrow> nat \<Rightarrow> net_bridge \<Rightarrow> net_bridge_fdb_entry \<Rightarrow> net_bridge_fdb_entry option" where
  "port_deleted n do_all br f =
     (if f_dst f \<noteq> Some n \<or> f_is_static f \<and> do_all = 0 \<or> \<not> f_is_static f \<and> do_all = 2 then Some f
      else if f_is_local f
      then map_option (\<lambda>op. f\<lparr>f_dst := Some (p_port_no op)\<rparr>) (other_port_with n (f_addr f) br)
      else None)"

lemma other_port_with_SomeD:
  "other_port_with n a br = Some q \<Longrightarrow> q \<in> set (b_port_list br) \<and> p_port_no q \<noteq> n \<and> dev_addr (p_dev q) = a"
  unfolding other_port_with_def by (drule find_eq_Some_D) simp

lemma port_deleted_ok: "entry_ok br f \<Longrightarrow> port_deleted n do_all br f = Some g \<Longrightarrow> entry_ok br g"
  by (auto simp: port_deleted_def entry_ok_def port_nos_def dest!: other_port_with_SomeD split: if_splits option.splits)

lemma br_fdb_delete_by_port_runs:
  assumes wf: "fdb_wf br"
  shows "runs (br_fdb_delete_by_port env n do_all br)
    (\<lambda>br'. fdb_wf br' \<and> fdb_becomes br (\<lambda>a. Option.bind (fdb_lookup br a) (port_deleted n do_all br)) br')"
proof -
  have step: "runs (delete_by_port_entry env n do_all f s)
      (fdb_becomes s ((fdb_lookup s)(f_addr f := port_deleted n do_all br f)))"
    if s: "fdb_table s" "fdb_core s = fdb_core br" "fdb_lookup s (f_addr f) = Some f" "entry_ok br f" for f s
  proof -
    have del: "runs (fdb_delete env f s) (fdb_becomes s ((fdb_lookup s)(f_addr f := None)))"
      using s entry_ok_cong [OF s(2)] by (intro fdb_delete_runs) simp_all
    have st: "fdb_becomes s ((fdb_lookup s)(f_addr f \<mapsto> f\<lparr>f_dst := d\<rparr>)) (fdb_store (f_addr f) (\<lambda>f. f\<lparr>f_dst := d\<rparr>) s)" for d
      using fdb_store_becomes [OF s(1,3)] by simp
    show ?thesis
      using del st s fdb_core_eq_derived(6) [OF s(2), of n "f_addr f"]
      by (auto simp: delete_by_port_entry_def port_deleted_def fdb_becomes_refl fun_upd_idem split: option.split)
  qed
  have "runs (fdb_for_each (delete_by_port_entry env n do_all) (id br) br) (\<lambda>s. fdb_wf (id s) \<and>
      fdb_becomes (id br) (\<lambda>a. Option.bind (fdb_lookup (id br) a) (port_deleted n do_all br)) (id s))"
    using wf step by (intro fdb_sweep) (auto intro: port_deleted_ok)
  then show ?thesis
    unfolding br_fdb_delete_by_port_def id_apply .
qed

section \<open>The invariant for the remaining operations\<close>

lemma fdb_becomes_grow:
  assumes "fdb_wf br" "fdb_becomes br (m(a \<mapsto> f)) br'" "finite (dom m)"
    and "\<And>b g. m b = Some g \<Longrightarrow> entry_ok br g" "entry_ok br f" "int (card (dom m)) < BR_MAX_FDB_ENTRIES"
  shows "fdb_wf br'"
proof (rule fdb_becomes_wf [OF assms(2)])
  have "card (dom (m(a \<mapsto> f))) \<le> Suc (card (dom m))"
    using card_insert_le_m1 [of "Suc (card (dom m))" "dom m" a] by simp
  then show "int (card (dom (m(a \<mapsto> f)))) \<le> BR_MAX_FDB_ENTRIES" using assms(6) by linarith
qed (use assms(4,5) in \<open>auto split: if_splits\<close>)

lemma fdb_wf_map:
  assumes "fdb_wf br"
  shows "finite (dom (fdb_lookup br))" "\<And>a f. fdb_lookup br a = Some f \<Longrightarrow> entry_ok br f"
  using assms finite_dom_lookup by (auto simp: fdb_wf_def)

lemma fdb_replace_wf:
  assumes wf: "fdb_wf br" and ok: "entry_ok br f"
    and "fdb_becomes br (fdb_lookup br) br' \<or> fdb_becomes br ((fdb_lookup br)(a := None)) br'
      \<or> fdb_becomes br ((fdb_lookup br)(a \<mapsto> f)) br' \<and> can_create env t br ((fdb_lookup br)(a := None))"
  shows "fdb_wf br'"
  using assms(3)
proof (elim disjE conjE)
  let ?m = "(fdb_lookup br)(a := None)"
  have m: "finite (dom ?m)" "\<And>b g. ?m b = Some g \<Longrightarrow> entry_ok br g"
    using fdb_wf_map [OF wf] by (auto split: if_splits)
  show "fdb_wf br'" if "fdb_becomes br (fdb_lookup br) br'"
    by (rule fdb_becomes_shrink [OF wf that subset_refl]) (rule fdb_wf_map(2) [OF wf])
  show "fdb_wf br'" if "fdb_becomes br ?m br'"
    by (rule fdb_becomes_shrink [OF wf that _ m(2)]) auto
  show "fdb_wf br'" if "fdb_becomes br ((fdb_lookup br)(a \<mapsto> f)) br'" "can_create env t br ?m"
    by (rule fdb_becomes_grow [OF wf _ m ok, of a]) (use that in \<open>simp_all add: can_create_def\<close>)
qed

lemma spec_insert_wf:
  assumes "fdb_wf br" "fdb_becomes br (snd (spec_insert env s a br (fdb_lookup br))) br'"
    and "\<And>n. s = Some n \<Longrightarrow> n \<in> set (port_nos br)"
  shows "fdb_wf br'"
proof (rule fdb_replace_wf [OF assms(1)])
  show "entry_ok br (new_entry br s a True True)"
    using assms(3) by (simp add: entry_ok_def split: option.split)
  show "fdb_becomes br (fdb_lookup br) br' \<or> fdb_becomes br ((fdb_lookup br)(a := None)) br'
      \<or> fdb_becomes br ((fdb_lookup br)(a \<mapsto> new_entry br s a True True)) br'
        \<and> can_create env True br ((fdb_lookup br)(a := None))"
    using assms(2) by (auto simp: spec_insert_def Let_def split: if_splits option.splits)
qed

lemma spec_adddel_static_wf:
  assumes "fdb_wf br" "fdb_becomes br (snd (spec_adddel_static env n a add br (fdb_lookup br))) br'"
    and "n \<in> set (port_nos br)"
  shows "fdb_wf br'"
proof (rule fdb_replace_wf [OF assms(1)])
  show "entry_ok br (new_entry br (Some n) a False True)" using assms(3) by (simp add: entry_ok_def)
  show "fdb_becomes br (fdb_lookup br) br' \<or> fdb_becomes br ((fdb_lookup br)(a := None)) br'
      \<or> fdb_becomes br ((fdb_lookup br)(a \<mapsto> new_entry br (Some n) a False True)) br'
        \<and> can_create env True br ((fdb_lookup br)(a := None))"
    using assms(2) by (auto simp: spec_adddel_static_def Let_def split: if_splits option.splits)
qed

lemma spec_learn_wf:
  assumes "fdb_wf br" "fdb_becomes br (spec_learn env n a br (fdb_lookup br)) br'" "n \<in> set (port_nos br)"
  shows "fdb_wf br'"
proof (cases "fdb_lookup br a")
  case None
  have ok: "entry_ok br (new_entry br (Some n) a False False)" using assms(3) by (simp add: entry_ok_def)
  show ?thesis
    using assms(2) fdb_becomes_grow [OF assms(1) _ fdb_wf_map [OF assms(1)] ok]
      fdb_becomes_shrink [OF assms(1) _ subset_refl] fdb_wf_map(2) [OF assms(1)]
    by (auto simp: spec_learn_def None can_create_def split: if_splits)
next
  case (Some f)
  have ok: "entry_ok br (f\<lparr>f_dst := Some n, f_updated := t\<rparr>)" for t
    using fdb_wf_map(2) [OF assms(1) Some] assms(3) by (simp add: entry_ok_def)
  show ?thesis
    using assms(2) Some ok fdb_wf_map(2) [OF assms(1)]
    by (intro fdb_becomes_shrink [OF assms(1,2)]) (auto simp: spec_learn_def split: if_splits)
qed

lemma fdb_wf_bridge_core:
  assumes "bridge_core br' = bridge_core br"
  shows "fdb_wf br' = fdb_wf br" "fdb_lookup br' = fdb_lookup br"
proof -
  note c = bridge_core_eqD [OF assms]
  show l: "fdb_lookup br' = fdb_lookup br" using c by (intro fdb_lookup_cong) simp_all
  have "fdb_table br' = fdb_table br" using c by (intro fdb_table_cong) simp_all
  moreover have "entry_ok br' f = entry_ok br f" for f
    using c(1) by (simp add: entry_ok_def split: option.split)
  ultimately show "fdb_wf br' = fdb_wf br" using l c by (simp add: fdb_wf_def)
qed

lemma fdb_becomes_stp_wf: "fdb_becomes br m br' \<Longrightarrow> stp_wf br' = stp_wf br"
  by (simp add: fdb_becomes_def fdb_core_eq_derived(4) [of br' br])

lemma fdb_insert_wf:
  assumes "fdb_wf br" "\<And>n. s = Some n \<Longrightarrow> n \<in> set (port_nos br)"
    and "s = None \<Longrightarrow> \<forall>f. fdb_lookup br a = Some f \<longrightarrow> f_is_local f"
  shows "runs (fdb_insert env s a br) (\<lambda>(r, br'). fdb_wf br' \<and> fdb_core br' = fdb_core br)"
  by (rule runs_mono [OF fdb_insert_runs [OF assms]])
    (use spec_insert_wf [OF assms(1) _ assms(2)] in \<open>auto simp: fdb_becomes_core(1)\<close>)

lemma br_fdb_update_wf:
  assumes wf: "fdb_wf br" "stp_wf br" and n: "n \<in> set (port_nos br)"
  shows "runs (br_fdb_update env n a br) (\<lambda>br'. fdb_wf br' \<and> stp_wf br')"
proof -
  obtain p where p: "br_get_port br n = Some p" using br_get_port_ex [OF n] by blast
  let ?learns = "p_state p = BR_STATE_LEARNING \<or> p_state p = BR_STATE_FORWARDING"
  consider "hold_time br = 0 \<or> \<not> ?learns"
    | f where "hold_time br \<noteq> 0" ?learns "fdb_lookup br a = Some f" "f_is_local f"
    | "hold_time br \<noteq> 0" ?learns "\<forall>f. fdb_lookup br a = Some f \<longrightarrow> \<not> f_is_local f"
    by blast
  then show ?thesis
  proof cases
    case 1
    then show ?thesis using wf p by (auto simp: br_fdb_update_def)
  next
    case 2
    have keep: "fdb_wf br' \<and> stp_wf br'" if "bridge_core br' = bridge_core br" for br'
      using wf stp_wf_cong [OF that] fdb_wf_bridge_core(1) [OF that] by simp
    have "runs (br_make_blocking n br) (\<lambda>br'. fdb_wf br' \<and> stp_wf br')"
      by (rule runs_mono [OF br_make_blocking_runs [OF wf(2) n]]) (simp add: keep)
    then have "runs (fdb_local_source env n br) (\<lambda>br'. fdb_wf br' \<and> stp_wf br')"
      using wf p by (auto simp: fdb_local_source_def br_loopback_detected_def)
    with 2 p show ?thesis by (auto simp: br_fdb_update_def fdb_find_rcu_lookup)
  next
    case 3
    show ?thesis
      by (rule runs_mono [OF br_fdb_update_runs [OF wf(1) p 3(2,1,3)]])
        (use wf(2) in \<open>auto dest: spec_learn_wf [OF wf(1) _ n] fdb_becomes_stp_wf\<close>)
  qed
qed

section \<open>Changing addresses\<close>

lemma br_fdb_changeaddr_wf:
  assumes wf: "fdb_wf br" and n: "n \<in> set (port_nos br)"
  shows "runs (br_fdb_changeaddr env n a br) (\<lambda>br'. fdb_wf br' \<and> fdb_core br' = fdb_core br)"
proof -
  let ?Q = "\<lambda>br'. fdb_wf br' \<and> fdb_core br' = fdb_core br"
  note m = fdb_wf_map [OF wf]
  have t: "fdb_table br" using wf by (simp add: fdb_wf_def)
  have first: "runs (case find (\<lambda>f. f_dst f = Some n \<and> f_is_local f) (all_entries br) of
      None \<Rightarrow> Some br
    | Some f \<Rightarrow> (case other_port_with n (f_addr f) br of
        Some op \<Rightarrow> Some (fdb_store (f_addr f) (\<lambda>f. f\<lparr>f_dst := Some (p_port_no op)\<rparr>) br)
      | None \<Rightarrow> fdb_delete env f br)) ?Q"
  proof (cases "find (\<lambda>f. f_dst f = Some n \<and> f_is_local f) (all_entries br)")
    case (Some f)
    have f: "fdb_lookup br (f_addr f) = Some f" "entry_ok br f"
      using find_eq_Some_D [OF Some] fdb.entries [OF t] fdb_lookup_addr [of br] m(2) by (auto simp: ran_def)
    have del: "runs (fdb_delete env f br) ?Q"
      by (rule runs_mono [OF fdb_delete_runs [OF t _ f(2)]])
        (use f(1) fdb_replace_wf [OF wf f(2), of _ "f_addr f"] in \<open>auto simp: fdb_becomes_def\<close>)
    have st: "?Q (fdb_store (f_addr f) (\<lambda>f. f\<lparr>f_dst := Some (p_port_no q)\<rparr>) br)"
      if "other_port_with n (f_addr f) br = Some q" for q
    proof -
      have "entry_ok br (f\<lparr>f_dst := Some (p_port_no q)\<rparr>)"
        using f(2) other_port_with_SomeD [OF that] by (auto simp: entry_ok_def port_nos_def)
      then have "fdb_wf (fdb_store (f_addr f) (\<lambda>f. f\<lparr>f_dst := Some (p_port_no q)\<rparr>) br)"
        using fdb_store_becomes [OF t f(1), of "\<lambda>f. f\<lparr>f_dst := Some (p_port_no q)\<rparr>"] f(1) m(2)
        by (intro fdb_becomes_shrink [OF wf]) (auto split: if_splits)
      then show ?thesis by simp
    qed
    show ?thesis using Some del st by (simp split: option.split)
  qed (use wf in simp)
  have ins: "runs (fdb_insert env (Some n) a br1) (\<lambda>(r, br'). ?Q br')" if "?Q br1" for br1
  proof -
    have "n \<in> set (port_nos br1)" using that n fdb_core_eq_derived(2) [of br1 br] by simp
    with that show ?thesis by (intro runs_mono [OF fdb_insert_wf]) auto
  qed
  show ?thesis
    unfolding br_fdb_changeaddr_def runs_bind
    by (rule runs_mono [OF first], rule runs_mono [OF ins]) auto
qed

lemma br_fdb_get_wf:
  assumes "fdb_wf br"
  shows "fdb_wf (snd (br_fdb_get env a br))" "fdb_core (snd (br_fdb_get env a br)) = fdb_core br"
proof -
  have b: "fdb_becomes br ((fdb_lookup br)(a := map_option (blog_refresh env) (fdb_lookup br a)))
      (snd (br_fdb_get env a br))"
    using br_fdb_get_becomes(2) assms by (simp add: fdb_wf_def)
  then show "fdb_core (snd (br_fdb_get env a br)) = fdb_core br" by (simp add: fdb_becomes_def)
  show "fdb_wf (snd (br_fdb_get env a br))"
    using fdb_wf_map(2) [OF assms]
    by (intro fdb_becomes_shrink [OF assms b]) (auto split: if_splits)
qed

lemma br_fdb_change_mac_address_wf:
  assumes wf: "fdb_wf br" and nl: "\<forall>f. fdb_lookup br a = Some f \<longrightarrow> f_is_local f"
  shows "runs (br_fdb_change_mac_address env a br) (\<lambda>br'. fdb_wf br' \<and> fdb_core br' = fdb_core br)"
proof -
  let ?Q = "\<lambda>br'. fdb_wf br' \<and> fdb_core br' = fdb_core br \<and> (\<forall>f. fdb_lookup br' a = Some f \<longrightarrow> f_is_local f)"
  have t: "fdb_table br" using wf by (simp add: fdb_wf_def)
  obtain f br1 where g: "br_fdb_get env (dev_addr (b_dev br)) br = (f, br1)" by fastforce
  note b = br_fdb_get_becomes [OF t, where env = env and a = "dev_addr (b_dev br)", unfolded g fst_conv snd_conv]
  have 1: "?Q br1"
    using br_fdb_get_wf [OF wf, where env = env and a = "dev_addr (b_dev br)"] nl b(2) g
    by (auto simp: fdb_becomes_def split: if_splits)
  have del: "runs (fdb_delete env h br1) ?Q" if "f = Some h" for h
  proof -
    have h: "fdb_lookup br1 (f_addr h) = Some h"
      using that b fdb_lookup_addr [of br "dev_addr (b_dev br)"]
      by (auto simp: fdb_becomes_def bind_eq_Some_conv split: if_splits)
    have ok: "entry_ok br1 h" using fdb_wf_map(2) [OF _ h] 1 by blast
    have t1: "fdb_table br1" using 1 by (simp add: fdb_wf_def)
    show ?thesis
      by (rule runs_mono [OF fdb_delete_runs [OF t1 _ ok]])
        (use 1 h fdb_replace_wf [OF _ ok, of _ "f_addr h"] in \<open>auto simp: fdb_becomes_def split: if_splits\<close>)
  qed
  have ins: "runs (fdb_insert env None a br2) (\<lambda>(r, br'). fdb_wf br' \<and> fdb_core br' = fdb_core br)" if "?Q br2" for br2
    using that by (intro runs_mono [OF fdb_insert_wf]) auto
  have "runs (case f of None \<Rightarrow> Some br1 | Some f \<Rightarrow> if f_is_local f \<and> f_dst f = None then fdb_delete env f br1 else Some br1) ?Q"
    using 1 del by (simp split: option.split)
  then show ?thesis
    unfolding br_fdb_change_mac_address_def g Let_def prod.case runs_bind
    by (rule runs_mono) (rule runs_mono [OF ins], auto)
qed

end
