(* ===== verification/Fdb_Props.thy ===== *)
theory Fdb_Props
  imports Fdb_Ops
begin

text \<open>
  The properties of the forwarding database, each over the definitions of theory \<open>Fdb\<close>.
\<close>

section \<open>An example environment\<close>

definition example_env :: br_env where
  "example_env = \<lparr>env_alloc = True, env_mc_fdb_alloc = True, env_mc_rep_alloc = True,
     env_portno_alloc = True, env_port_alloc = True, env_skb_clone = (\<lambda>_. True), env_skb_share = True, env_ratelimit = False,
     env_blog_query = (\<lambda>_. None), env_wl_hook = None, env_dhd_hook = None, env_clear_arl = True,
     env_mcast_blog_process = (\<lambda>e. Some (e, [])), env_mcpd_pid = True,
     env_mcpd_alloc = True, env_mcpd_admission = False, env_host_control = False, env_mld_forward = (\<lambda>_. False), env_path = (\<lambda>_. None),
     env_wifi_iso_forward = None, env_wifi_iso_local = None, env_dns_hijack = None,
     env_lan_ifname = (\<lambda>_. False), env_route_hook = None, env_nf = (\<lambda>_ _. True),
     env_pktc_tx = False, env_dhd_pktc = False, env_wl_pktc = False, env_ktime = 0,
     env_speed = (\<lambda>_. Some 1000), env_promiscuity = None, env_kobject = None, env_sysfs = None,
     env_set_master = None, env_rx_handler = None, env_stp_helper = 1,
     env_capable = True, env_dev = (\<lambda>i. if i = 1 \<or> i = 2 then Some (example_dev (of_nat i)) else None), env_kmalloc = True\<rparr>"

definition example_mac :: mac_addr where
  "example_mac = Mac 0 0x11 0x22 0x33 0x44 0x55"

lemma example_valid [simp]: "is_valid_ether_addr example_mac"
  by code_simp

lemma example_lookup [simp]: "fdb_lookup example_bridge = (\<lambda>_. None)"
  by (simp add: fun_eq_iff fdb_lookup_def fdb_find_def example_bridge_def)

lemma example_table [simp]: "fdb_table example_bridge"
  by (simp add: fdb_table_def all_entries_def buckets_def example_bridge_def comp_def map_replicate_const)

lemma example_fdb_wf [simp]: "fdb_wf example_bridge"
  by (simp add: fdb_wf_def BR_MAX_FDB_ENTRIES_def) (simp add: example_bridge_def)

text \<open>The example bridge with port 1 forwarding.\<close>

definition example_forwarding :: net_bridge where
  "example_forwarding = upd_port 1 (\<lambda>p. p\<lparr>p_state := BR_STATE_FORWARDING\<rparr>) example_bridge"

lemma example_forwarding_core: "bridge_core example_forwarding = bridge_core example_bridge"
  by (simp add: example_forwarding_def)

lemma example_forwarding_simps [simp]:
  "fdb_wf example_forwarding" "stp_wf example_forwarding" "fdb_lookup example_forwarding = (\<lambda>_. None)"
  "hold_time example_forwarding = 300000" "b_jiffies example_forwarding = 100000"
  "br_get_port example_forwarding 1 = Some ((example_port 1)\<lparr>p_state := BR_STATE_FORWARDING\<rparr>)"
  "port_nos example_forwarding = [2, 1]"
  using fdb_wf_bridge_core [OF example_forwarding_core] stp_wf_cong [OF example_forwarding_core]
  by (simp_all add: example_forwarding_def br_get_port_upd_port hold_time_def)
    (simp_all add: example_bridge_def)

section \<open>The table\<close>



section \<open>Learning and ageing\<close>

text \<open>C15: Learning refines its abstract specification. On a learning or forwarding port of a bridge
  that ages entries, \<open>br_fdb_update\<close> for a source address that is not the bridge's own never
  faults, changes the map exactly as \<open>spec_learn\<close> says (a known station moves to the port and is
  refreshed, an unknown one is added if there is room and memory), touches nothing but the
  database, and keeps the invariant: the entry's destination exists, at most 4096 entries.\<close>

theorem br_fdb_update_refines:
  assumes "fdb_wf br" "br_get_port br n = Some p" "hold_time br \<noteq> 0"
    and "p_state p = BR_STATE_LEARNING \<or> p_state p = BR_STATE_FORWARDING"
    and "\<forall>f. fdb_lookup br a = Some f \<longrightarrow> \<not> f_is_local f"
  shows "runs (br_fdb_update env n a br) (\<lambda>br'. fdb_wf br' \<and> fdb_core br' = fdb_core br
    \<and> fdb_lookup br' = spec_learn env n a br (fdb_lookup br))"
proof -
  have n: "n \<in> set (port_nos br)" using assms(2) br_get_port_eq_None_iff [of br n] by auto
  show ?thesis
    by (rule runs_mono [OF br_fdb_update_runs [OF assms(1,2,4,3,5)]])
      (auto dest: fdb_becomes_core spec_learn_wf [OF assms(1) _ n])
qed

theorem br_fdb_update_refines_witness:
  "runs (br_fdb_update example_env 1 example_mac example_forwarding) (\<lambda>br'. fdb_wf br'
    \<and> fdb_core br' = fdb_core example_forwarding
    \<and> fdb_lookup br' = spec_learn example_env 1 example_mac example_forwarding (fdb_lookup example_forwarding))"
  by (rule br_fdb_update_refines) (simp_all only: example_forwarding_simps, simp_all)

text \<open>A port that neither learns nor forwards teaches the bridge nothing: in the states disabled,
  blocking and listening a received frame does not change the bridge at all.\<close>

lemma no_learning_while_blocked:
  assumes "br_get_port br n = Some p" "p_state p \<noteq> BR_STATE_LEARNING" "p_state p \<noteq> BR_STATE_FORWARDING"
  shows "br_fdb_update env n a br = Some br"
  using assms by (simp add: br_fdb_update_def)

text \<open>C16: A newly learned station is found for exactly the hold time. After \<open>br_fdb_update\<close> has added
  an address, a lookup \<open>t\<close> jiffies later finds the station on the port it was seen on while
  \<open>t\<close> is less than the hold time, and finds nothing from then on, also when the jiffies counter
  wraps around in between (hold time and \<open>t\<close> below \<open>2^31\<close>).\<close>

theorem learned_for_hold_time:
  assumes wf: "fdb_wf br" and p: "br_get_port br n = Some p"
    and st: "p_state p = BR_STATE_LEARNING \<or> p_state p = BR_STATE_FORWARDING"
    and new: "fdb_lookup br a = None" and room: "can_create env False br (fdb_lookup br)"
    and bounds: "unat (hold_time br) < 2 ^ 31" "unat t < 2 ^ 31"
  shows "runs (br_fdb_update env n a br) (\<lambda>br'.
    fst (br_fdb_get env' a (br'\<lparr>b_jiffies := b_jiffies br + t\<rparr>))
      = (if t < hold_time br then Some (new_entry br (Some n) a False False) else None))"
proof -
  let ?f = "new_entry br (Some n) a False False"
  have h0: "hold_time br \<noteq> 0" using room by (simp add: can_create_def)
  have exp: "expired (br'\<lparr>b_jiffies := b_jiffies br + t\<rparr>) ?f \<longleftrightarrow> \<not> t < hold_time br"
    if "fdb_core br' = fdb_core br" for br'
  proof -
    have "hold_time (br'\<lparr>b_jiffies := b_jiffies br + t\<rparr>) = hold_time br"
      using fdb_core_eqD [OF that] by (simp add: hold_time_def)
    moreover have "time_before_eq (b_jiffies br + hold_time br) (b_jiffies br + t) \<longleftrightarrow> hold_time br \<le> t"
      using bounds by (simp add: time_before_eq_add_iff)
    ultimately show ?thesis by (simp add: expired_def not_less)
  qed
  have t': "fdb_table (br'\<lparr>b_jiffies := j\<rparr>) = fdb_table br'" "fdb_lookup (br'\<lparr>b_jiffies := j\<rparr>) = fdb_lookup br'" for br' j
    by (simp_all add: fdb_table_def fdb_lookup_def fun_eq_iff all_entries_def)
  show ?thesis
    by (rule runs_mono [OF br_fdb_update_runs [OF wf p st h0]])
      (use new room exp t' in \<open>auto simp: fdb_becomes_def br_fdb_get_becomes(1) spec_learn_def\<close>)
qed

theorem learned_for_hold_time_witness:
  "runs (br_fdb_update example_env 1 example_mac example_forwarding) (\<lambda>br'.
     fst (br_fdb_get example_env example_mac (br'\<lparr>b_jiffies := b_jiffies example_forwarding + 299999\<rparr>))
       = Some (new_entry example_forwarding (Some 1) example_mac False False))
   \<and> runs (br_fdb_update example_env 1 example_mac example_forwarding) (\<lambda>br'.
     fst (br_fdb_get example_env example_mac (br'\<lparr>b_jiffies := b_jiffies example_forwarding + 300000\<rparr>)) = None)"
  using learned_for_hold_time [of example_forwarding 1 "(example_port 1)\<lparr>p_state := BR_STATE_FORWARDING\<rparr>"
      example_mac example_env 299999 example_env]
    learned_for_hold_time [of example_forwarding 1 "(example_port 1)\<lparr>p_state := BR_STATE_FORWARDING\<rparr>"
      example_mac example_env 300000 example_env]
  by (simp add: can_create_def BR_MAX_FDB_ENTRIES_def example_env_def)

text \<open>C17: The garbage collector is a filter on the map: it always finishes without a fault, keeps
  static entries, keeps an entry whose last use (after asking the flow cache) is within the hold
  time, restarts the hold time of an expired station that a wireless driver still knows, removes
  the other expired ones, and arms its timer again.\<close>

theorem br_fdb_cleanup_ages:
  assumes "fdb_wf br"
  shows "runs (br_fdb_cleanup env br) (\<lambda>br'. fdb_wf br' \<and> timer_pending (b_gc_timer br')
    \<and> fdb_lookup br' = (\<lambda>a. case fdb_lookup br a of None \<Rightarrow> None | Some f \<Rightarrow>
        if f_is_static f then Some f
        else if \<not> expired br (blog_refresh env f) then Some (blog_refresh env f)
        else if wl_alive env a then Some (f\<lparr>f_updated := b_jiffies br\<rparr>)
        else None))"
proof -
  have t: "fdb_table (br'\<lparr>b_gc_timer := j\<rparr>) = fdb_table br'" "fdb_lookup (br'\<lparr>b_gc_timer := j\<rparr>) = fdb_lookup br'"
    "entry_ok (br'\<lparr>b_gc_timer := j\<rparr>) f = entry_ok br' f" for br' j f
    by (simp_all add: fdb_table_def fdb_lookup_def fun_eq_iff all_entries_def entry_ok_def
        port_nos_def split: option.split)
  show ?thesis
    by (rule runs_mono [OF br_fdb_cleanup_runs [OF assms]])
      (auto simp: t fdb_wf_def fdb_becomes_def aged_def fun_eq_iff fdb_lookup_addr split: option.split)
qed

theorem br_fdb_cleanup_ages_witness:
  "runs (br_fdb_cleanup example_env example_forwarding) (\<lambda>br'. fdb_wf br' \<and> timer_pending (b_gc_timer br'))"
  by (rule runs_mono [OF br_fdb_cleanup_ages]) simp_all

section \<open>Removing a port\<close>

text \<open>Deleting a port's entries leaves no reference to the port. After
  \<open>br_fdb_delete_by_port\<close> with \<open>do_all = 1\<close> no entry has the port as its destination, the
  entries of other ports are untouched, and an address that was local on that port is still
  local exactly when another port's device has the same address.\<close>

lemma br_fdb_delete_by_port_complete:
  assumes "fdb_wf br"
  shows "runs (br_fdb_delete_by_port env n 1 br) (\<lambda>br'. fdb_wf br'
    \<and> (\<forall>a f. fdb_lookup br' a = Some f \<longrightarrow> f_dst f \<noteq> Some n)
    \<and> (\<forall>a f. fdb_lookup br a = Some f \<and> f_dst f \<noteq> Some n \<longrightarrow> fdb_lookup br' a = Some f)
    \<and> (\<forall>a f. fdb_lookup br a = Some f \<and> f_dst f = Some n \<longrightarrow>
         (fdb_lookup br' a \<noteq> None \<longleftrightarrow>
            f_is_local f \<and> (\<exists>p \<in> set (b_port_list br). p_port_no p \<noteq> n \<and> dev_addr (p_dev p) = a))))"
proof -
  have some: "(\<exists>op. other_port_with n a br = Some op)
      \<longleftrightarrow> (\<exists>p \<in> set (b_port_list br). p_port_no p \<noteq> n \<and> dev_addr (p_dev p) = a)" for a
    by (auto simp: other_port_with_def find_None_iff simp flip: not_None_eq)
  have new: "f_dst f \<noteq> Some n" if "port_deleted n 1 br g = Some f" for f g
    using that by (auto simp: port_deleted_def dest!: other_port_with_SomeD split: if_splits)
  have gone: "(\<exists>g. port_deleted n 1 br f = Some g) \<longleftrightarrow>
      f_is_local f \<and> (\<exists>p \<in> set (b_port_list br). p_port_no p \<noteq> n \<and> dev_addr (p_dev p) = a)"
    if "fdb_lookup br a = Some f" "f_dst f = Some n" for a f
    using that fdb_lookup_addr [OF that(1)] by (simp add: port_deleted_def some)
  show ?thesis
    by (rule runs_mono [OF br_fdb_delete_by_port_runs [OF assms]])
      (auto simp: fdb_becomes_def bind_eq_Some_conv gone [unfolded One_nat_def] new, simp add: port_deleted_def)
qed

section \<open>Static entries and the bridge's own address\<close>

text \<open>C18: Every outcome of adding or deleting a static entry. A multicast or zero address is refused
  with EINVAL and nothing changes; adding over an existing static entry changes nothing; a full
  table, or no memory, gives ENOMEM and the old dynamic entry is gone by then; deleting removes
  whatever entry the address has; otherwise the new static entry replaces the old one.\<close>

theorem fdb_adddel_static_outcomes:
  assumes "fdb_wf br" "n \<in> set (port_nos br)"
  shows "runs (br_fdb_adddel_static env n a add br) (\<lambda>(r, br'). fdb_wf br' \<and>
    (if \<not> is_valid_ether_addr a then r = Some EINVAL \<and> fdb_lookup br' = fdb_lookup br
     else if add \<and> (\<exists>f. fdb_lookup br a = Some f \<and> f_is_static f) then r = None \<and> fdb_lookup br' = fdb_lookup br
     else if \<not> add then r = None \<and> fdb_lookup br' = (fdb_lookup br)(a := None)
     else if card (dom (fdb_lookup br) - {a}) < 4096 \<and> env_alloc env
     then r = None \<and> fdb_lookup br' = (fdb_lookup br)(a \<mapsto> new_entry br (Some n) a False True)
     else r = Some ENOMEM \<and> fdb_lookup br' = (fdb_lookup br)(a := None)))"
proof -
  let ?spec = "spec_adddel_static env n a add br (fdb_lookup br)"
  have d: "dom (fdb_lookup br) - {a} = dom ((fdb_lookup br)(a := None))" by auto
  have "runs (br_fdb_adddel_static env n a add br) (\<lambda>(r, br'). fdb_wf br' \<and> r = fst ?spec \<and> fdb_lookup br' = snd ?spec)"
    unfolding br_fdb_adddel_static_def
    by (rule runs_mono [OF fdb_adddel_static_runs [OF assms]])
      (use spec_adddel_static_wf [OF assms(1) _ assms(2)] in \<open>auto simp: fdb_becomes_core(3)\<close>)
  then show ?thesis
    unfolding d by (rule runs_mono)
      (auto simp: spec_adddel_static_def can_create_def Let_def BR_MAX_FDB_ENTRIES_def split: option.split)
qed

theorem fdb_adddel_static_outcomes_witness:
  "runs (br_fdb_adddel_static example_env 1 example_mac True example_forwarding) (\<lambda>(r, br').
     r = None \<and> fdb_lookup br' example_mac = Some (new_entry example_forwarding (Some 1) example_mac False True))"
  by (rule runs_mono [OF fdb_adddel_static_outcomes])
    (auto simp: example_env_def example_valid)



end
