(* ===== verification/Fdb_Netlink.thy ===== *)
theory Fdb_Netlink
  imports Fdb_Props
begin

text \<open>
  The forwarding database as user space sees it: the netlink requests RTM_NEWNEIGH and
  RTM_DELNEIGH (\<open>br_fdb_add\<close>, \<open>br_fdb_delete\<close>) and the dump of the table into a buffer
  (\<open>br_fdb_fillbuf\<close>).

  A request is given as the fields the code takes out of the message: the result of
  \<open>nlmsg_parse\<close> (or of the length test of RTM_DELNEIGH), the fixed header and the NDA_LLADDR
  attribute. Which interface indices exist besides the ports of the bridge is the argument
  \<open>other_dev\<close>; a port of another bridge is not one of this bridge's requests.
\<close>

section \<open>Requests\<close>

record nd_request =
  nd_parse :: result
  nd_ifindex :: nat
  nd_lladdr :: "u8 list option"
  nd_state :: u16
  nd_flags :: u8
  nd_nlmsg_flags :: u16

definition NLM_F_EXCL :: u16 where "NLM_F_EXCL = 0x200"
definition NLM_F_CREATE :: u16 where "NLM_F_CREATE = 0x400"
definition NTF_USE :: u8 where "NTF_USE = 1"

fun mac_of_bytes :: "u8 list \<Rightarrow> mac_addr option" where
  "mac_of_bytes [a, b, c, d, e, f] = Some (Mac a b c d e f)"
| "mac_of_bytes _ = None"

definition port_by_ifindex :: "nat \<Rightarrow> net_bridge \<Rightarrow> net_bridge_port option" where
  "port_by_ifindex i br = find (\<lambda>p. dev_ifindex (p_dev p) = i) (b_port_list br)"

definition dev_get_by_index :: "(nat \<Rightarrow> bool) \<Rightarrow> nat \<Rightarrow> net_bridge \<Rightarrow> bool" where
  "dev_get_by_index other_dev i br \<longleftrightarrow>
     port_by_ifindex i br \<noteq> None \<or> dev_ifindex (b_dev br) = i \<or> other_dev i"

text \<open>The flags of an entry for a requested state.\<close>

definition nud_entry :: "u16 \<Rightarrow> u32 \<Rightarrow> net_bridge_fdb_entry \<Rightarrow> net_bridge_fdb_entry" where
  "nud_entry state now f =
     (let f = (if and state NUD_PERMANENT \<noteq> 0 then f\<lparr>f_is_local := True, f_is_static := True\<rparr>
               else if and state NUD_NOARP \<noteq> 0 then f\<lparr>f_is_local := False, f_is_static := True\<rparr>
               else f\<lparr>f_is_local := False, f_is_static := False\<rparr>)
      in f\<lparr>f_updated := now, f_used := now\<rparr>)"

definition fdb_add_entry ::
  "br_env \<Rightarrow> u16 \<Rightarrow> mac_addr \<Rightarrow> u16 \<Rightarrow> u16 \<Rightarrow> net_bridge \<Rightarrow> (result \<times> net_bridge) option" where
  "fdb_add_entry env source addr state flags br = do {
     (err, br) \<leftarrow> (case fdb_lookup br addr of
         None \<Rightarrow>
           if and flags NLM_F_CREATE = 0 then Some (Some ENOENT, br)
           else (case fdb_create env (Some source) addr False False br of
               (None, br) \<Rightarrow> Some (Some ENOMEM, br)
             | (Some f, br) \<Rightarrow> do { br \<leftarrow> fdb_notify_new env f br; Some (None, br) })
       | Some f \<Rightarrow> Some (if and flags NLM_F_EXCL \<noteq> 0 then Some EEXIST else None, br));
     if err \<noteq> None then Some (err, br)
     else do {
       fdb \<leftarrow> fdb_lookup br addr;
       (nud, fdb) \<leftarrow> fdb_to_nud env fdb br;
       let br = fdb_store addr (\<lambda>_. fdb) br;
       if nud \<noteq> state then do {
         let fdb = nud_entry state (b_jiffies br) fdb;
         br \<leftarrow> fdb_notify_new env fdb (fdb_store addr (\<lambda>_. fdb) br);
         Some (None, br)
       }
       else Some (None, br)
     }
   }"

definition br_fdb_add ::
  "br_env \<Rightarrow> (nat \<Rightarrow> bool) \<Rightarrow> nd_request \<Rightarrow> net_bridge \<Rightarrow> (result \<times> net_bridge) option" where
  "br_fdb_add env other_dev ndm br =
     (if nd_parse ndm \<noteq> None then Some (nd_parse ndm, br)
      else if nd_ifindex ndm = 0 then Some (Some EINVAL, br)
      else if \<not> dev_get_by_index other_dev (nd_ifindex ndm) br then Some (Some ENODEV, br)
      else case Option.bind (nd_lladdr ndm) mac_of_bytes of
        None \<Rightarrow> Some (Some EINVAL, br)
      | Some addr \<Rightarrow>
          if \<not> is_valid_ether_addr addr then Some (Some EINVAL, br)
          else if and (nd_state ndm) (or (or NUD_PERMANENT NUD_NOARP) NUD_REACHABLE) = 0
          then Some (Some EINVAL, br)
          else (case port_by_ifindex (nd_ifindex ndm) br of
              None \<Rightarrow> Some (Some EINVAL, br)
            | Some p \<Rightarrow>
                if and (nd_flags ndm) NTF_USE \<noteq> 0
                then do { br \<leftarrow> br_fdb_update env (p_port_no p) addr br; Some (None, br) }
                else fdb_add_entry env (p_port_no p) addr (nd_state ndm) (nd_nlmsg_flags ndm) br))"

definition fdb_delete_by_addr ::
  "br_env \<Rightarrow> mac_addr \<Rightarrow> net_bridge \<Rightarrow> (result \<times> net_bridge) option" where
  "fdb_delete_by_addr env addr br =
     (case fdb_lookup br addr of
        None \<Rightarrow> Some (Some ENOENT, br)
      | Some f \<Rightarrow> do { br \<leftarrow> fdb_delete env f br; Some (None, br) })"

definition br_fdb_delete ::
  "br_env \<Rightarrow> (nat \<Rightarrow> bool) \<Rightarrow> nd_request \<Rightarrow> net_bridge \<Rightarrow> (result \<times> net_bridge) option" where
  "br_fdb_delete env other_dev ndm br =
     (if nd_parse ndm \<noteq> None then Some (Some EINVAL, br)
      else if nd_ifindex ndm = 0 then Some (Some EINVAL, br)
      else if \<not> dev_get_by_index other_dev (nd_ifindex ndm) br then Some (Some ENODEV, br)
      else case Option.bind (nd_lladdr ndm) mac_of_bytes of
        None \<Rightarrow> Some (Some EINVAL, br)
      | Some addr \<Rightarrow>
          if port_by_ifindex (nd_ifindex ndm) br = None then Some (Some EINVAL, br)
          else fdb_delete_by_addr env addr br)"

section \<open>Dumping the table\<close>

definition TICK_NSEC :: nat where "TICK_NSEC = 1000000"

text \<open>With \<open>HZ\<close> 1000 and \<open>USER_HZ\<close> 100, \<open>TICK_NSEC\<close> is not a multiple of \<open>NSEC_PER_SEC / USER_HZ\<close>;
  the 64-bit quotient is cut to a \<open>clock_t\<close>.\<close>

definition jiffies_to_clock_t :: "u32 \<Rightarrow> u32" where
  "jiffies_to_clock_t x = of_nat (unat x * TICK_NSEC div (1000000000 div 100))"

record user_fdb_entry =
  fe_mac_addr :: mac_addr
  fe_port_no :: u8
  fe_is_local :: bool
  fe_ageing_timer_value :: u32
  fe_port_hi :: u8

definition fdb_user_entry :: "net_bridge \<Rightarrow> net_bridge_fdb_entry \<Rightarrow> u16 \<Rightarrow> user_fdb_entry" where
  "fdb_user_entry br f dst =
     \<lparr>fe_mac_addr = f_addr f, fe_port_no = ucast dst, fe_is_local = f_is_local f,
      fe_ageing_timer_value =
        (if f_is_static f then 0 else jiffies_to_clock_t (b_jiffies br - f_updated f)),
      fe_port_hi = ucast (drop_bit 8 dst)\<rparr>"

text \<open>The loop over the entries; the argument \<open>maxnum\<close> is the number of entries that still fit.\<close>

fun fillbuf_entries ::
  "br_env \<Rightarrow> nat \<Rightarrow> nat \<Rightarrow> net_bridge_fdb_entry list \<Rightarrow> net_bridge
    \<Rightarrow> (user_fdb_entry list \<times> net_bridge) option" where
  "fillbuf_entries env maxnum skip [] br = Some ([], br)"
| "fillbuf_entries env maxnum skip (f # fs) br =
     (if maxnum = 0 then Some ([], br)
      else
        let (e, br) = has_expired env f br in
        if e then fillbuf_entries env maxnum skip fs br
        else case f_dst f of
          None \<Rightarrow> fillbuf_entries env maxnum skip fs br
        | Some dst \<Rightarrow>
            if skip > 0 then fillbuf_entries env maxnum (skip - 1) fs br
            else do {
              p \<leftarrow> br_get_port br dst;
              (fes, br') \<leftarrow> fillbuf_entries env (maxnum - 1) skip fs br;
              Some (fdb_user_entry br (blog_refresh env f) (p_port_no p) # fes, br')
            })"

definition br_fdb_fillbuf ::
  "br_env \<Rightarrow> nat \<Rightarrow> nat \<Rightarrow> net_bridge \<Rightarrow> (user_fdb_entry list \<times> net_bridge) option" where
  "br_fdb_fillbuf env maxnum skip br = fillbuf_entries env maxnum skip (all_entries br) br"

section \<open>The requests keep the invariant\<close>

text \<open>Two entries that differ at most in their times and their flow-cache key.\<close>

definition same_entry :: "net_bridge_fdb_entry \<Rightarrow> net_bridge_fdb_entry \<Rightarrow> bool" where
  "same_entry g f \<longleftrightarrow> f_addr g = f_addr f \<and> f_dst g = f_dst f \<and> f_is_local g = f_is_local f
     \<and> f_is_static g = f_is_static f"

lemma same_entry_simps [simp]: "same_entry f f" "same_entry (blog_refresh env g) f = same_entry g f"
  by (simp_all add: same_entry_def)

lemma same_entry_ok: "same_entry g f \<Longrightarrow> entry_ok br g = entry_ok br f"
  by (simp add: same_entry_def entry_ok_def split: option.split)

definition nud_flags :: "u16 \<Rightarrow> net_bridge_fdb_entry \<Rightarrow> bool" where
  "nud_flags state f \<longleftrightarrow> f_is_local f = (and state NUD_PERMANENT \<noteq> 0)
     \<and> f_is_static f = (and state (or NUD_PERMANENT NUD_NOARP) \<noteq> 0)"

lemma fdb_to_nud_runs:
  assumes "entry_ok br f"
  shows "runs (fdb_to_nud env f br) (\<lambda>(nud, g). same_entry g f \<and> nud_flags nud g)"
proof -
  have "\<exists>p. br_get_port br n = Some p" if "f_dst f = Some n" for n
    using assms that br_get_port_ex by (simp add: entry_ok_def)
  then show ?thesis
    using assms by (cases "f_dst f") (auto simp: fdb_to_nud_def entry_ok_def Let_def nud_flags_def
      NUD_PERMANENT_def NUD_NOARP_def NUD_STALE_def NUD_REACHABLE_def)
qed

lemma fdb_fill_info_same:
  assumes "entry_ok br f"
  shows "runs (fdb_fill_info env f br) (\<lambda>(i, g). same_entry g f)"
proof -
  have "\<exists>p. br_get_port br n = Some p" if "f_dst f = Some n" for n
    using assms that br_get_port_ex by (simp add: entry_ok_def)
  then show ?thesis
    using fdb_to_nud_runs [OF assms, of env]
    by (cases "f_dst f") (auto simp: fdb_fill_info_def split_beta elim!: runs_mono)
qed

lemma fdb_notify_new_same:
  assumes "fdb_table br" "fdb_lookup br (f_addr f) = Some h" "entry_ok br f"
  shows "runs (fdb_notify_new env f br)
    (\<lambda>br'. \<exists>g. same_entry g f \<and> fdb_becomes br ((fdb_lookup br)(f_addr f \<mapsto> g)) br')"
  using fdb_fill_info_same [OF assms(3), of env] fdb_store_becomes [OF assms(1,2)]
  by (fastforce simp: fdb_notify_new_def same_entry_def elim!: runs_mono)

lemma fdb_becomes_upd_wf:
  assumes wf: "fdb_wf br" and b: "fdb_becomes br ((fdb_lookup br)(a \<mapsto> g)) br'" and ok: "entry_ok br g"
    and "fdb_lookup br a \<noteq> None \<or> can_create env t br (fdb_lookup br)"
  shows "fdb_wf br'"
  using assms(4)
proof
  assume "fdb_lookup br a \<noteq> None"
  then show ?thesis
    using fdb_wf_map(2) [OF wf] ok by (intro fdb_becomes_shrink [OF wf b]) (auto split: if_splits)
next
  assume "can_create env t br (fdb_lookup br)"
  then show ?thesis
    using fdb_wf_map [OF wf] ok by (intro fdb_becomes_grow [OF wf b]) (simp_all add: can_create_def)
qed

definition add_error :: "br_env \<Rightarrow> mac_addr \<Rightarrow> u16 \<Rightarrow> net_bridge \<Rightarrow> result" where
  "add_error env addr flags br =
     (case fdb_lookup br addr of
        None \<Rightarrow>
          if and flags NLM_F_CREATE = 0 then Some ENOENT
          else if \<not> can_create env False br (fdb_lookup br) then Some ENOMEM else None
      | Some f \<Rightarrow> if and flags NLM_F_EXCL \<noteq> 0 then Some EEXIST else None)"

text \<open>The first half of \<open>fdb_add_entry\<close>: find the entry or create it.\<close>

lemma add_entry_find:
  assumes wf: "fdb_wf br" and n: "n \<in> set (port_nos br)"
  shows "runs (case fdb_lookup br a of
         None \<Rightarrow>
           if and flags NLM_F_CREATE = 0 then Some (Some ENOENT, br)
           else (case fdb_create env (Some n) a False False br of
               (None, br) \<Rightarrow> Some (Some ENOMEM, br)
             | (Some f, br) \<Rightarrow> do { br \<leftarrow> fdb_notify_new env f br; Some (None, br) })
       | Some f \<Rightarrow> Some (if and flags NLM_F_EXCL \<noteq> 0 then Some EEXIST else None, br))
    (\<lambda>(err, br1). err = add_error env a flags br
      \<and> (if err = None
         then \<exists>f. fdb_becomes br ((fdb_lookup br)(a \<mapsto> f)) br1 \<and> entry_ok br f \<and> f_addr f = a
           \<and> f_dst f = (case fdb_lookup br a of None \<Rightarrow> Some n | Some f \<Rightarrow> f_dst f)
         else br1 = br))"
proof (cases "fdb_lookup br a")
  case None
  let ?f = "new_entry br (Some n) a False False"
  have t: "fdb_table br" using wf by (simp add: fdb_wf_def)
  have ok: "entry_ok br ?f" using n by (simp add: entry_ok_def)
  from fdb_create_notify_runs [OF t None ok, of env] t None ok show ?thesis
    by (auto simp: add_error_def fdb_create_eq elim!: runs_mono intro!: exI [of _ ?f])
next
  case (Some f)
  then show ?thesis
    using wf fdb_wf_map(2) [OF wf Some] fdb_lookup_addr [OF Some] fdb_becomes_refl [of br]
    by (auto simp: add_error_def fdb_wf_def fun_upd_idem intro!: exI [of _ f])
qed

lemma nud_entry_fields [simp]:
  "f_addr (nud_entry s t f) = f_addr f" "f_dst (nud_entry s t f) = f_dst f"
  "f_is_local (nud_entry s t f) = (and s NUD_PERMANENT \<noteq> 0)"
  "f_is_static (nud_entry s t f) = (and s (or NUD_PERMANENT NUD_NOARP) \<noteq> 0)"
  by (simp_all add: nud_entry_def bit.conj_disj_distrib or_eq_0_word_iff)

text \<open>The second half: set the flags.\<close>

lemma add_entry_set:
  assumes wf: "fdb_wf br1" and f: "fdb_lookup br1 a = Some f"
    and safe: "f_dst f \<noteq> None \<or> and state NUD_PERMANENT \<noteq> 0"
  shows "runs (do {
       fdb \<leftarrow> fdb_lookup br1 a;
       (nud, fdb) \<leftarrow> fdb_to_nud env fdb br1;
       let br = fdb_store a (\<lambda>_. fdb) br1;
       if nud \<noteq> state then do {
         let fdb = nud_entry state (b_jiffies br) fdb;
         br \<leftarrow> fdb_notify_new env fdb (fdb_store a (\<lambda>_. fdb) br);
         Some (None, br)
       }
       else Some (None, br)
     }) (\<lambda>(r, br'). r = (None :: result) \<and> (\<exists>g. fdb_becomes br1 ((fdb_lookup br1)(a \<mapsto> g)) br'
       \<and> entry_ok br1 g \<and> f_dst g = f_dst f \<and> nud_flags state g))"
proof -
  have wf1: "fdb_table br1" "entry_ok br1 f" "f_addr f = a"
    using wf fdb_wf_map(2) [OF wf f] fdb_lookup_addr [OF f] by (simp_all add: fdb_wf_def)
  obtain nud g where g: "fdb_to_nud env f br1 = Some (nud, g)" "same_entry g f" "nud_flags nud g"
    using fdb_to_nud_runs [OF wf1(2), of env] by (auto simp: runs_iff_ex)
  let ?br = "fdb_store a (\<lambda>_. g) br1"
  let ?h = "nud_entry state (b_jiffies ?br) g"
  let ?br2 = "fdb_store a (\<lambda>_. ?h) ?br"
  have b: "fdb_becomes br1 ((fdb_lookup br1)(a \<mapsto> g)) ?br"
    using fdb_store_becomes [OF wf1(1) f, of "\<lambda>_. g"] g(2) wf1(3) by (simp add: same_entry_def)
  have b2: "fdb_becomes br1 ((fdb_lookup br1)(a \<mapsto> ?h)) ?br2"
    using fdb_store_becomes [of ?br a g "\<lambda>_. ?h"] fdb_becomes_core [OF b] fdb_becomes_trans [OF b] g(2) wf1(3)
    by (simp add: same_entry_def)
  have ok: "entry_ok br1 g" using wf1(2) same_entry_ok [OF g(2)] by simp
  have okh: "entry_ok br1 ?h"
    using ok g(2) safe by (auto simp: entry_ok_def same_entry_def or_eq_0_word_iff bit.conj_disj_distrib
      split: option.splits)
  have h: "fdb_table ?br2" "fdb_lookup ?br2 (f_addr ?h) = Some ?h" "entry_ok ?br2 ?h"
    using fdb_becomes_core [OF b2] g(2) wf1(3) okh entry_ok_cong [of ?br2 br1]
    by (simp_all add: same_entry_def)
  have last: "runs (fdb_notify_new env ?h ?br2) (\<lambda>br'. \<exists>g. fdb_becomes br1 ((fdb_lookup br1)(a \<mapsto> g)) br'
      \<and> entry_ok br1 g \<and> f_dst g = f_dst f \<and> nud_flags state g)"
  proof (rule runs_mono [OF fdb_notify_new_same [OF h]], elim exE conjE)
    fix br' k
    assume k: "same_entry k ?h" and b3: "fdb_becomes ?br2 ((fdb_lookup ?br2)(f_addr ?h \<mapsto> k)) br'"
    have "fdb_becomes br1 ((fdb_lookup br1)(a \<mapsto> k)) br'"
      using fdb_becomes_trans [OF b2 b3] fdb_becomes_core(3) [OF b2] g(2) wf1(3) by (simp add: same_entry_def)
    moreover have "entry_ok br1 k" using okh same_entry_ok [OF k] by simp
    moreover have "f_dst k = f_dst f" "nud_flags state k"
      using k g(2) by (simp_all add: same_entry_def nud_flags_def)
    ultimately show "\<exists>g. fdb_becomes br1 ((fdb_lookup br1)(a \<mapsto> g)) br' \<and> entry_ok br1 g
        \<and> f_dst g = f_dst f \<and> nud_flags state g" by blast
  qed
  show ?thesis
  proof (cases "nud = state")
    case True
    with b ok g f show ?thesis by (auto simp: same_entry_def)
  next
    case False
    with last g f show ?thesis by (auto simp: Let_def elim!: runs_mono)
  qed
qed

lemma fdb_add_entry_runs:
  assumes wf: "fdb_wf br" and n: "n \<in> set (port_nos br)"
    and safe: "\<And>f. fdb_lookup br a = Some f \<Longrightarrow> f_dst f \<noteq> None \<or> and state NUD_PERMANENT \<noteq> 0"
  shows "runs (fdb_add_entry env n a state flags br) (\<lambda>(r, br'). r = add_error env a flags br
    \<and> fdb_wf br' \<and> fdb_core br' = fdb_core br
    \<and> (if r = None
       then \<exists>g. fdb_lookup br' = (fdb_lookup br)(a \<mapsto> g) \<and> nud_flags state g
         \<and> f_dst g = (case fdb_lookup br a of None \<Rightarrow> Some n | Some f \<Rightarrow> f_dst f)
       else br' = br))" (is "runs _ ?Q")
proof -
  have second: "runs (if err \<noteq> None then Some (err, br1) else do {
       fdb \<leftarrow> fdb_lookup br1 a;
       (nud, fdb) \<leftarrow> fdb_to_nud env fdb br1;
       let br = fdb_store a (\<lambda>_. fdb) br1;
       if nud \<noteq> state then do {
         let fdb = nud_entry state (b_jiffies br) fdb;
         br \<leftarrow> fdb_notify_new env fdb (fdb_store a (\<lambda>_. fdb) br);
         Some (None, br)
       }
       else Some (None, br)
     }) ?Q"
    if e: "err = add_error env a flags br"
      "if err = None
       then \<exists>f. fdb_becomes br ((fdb_lookup br)(a \<mapsto> f)) br1 \<and> entry_ok br f \<and> f_addr f = a
         \<and> f_dst f = (case fdb_lookup br a of None \<Rightarrow> Some n | Some f \<Rightarrow> f_dst f)
       else br1 = br" for err br1
  proof (cases "err = None")
    case True
    then obtain f where f: "fdb_becomes br ((fdb_lookup br)(a \<mapsto> f)) br1" "entry_ok br f"
      "f_dst f = (case fdb_lookup br a of None \<Rightarrow> Some n | Some f \<Rightarrow> f_dst f)" using e(2) by auto
    note c = fdb_becomes_core [OF f(1)]
    have room: "fdb_lookup br a \<noteq> None \<or> can_create env False br (fdb_lookup br)"
      using True e(1) by (auto simp: add_error_def split: option.splits if_splits)
    have wf1: "fdb_wf br1" by (rule fdb_becomes_upd_wf [OF wf f(1,2) room])
    have s: "f_dst f \<noteq> None \<or> and state NUD_PERMANENT \<noteq> 0"
      using safe f(3) by (cases "fdb_lookup br a") simp_all
    have l: "fdb_lookup br1 a = Some f" using c by simp
    show ?thesis
      unfolding True if_False simp_thms
    proof (rule runs_mono [OF add_entry_set [OF wf1 l s]], elim case_prodE conjE exE)
      fix x r br' g
      assume x: "x = (r, br')" "r = (None :: result)" and g: "fdb_becomes br1 ((fdb_lookup br1)(a \<mapsto> g)) br'"
        "entry_ok br1 g" "f_dst g = f_dst f" "nud_flags state g"
      have b: "fdb_becomes br ((fdb_lookup br)(a \<mapsto> g)) br'"
        using fdb_becomes_trans [OF f(1) g(1)] c(3) by simp
      have "fdb_wf br'"
        by (rule fdb_becomes_upd_wf [OF wf b _ room]) (use g(2) entry_ok_cong [OF c(1)] in simp)
      with x True e(1) g(3,4) f(3) fdb_becomes_core [OF b] show "?Q x" by (auto intro!: exI [of _ g])
    qed
  qed (use e wf in auto)
  show ?thesis
    unfolding fdb_add_entry_def runs_bind
    by (rule runs_mono [OF add_entry_find [OF wf n]], elim case_prodE conjE, simp only: prod.case)
      (rule second, simp_all only:)
qed

lemma mac_of_bytes_mac_bytes [simp]: "mac_of_bytes (mac_bytes a) = Some a"
  by (cases a) simp

lemma port_by_ifindex_SomeD:
  "port_by_ifindex i br = Some p \<Longrightarrow> p \<in> set (b_port_list br) \<and> dev_ifindex (p_dev p) = i"
  unfolding port_by_ifindex_def by (drule find_eq_Some_D) simp

lemma port_by_ifindex_nos: "port_by_ifindex i br = Some p \<Longrightarrow> p_port_no p \<in> set (port_nos br)"
  by (drule port_by_ifindex_SomeD) (simp add: port_nos_def)

text \<open>A request is harmless unless it changes the entry of the bridge device, which has no port, into
  one that is not local.\<close>

definition nd_safe :: "nd_request \<Rightarrow> net_bridge \<Rightarrow> bool" where
  "nd_safe ndm br \<longleftrightarrow> (case Option.bind (nd_lladdr ndm) mac_of_bytes of
     None \<Rightarrow> True
   | Some a \<Rightarrow> (case fdb_lookup br a of None \<Rightarrow> True
       | Some f \<Rightarrow> f_dst f \<noteq> None \<or> and (nd_state ndm) NUD_PERMANENT \<noteq> 0))"

lemma fdb_core_stp_wf: "fdb_core br' = fdb_core br \<Longrightarrow> stp_wf br \<Longrightarrow> stp_wf br'"
  using fdb_core_eq_derived(4) [of br' br] by simp

lemma br_fdb_add_wf:
  assumes "fdb_wf br" "stp_wf br" "nd_safe ndm br"
  shows "runs (br_fdb_add env od ndm br) (\<lambda>(r, br'). fdb_wf br' \<and> stp_wf br' \<and> (r \<noteq> None \<longrightarrow> br' = br))"
proof -
  have use: "runs (br_fdb_update env n a br) (\<lambda>br'. fdb_wf br' \<and> stp_wf br')" if "n \<in> set (port_nos br)" for n a
    by (rule br_fdb_update_wf [OF assms(1,2) that])
  have add: "runs (fdb_add_entry env n a (nd_state ndm) fl br) (\<lambda>(r, br'). fdb_wf br' \<and> stp_wf br' \<and> (r \<noteq> None \<longrightarrow> br' = br))"
    if "n \<in> set (port_nos br)" "Option.bind (nd_lladdr ndm) mac_of_bytes = Some a" for n a fl
  proof (rule runs_mono [OF fdb_add_entry_runs [OF assms(1) that(1)]])
    show "f_dst f \<noteq> None \<or> and (nd_state ndm) NUD_PERMANENT \<noteq> 0" if "fdb_lookup br a = Some f" for f
      using assms(3) that \<open>Option.bind (nd_lladdr ndm) mac_of_bytes = Some a\<close> by (simp add: nd_safe_def)
  qed (auto intro: fdb_core_stp_wf [OF _ assms(2)])
  have last: "runs (case port_by_ifindex i br of None \<Rightarrow> Some (Some EINVAL, br)
      | Some p \<Rightarrow> if and (nd_flags ndm) NTF_USE \<noteq> 0
          then do { br \<leftarrow> br_fdb_update env (p_port_no p) a br; Some (None, br) }
          else fdb_add_entry env (p_port_no p) a (nd_state ndm) (nd_nlmsg_flags ndm) br)
      (\<lambda>(r, br'). fdb_wf br' \<and> stp_wf br' \<and> (r \<noteq> None \<longrightarrow> br' = br))"
    if "Option.bind (nd_lladdr ndm) mac_of_bytes = Some a" for i a
    using assms(1,2) use [of _ a] add [OF _ that] port_by_ifindex_nos [of i br]
    by (simp split: option.split)
  show ?thesis
    using assms(1,2) last by (simp add: br_fdb_add_def split: option.split)
qed

lemma br_fdb_delete_wf:
  assumes "fdb_wf br" "stp_wf br"
  shows "runs (br_fdb_delete env od ndm br) (\<lambda>(r, br'). fdb_wf br' \<and> stp_wf br' \<and> (r \<noteq> None \<longrightarrow> br' = br))"
proof -
  have "runs (fdb_delete env f br) (\<lambda>br'. fdb_wf br' \<and> stp_wf br')" if f: "fdb_lookup br a = Some f" for a f
  proof -
    have a: "f_addr f = a" using f by (rule fdb_lookup_addr)
    have ok: "entry_ok br f" using fdb_wf_map(2) [OF assms(1) f] .
    show ?thesis
      by (rule runs_mono [OF fdb_delete_runs [OF _ _ ok]])
        (use assms f a in \<open>auto simp: fdb_wf_def [of br] fdb_becomes_def
          intro: fdb_core_stp_wf fdb_replace_wf [OF assms(1) ok, where a = a]\<close>)
  qed
  then show ?thesis
    using assms by (auto simp: br_fdb_delete_def fdb_delete_by_addr_def split: option.splits)
qed

section \<open>The dump\<close>

definition visible :: "br_env \<Rightarrow> net_bridge \<Rightarrow> net_bridge_fdb_entry \<Rightarrow> bool" where
  "visible env br f \<longleftrightarrow> f_dst f \<noteq> None \<and> \<not> expired br (blog_refresh env f)"

definition dump_entry :: "br_env \<Rightarrow> net_bridge \<Rightarrow> net_bridge_fdb_entry \<Rightarrow> user_fdb_entry" where
  "dump_entry env br f = fdb_user_entry br (blog_refresh env f) (the (f_dst f))"

lemma fillbuf_entries_eq:
  assumes "fdb_core br = fdb_core br0" "\<And>f. f \<in> set fs \<Longrightarrow> entry_ok br0 f"
  shows "runs (fillbuf_entries env maxnum skip fs br) (\<lambda>(fes, br'). fdb_core br' = fdb_core br0 \<and>
    fes = take maxnum (drop skip (map (dump_entry env br0) (filter (visible env br0) fs))))"
  using assms
proof (induction fs arbitrary: maxnum skip br)
  case (Cons f fs)
  note core = Cons.prems(1)
  obtain br1 where h: "has_expired env f br = (expired br0 (blog_refresh env f), br1)" "fdb_core br1 = fdb_core br0"
    using core fdb_core_eq_derived(5) [OF core] by (simp add: has_expired_def Let_def)
  note IH = Cons.IH [OF h(2) Cons.prems(2)]
  show ?case
  proof (cases "maxnum = 0 \<or> \<not> visible env br0 f")
    case True
    then show ?thesis
      using IH h core by (cases "f_dst f") (auto simp: visible_def)
  next
    case False
    then obtain dst where d: "f_dst f = Some dst" "maxnum \<noteq> 0" "visible env br0 f" "\<not> expired br0 (blog_refresh env f)"
      by (auto simp: visible_def)
    obtain p where p: "br_get_port br1 dst = Some p" "p_port_no p = dst"
      using Cons.prems(2) [of f] d br_get_port_ex [of dst br0] fdb_core_eq_derived(1) [OF h(2)] br_get_port_SomeD
      by (fastforce simp: entry_ok_def)
    have e: "fdb_user_entry br1 (blog_refresh env f) dst = dump_entry env br0 f"
      using fdb_core_eqD [OF h(2)] d by (simp add: fdb_user_entry_def dump_entry_def)
    show ?thesis
    proof (cases skip)
      case 0
      have "runs (fillbuf_entries env (maxnum - 1) 0 fs br1) (\<lambda>a. runs (case a of (fes, br') \<Rightarrow>
          Some (dump_entry env br0 f # fes, br')) (\<lambda>(fes, br'). fdb_core br' = fdb_core br0 \<and>
          fes = take maxnum (dump_entry env br0 f # map (dump_entry env br0) (filter (visible env br0) fs))))"
        by (rule runs_mono [OF IH]) (use False in \<open>auto simp: take_Cons'\<close>)
      with 0 h d p e show ?thesis by simp
    next
      case (Suc k)
      with IH [where skip = k] h d show ?thesis by simp
    qed
  qed
qed simp

section \<open>Properties\<close>


definition example_request :: nd_request where
  "example_request = \<lparr>nd_parse = None, nd_ifindex = 1, nd_lladdr = Some (mac_bytes example_mac),
     nd_state = NUD_NOARP, nd_flags = 0, nd_nlmsg_flags = NLM_F_CREATE\<rparr>"

lemma example_port_by_ifindex [simp]:
  "port_by_ifindex 1 example_forwarding = Some ((example_port 1)\<lparr>p_state := BR_STATE_FORWARDING\<rparr>)"
  by (simp add: port_by_ifindex_def example_forwarding_def upd_list_def example_defs)


text \<open>C22: RTM_NEWNEIGH can crash the kernel. The entry for the bridge's own address belongs to no port;
  a request that turns it into an ordinary reachable entry (NUD_REACHABLE, without NLM_F_EXCL)
  makes the notification dereference the missing port.\<close>

theorem br_fdb_add_own_address_faults:
  assumes "fdb_lookup br a = Some f" "f_dst f = None" "f_is_local f"
    and "nd_parse ndm = None" "nd_lladdr ndm = Some (mac_bytes a)" "is_valid_ether_addr a"
    and "nd_ifindex ndm \<noteq> 0" "port_by_ifindex (nd_ifindex ndm) br = Some p" "and (nd_flags ndm) NTF_USE = 0"
    and "nd_state ndm = NUD_REACHABLE" "and (nd_nlmsg_flags ndm) NLM_F_EXCL = 0"
  shows "br_fdb_add env od ndm br = None"
  using assms by (simp add: br_fdb_add_def dev_get_by_index_def fdb_add_entry_def fdb_to_nud_def Let_def
    fdb_notify_new_def fdb_fill_info_def NUD_PERMANENT_def NUD_NOARP_def NUD_REACHABLE_def)

theorem br_fdb_add_own_address_faults_witness:
  "br_fdb_add example_env (\<lambda>_. False) (example_request\<lparr>nd_state := NUD_REACHABLE\<rparr>)
     (fdb_link (new_entry example_forwarding None example_mac True True) example_forwarding) = None"
proof (rule br_fdb_add_own_address_faults)
  let ?f = "new_entry example_forwarding None example_mac True True"
  show "fdb_lookup (fdb_link ?f example_forwarding) example_mac = Some ?f"
    using fdb_link_becomes [of example_forwarding ?f] example_forwarding_simps(1) by (simp add: fdb_wf_def fdb_becomes_def)
  show "port_by_ifindex (nd_ifindex (example_request\<lparr>nd_state := NUD_REACHABLE\<rparr>)) (fdb_link ?f example_forwarding)
      = Some ((example_port 1)\<lparr>p_state := BR_STATE_FORWARDING\<rparr>)"
    using example_port_by_ifindex by (simp add: example_request_def port_by_ifindex_def fdb_link_def)
qed (simp_all add: example_request_def NLM_F_CREATE_def NLM_F_EXCL_def)

text \<open>C20: The dump of the table pages through it: \<open>br_fdb_fillbuf\<close> returns the entries that are on a
  port and not expired, in table order, without the first \<open>skip\<close> and at most \<open>maxnum\<close> of them;
  consecutive calls whose \<open>skip\<close> is the number already read therefore give each exactly once.\<close>

theorem br_fdb_fillbuf_page:
  assumes "fdb_wf br"
  shows "runs (br_fdb_fillbuf env maxnum skip br) (\<lambda>(fes, br'). length fes \<le> maxnum \<and> fes
    = take maxnum (drop skip (map (\<lambda>f. fdb_user_entry br (blog_refresh env f) (the (f_dst f)))
        (filter (\<lambda>f. f_dst f \<noteq> None \<and> \<not> expired br (blog_refresh env f)) (all_entries br)))))"
  unfolding br_fdb_fillbuf_def
  by (rule runs_mono [OF fillbuf_entries_eq [where ?br0.0 = br]])
    (use assms fdb.entries [of br] in \<open>auto simp: dump_entry_def [abs_def] visible_def [abs_def] fdb_wf_def ran_def\<close>)

theorem br_fdb_fillbuf_page_witness:
  "runs (br_fdb_fillbuf example_env 10 0 example_forwarding) (\<lambda>(fes, br'). length fes \<le> 10)"
  by (rule runs_mono [OF br_fdb_fillbuf_page]) auto

end
