(* ===== verification/Stp_Timer.thy ===== *)
theory Stp_Timer
  imports Stp_Rcv Fdb_Netlink
begin

text \<open>
  The timers of the spanning tree protocol: \<open>net/bridge/br_stp_timer.c\<close>. Each definition is the
  timer's function; the timer itself is no longer pending when it runs, because the kernel
  detaches a timer before it calls its function.
\<close>

section \<open>The timer functions\<close>

definition br_is_designated_for_some_port :: "net_bridge \<Rightarrow> bool" where
  "br_is_designated_for_some_port br \<longleftrightarrow>
     list_ex (\<lambda>p. p_state p \<noteq> BR_STATE_DISABLED
       \<and> memcmp_bridge_id (p_designated_bridge p) (b_bridge_id br) = 0) (b_port_list br)"

definition br_hello_timer_expired :: "net_bridge \<Rightarrow> net_bridge option" where
  "br_hello_timer_expired br =
     (if dev_up (b_dev br) then do {
        br \<leftarrow> br_config_bpdu_generation br;
        Some (br\<lparr>b_hello_timer := mod_timer (b_hello_timer br)
          (round_jiffies (b_cpu br) (b_jiffies br) (b_jiffies br + b_hello_time br))\<rparr>)
      }
      else Some br)"

text \<open>The state is tested once without the bridge lock and once more under it.\<close>

definition br_message_age_timer_expired :: "u16 \<Rightarrow> net_bridge \<Rightarrow> net_bridge option" where
  "br_message_age_timer_expired n br = do {
     p \<leftarrow> br_get_port br n;
     if p_state p = BR_STATE_DISABLED then Some br
     else if p_is_dedicated_stp_port p then Some br
     else do {
       let was_root = br_is_root_bridge br;
       let br = br_become_designated_port n br;
       br \<leftarrow> br_configuration_update br;
       br \<leftarrow> br_port_state_selection br;
       if br_is_root_bridge br \<and> \<not> was_root then br_become_root_bridge br else Some br
     }
   }"

definition br_forward_delay_timer_expired :: "u16 \<Rightarrow> net_bridge \<Rightarrow> net_bridge option" where
  "br_forward_delay_timer_expired n br = do {
     p \<leftarrow> br_get_port br n;
     br \<leftarrow>
       (if p_state p = BR_STATE_LISTENING then
          Some (upd_port n (\<lambda>p. p\<lparr>p_state := BR_STATE_LEARNING,
            p_forward_delay_timer := mod_timer (p_forward_delay_timer p)
              (b_jiffies br + b_forward_delay br)\<rparr>) br)
        else if p_state p = BR_STATE_LEARNING then do {
          let br = upd_port n (\<lambda>p. p\<lparr>p_state := BR_STATE_FORWARDING\<rparr>) br;
          br \<leftarrow> (if br_is_designated_for_some_port br
                 then br_topology_change_detection br else Some br);
          Some (br\<lparr>b_dev := (b_dev br)\<lparr>dev_carrier := True\<rparr>\<rparr>)
        }
        else Some br);
     Some (emit (Br_ifinfo_notify n) (br_log_state n br))
   }"

definition br_tcn_timer_expired :: "net_bridge \<Rightarrow> net_bridge option" where
  "br_tcn_timer_expired br =
     (if dev_up (b_dev br) then do {
        br \<leftarrow> br_transmit_tcn br;
        Some (br\<lparr>b_tcn_timer := mod_timer (b_tcn_timer br) (b_jiffies br + b_bridge_hello_time br)\<rparr>)
      }
      else Some br)"

definition br_topology_change_timer_expired :: "net_bridge \<Rightarrow> net_bridge" where
  "br_topology_change_timer_expired br =
     br\<lparr>b_topology_change_detected := False, b_topology_change := False\<rparr>"

definition br_hold_timer_expired :: "u16 \<Rightarrow> net_bridge \<Rightarrow> net_bridge option" where
  "br_hold_timer_expired n br = do {
     p \<leftarrow> br_get_port br n;
     if p_config_pending p then br_transmit_config n br else Some br
   }"

definition br_timer_value :: "u32 \<Rightarrow> timer \<Rightarrow> u32" where
  "br_timer_value jiffies t =
     (case t of None \<Rightarrow> 0 | Some expires \<Rightarrow> jiffies_to_clock_t (expires - jiffies))"

lemma br_log_state_dev [simp]: "b_dev (br_log_state n br) = b_dev br"
  by (simp add: br_log_state_def br_stp_notify_state_port_def split: option.split)

section \<open>What reselection keeps\<close>

text \<open>\<open>stp_core\<close> erases everything the spanning tree writes, so two bridges with the same \<open>stp_core\<close>
  have the same forwarding database, multicast groups, ports, devices and settings.\<close>

definition stp_port :: "net_bridge_port \<Rightarrow> net_bridge_port" where
  "stp_port p = (port_core p)\<lparr>p_priority := 0, p_port_id := 0, p_path_cost := 0,
     p_designated_root := Bridge_id 0 0 (Mac 0 0 0 0 0 0),
     p_designated_cost := 0, p_designated_bridge := Bridge_id 0 0 (Mac 0 0 0 0 0 0),
     p_designated_port := 0, p_designated_age := 0\<rparr>"

definition stp_core :: "net_bridge \<Rightarrow> net_bridge" where
  "stp_core br = (bridge_core br)\<lparr>b_port_list := map stp_port (b_port_list br),
     b_designated_root := Bridge_id 0 0 (Mac 0 0 0 0 0 0), b_root_path_cost := 0, b_root_port := 0,
     b_bridge_id := Bridge_id 0 0 (Mac 0 0 0 0 0 0), b_max_age := 0, b_hello_time := 0, b_forward_delay := 0,
     b_stp_enabled := BR_NO_STP, b_gc_timer := None,
     b_dev := (b_dev br)\<lparr>dev_carrier := False, dev_addr := Mac 0 0 0 0 0 0\<rparr>\<rparr>"

definition stp_frame :: "net_bridge \<Rightarrow> net_bridge \<Rightarrow> bool" where
  "stp_frame br br' \<longleftrightarrow> stp_core br' = stp_core br"

lemma stp_port_fields [simp]:
  "p_port_no (stp_port p) = p_port_no p" "p_dev (stp_port p) = p_dev p" "p_flags (stp_port p) = p_flags p"
  "stp_port (port_core p) = stp_port p" "stp_port (become_designated br p) = stp_port p"
  by (simp_all add: stp_port_def port_core_def become_designated_def)

lemma stp_core_fields [simp]:
  "b_hash (stp_core br) = b_hash br" "b_num_fdb_entries (stp_core br) = b_num_fdb_entries br"
  "b_fdb_salt (stp_core br) = b_fdb_salt br" "port_nos (stp_core br) = port_nos br"
  "b_mc_hash (stp_core br) = b_mc_hash br" "b_mc_salt (stp_core br) = b_mc_salt br"
  "map p_dev (b_port_list (stp_core br)) = map p_dev (b_port_list br)"
  "b_jiffies (stp_core br) = b_jiffies br"
  "dev_ifindex (b_dev (stp_core br)) = dev_ifindex (b_dev br)" "dev_up (b_dev (stp_core br)) = dev_up (b_dev br)"
  "b_igmp_snooping (stp_core br) = b_igmp_snooping br" "b_set_mac_addr (stp_core br) = b_set_mac_addr br"
  "b_igmp_delayed_skb (stp_core br) = b_igmp_delayed_skb br"
  by (simp_all add: stp_core_def port_nos_def bridge_core_def)

lemma stp_frameD:
  assumes "stp_frame br br'"
  shows "b_hash br' = b_hash br" "b_num_fdb_entries br' = b_num_fdb_entries br"
    "b_fdb_salt br' = b_fdb_salt br" "port_nos br' = port_nos br"
    "b_mc_hash br' = b_mc_hash br" "b_mc_salt br' = b_mc_salt br"
    "map p_dev (b_port_list br') = map p_dev (b_port_list br)"
    "b_jiffies br' = b_jiffies br"
    "dev_ifindex (b_dev br') = dev_ifindex (b_dev br)" "dev_up (b_dev br') = dev_up (b_dev br)"
    "b_igmp_snooping br' = b_igmp_snooping br" "b_set_mac_addr br' = b_set_mac_addr br"
    "b_igmp_delayed_skb br' = b_igmp_delayed_skb br"
  using assms unfolding stp_frame_def by (metis stp_core_fields)+

lemma stp_frame_refl [simp]: "stp_frame br br"
  by (simp add: stp_frame_def)

lemma stp_frame_trans [trans]: "stp_frame a b \<Longrightarrow> stp_frame b c \<Longrightarrow> stp_frame a c"
  by (simp add: stp_frame_def)

lemma stp_frame_lookup: "stp_frame br br' \<Longrightarrow> fdb_lookup br' = fdb_lookup br"
  using stp_frameD(1,3) [of br br'] by (auto intro: fdb_lookup_cong)

lemma stp_frame_entry_ok: "stp_frame br br' \<Longrightarrow> entry_ok br' f = entry_ok br f"
  using stp_frameD(4) [of br br'] by (simp add: entry_ok_def split: option.split)

lemma stp_frame_wf:
  assumes "stp_frame br br'"
  shows "fdb_wf br' = fdb_wf br"
proof -
  have "fdb_table br' = fdb_table br" using stp_frameD(1-3) [OF assms] by (intro fdb_table_cong) simp_all
  with stp_frame_lookup [OF assms] stp_frame_entry_ok [OF assms] stp_frameD(2) [OF assms] show ?thesis
    by (simp add: fdb_wf_def)
qed

lemma stp_frame_core: "bridge_core br' = bridge_core br \<Longrightarrow> stp_frame br br'"
proof -
  assume c: "bridge_core br' = bridge_core br"
  have "map stp_port (b_port_list br) = map stp_port (map port_core (b_port_list br))" for br by simp
  then have "map stp_port (b_port_list br') = map stp_port (b_port_list br)"
    using bridge_core_eqD(2) [OF c] by metis
  moreover have "stp_core br = (bridge_core br)\<lparr>b_port_list := map stp_port (b_port_list br),
     b_designated_root := Bridge_id 0 0 (Mac 0 0 0 0 0 0), b_root_path_cost := 0, b_root_port := 0,
     b_bridge_id := Bridge_id 0 0 (Mac 0 0 0 0 0 0), b_max_age := 0, b_hello_time := 0, b_forward_delay := 0,
     b_stp_enabled := BR_NO_STP, b_gc_timer := None,
     b_dev := (b_dev (bridge_core br))\<lparr>dev_addr := Mac 0 0 0 0 0 0\<rparr>\<rparr>" for br
    by (simp add: stp_core_def bridge_core_def)
  ultimately show ?thesis using c by (simp add: stp_frame_def)
qed

lemma stp_frame_after_selection:
  assumes "after_selection br br'"
  shows "stp_frame br br'"
proof -
  let ?z = "\<lambda>br. br\<lparr>b_max_age := 0, b_hello_time := 0, b_forward_delay := 0\<rparr> :: net_bridge"
  have "stp_frame (?z br) (?z br')"
    using assms by (intro stp_frame_core) (simp add: after_selection_def)
  then show ?thesis by (simp add: stp_frame_def stp_core_def bridge_core_def)
qed

lemma stp_frame_config_updated:
  assumes "config_updated br br'"
  shows "stp_frame br br'"
proof -
  have "stp_frame br (br_designated_port_selection br)" for br
    by (simp add: br_designated_port_selection_def stp_frame_def stp_core_def bridge_core_def comp_def
      cong: if_cong)
  moreover have "stp_frame br br1" if "root_selected br br1" for br1
    using that by (auto simp: root_selected_def stp_frame_def stp_core_def bridge_core_def)
  ultimately show ?thesis using assms stp_frame_trans unfolding config_updated_def by blast
qed

lemma stp_frame_selected: "selected br br' \<Longrightarrow> stp_frame br br'"
  unfolding selected_def
  using stp_frame_config_updated stp_frame_core stp_frame_after_selection stp_frame_trans by blast

lemma stp_frame_upd_port:
  "(\<And>p. stp_port (f p) = stp_port p) \<Longrightarrow> stp_frame br (upd_port n f br)"
  by (simp add: stp_frame_def stp_core_def bridge_core_def upd_port_def upd_list_def comp_def cong: if_cong)

lemma selected_wf: "selected br br' \<Longrightarrow> fdb_wf br' = fdb_wf br"
  by (rule stp_frame_wf [OF stp_frame_selected])

text \<open>Becoming the root bridge leaves the outcome of the selection alone.\<close>

lemma br_become_root_bridge_after:
  assumes "stp_wf br"
  shows "runs (br_become_root_bridge br) (after_selection br)"
proof (rule runs_mono [OF br_become_root_bridge_runs [OF assms]], elim conjE)
  fix br'
  let ?br = "br\<lparr>b_max_age := b_bridge_max_age br, b_hello_time := b_bridge_hello_time br,
    b_forward_delay := b_bridge_forward_delay br\<rparr>"
  assume "bridge_core br' = bridge_core ?br" "map p_state (b_port_list br') = map p_state (b_port_list br)"
  then have "after_selection ?br br'" by (intro after_selection_core) simp_all
  moreover have "after_selection br ?br" by (simp add: after_selection_def bridge_core_def)
  ultimately show "after_selection br br'" using after_selection_trans by blast
qed

text \<open>Configuration update, state selection, and the step to being the root.\<close>

lemma reselect_runs:
  assumes "distinct (port_nos br)" "0 \<notin> set (port_nos br)"
  shows "runs (Option.bind (br_configuration_update br) (\<lambda>br. Option.bind (br_port_state_selection br)
      (\<lambda>br. if br_is_root_bridge br \<and> \<not> was_root then br_become_root_bridge br else Some br)))
    (\<lambda>br'. stp_wf br' \<and> selected br br')"
proof -
  have tail: "runs (if br_is_root_bridge br2 \<and> \<not> was_root then br_become_root_bridge br2 else Some br2)
      (\<lambda>br'. stp_wf br' \<and> selected br br')" if "stp_wf br2" "selected br br2" for br2
    using that by (auto intro!: runs_mono [OF br_become_root_bridge_after] intro: selected_after stp_wf_after)
  show ?thesis
    using configuration_and_state_selection_runs [OF assms] unfolding runs_bind
    by (elim runs_mono conjE) (rule tail)
qed

section \<open>The timer functions keep the invariants\<close>

definition bridge_wf :: "net_bridge \<Rightarrow> bool" where
  "bridge_wf br \<longleftrightarrow> stp_wf br \<and> fdb_wf br"

lemma bridge_wf_core: "bridge_core br' = bridge_core br \<Longrightarrow> bridge_wf br \<Longrightarrow> bridge_wf br'"
  using stp_wf_cong [of br' br] fdb_wf_bridge_core(1) [of br' br] by (simp add: bridge_wf_def)

lemma bridge_wf_selected: "stp_wf br' \<Longrightarrow> selected br br' \<Longrightarrow> fdb_wf br \<Longrightarrow> bridge_wf br'"
  using selected_wf [of br br'] by (simp add: bridge_wf_def)

lemma br_become_designated_port_fields [simp]:
  "port_nos (br_become_designated_port n br) = port_nos br"
  "fdb_wf (br_become_designated_port n br) = fdb_wf br"
proof -
  have f: "stp_frame br (br_become_designated_port n br)"
    unfolding br_become_designated_port_def by (rule stp_frame_upd_port) simp
  show "fdb_wf (br_become_designated_port n br) = fdb_wf br" by (rule stp_frame_wf [OF f])
  show "port_nos (br_become_designated_port n br) = port_nos br" by (rule stp_frameD(4) [OF f])
qed

lemma br_hello_timer_expired_wf:
  assumes "bridge_wf br"
  shows "runs (br_hello_timer_expired br) bridge_wf"
proof -
  have "stp_wf br" using assms by (simp add: bridge_wf_def)
  from br_config_bpdu_generation_runs [OF this] assms show ?thesis
    by (auto simp: br_hello_timer_expired_def elim!: runs_mono intro: bridge_wf_core [of _ br])
qed

lemma br_message_age_timer_expired_runs:
  assumes "stp_wf br" "br_get_port br n = Some p"
  shows "runs (br_message_age_timer_expired n br) (\<lambda>br'.
    if p_state p = BR_STATE_DISABLED \<or> p_is_dedicated_stp_port p then br' = br
    else stp_wf br' \<and> selected (br_become_designated_port n br) br')"
proof -
  have d: "distinct (port_nos (br_become_designated_port n br))" "0 \<notin> set (port_nos (br_become_designated_port n br))"
    using assms(1) by (simp_all add: stp_wf_def)
  show ?thesis
    using reselect_runs [OF d] assms(2)
    by (auto simp: br_message_age_timer_expired_def Let_def simp del: runs_bind)
qed

lemma br_message_age_timer_expired_wf:
  assumes "bridge_wf br" "n \<in> set (port_nos br)"
  shows "runs (br_message_age_timer_expired n br) bridge_wf"
proof -
  obtain p where p: "br_get_port br n = Some p" using br_get_port_ex [OF assms(2)] by blast
  have wf: "stp_wf br" using assms(1) by (simp add: bridge_wf_def)
  show ?thesis
    by (rule runs_mono [OF br_message_age_timer_expired_runs [OF wf p]])
      (use assms(1) in \<open>auto split: if_splits intro: bridge_wf_selected simp: bridge_wf_def [of br]\<close>)
qed

lemma br_forward_delay_timer_expired_core:
  assumes wf: "stp_wf br" and n: "n \<in> set (port_nos br)"
  shows "runs (br_forward_delay_timer_expired n br) (\<lambda>br'. bridge_core br' = bridge_core br)"
proof -
  obtain p where p: "br_get_port br n = Some p" using br_get_port_ex [OF n] by blast
  let ?br = "upd_port n (\<lambda>p. p\<lparr>p_state := BR_STATE_FORWARDING\<rparr>) br"
  have c: "bridge_core ?br = bridge_core br" by simp
  have "runs (br_topology_change_detection ?br) (\<lambda>br'. bridge_core br' = bridge_core br)"
    using stp_wf_cong [OF c] wf c by (intro runs_mono [OF br_topology_change_detection_runs]) simp_all
  then show ?thesis
    by (auto simp: br_forward_delay_timer_expired_def p Let_def elim!: runs_mono)
qed

lemma br_forward_delay_timer_expired_wf:
  "bridge_wf br \<Longrightarrow> n \<in> set (port_nos br) \<Longrightarrow> runs (br_forward_delay_timer_expired n br) bridge_wf"
  by (rule runs_mono [OF br_forward_delay_timer_expired_core]) (auto simp: bridge_wf_def [of br] intro: bridge_wf_core [of _ br])

lemma br_tcn_timer_expired_wf:
  assumes "bridge_wf br" "\<not> br_is_root_bridge br"
  shows "runs (br_tcn_timer_expired br) bridge_wf"
proof -
  have "b_root_port br \<in> set (port_nos br)" using assms stp_wf_root_port by (simp add: bridge_wf_def)
  from br_transmit_tcn_runs [OF this] assms(1) show ?thesis
    by (auto simp: br_tcn_timer_expired_def elim!: runs_mono intro: bridge_wf_core [of _ br])
qed

lemma br_topology_change_timer_expired_wf:
  "bridge_wf br \<Longrightarrow> bridge_wf (br_topology_change_timer_expired br)"
  by (rule bridge_wf_core [of _ br]) (simp_all add: br_topology_change_timer_expired_def)

lemma br_hold_timer_expired_wf:
  assumes "bridge_wf br" "n \<in> set (port_nos br)"
  shows "runs (br_hold_timer_expired n br) bridge_wf"
proof -
  have "stp_wf br" using assms by (simp add: bridge_wf_def)
  from br_transmit_config_runs [OF this assms(2)] br_get_port_ex [OF assms(2)] assms show ?thesis
    by (auto simp: br_hold_timer_expired_def elim!: runs_mono intro: bridge_wf_core [of _ br])
qed

section \<open>The forward delay timer, state by state\<close>

lemma br_get_port_upd_list:
  assumes "b_port_list br' = upd_list n f (b_port_list br)" "\<And>p. p_port_no (f p) = p_port_no p"
  shows "br_get_port br' m = map_option (\<lambda>p. if m = n then f p else p) (br_get_port br m)"
  using br_get_port_upd_port [of f n br m] assms by (simp add: br_get_port_def)

lemma forward_delay_listening:
  assumes "br_get_port br n = Some p" "p_state p = BR_STATE_LISTENING"
  shows "runs (br_forward_delay_timer_expired n br) (\<lambda>br'. bridge_core br' = bridge_core br
    \<and> b_port_list br' = upd_list n (\<lambda>p. p\<lparr>p_state := BR_STATE_LEARNING,
        p_forward_delay_timer := Some (b_jiffies br + b_forward_delay br)\<rparr>) (b_port_list br))"
  using assms by (simp add: br_forward_delay_timer_expired_def mod_timer_def)

lemma forward_delay_learning:
  assumes wf: "stp_wf br" and p: "br_get_port br n = Some p" and st: "p_state p = BR_STATE_LEARNING"
  shows "runs (br_forward_delay_timer_expired n br) (\<lambda>br'. dev_carrier (b_dev br')
    \<and> b_port_list br' = upd_list n (\<lambda>p. p\<lparr>p_state := BR_STATE_FORWARDING\<rparr>) (b_port_list br))"
proof -
  let ?br = "upd_port n (\<lambda>p. p\<lparr>p_state := BR_STATE_FORWARDING\<rparr>) br"
  have "stp_wf ?br" using wf stp_wf_cong [of ?br br] by simp
  from br_topology_change_detection_runs [OF this] p st show ?thesis
    by (auto simp: br_forward_delay_timer_expired_def Let_def br_log_state_dev elim!: runs_mono)
qed

section \<open>Properties\<close>

definition tcn_bridge_port :: net_bridge_port where
  "tcn_bridge_port = (example_port 1)\<lparr>p_state := BR_STATE_FORWARDING,
     p_designated_root := Bridge_id 0x10 0 (Mac 0 1 2 3 4 5),
     p_designated_bridge := Bridge_id 0x10 0 (Mac 0 1 2 3 4 5)\<rparr>"

text \<open>The example bridge with port 1 as its root port, while it signals a topology change.\<close>

definition tcn_bridge :: net_bridge where
  "tcn_bridge = example_bridge\<lparr>
     b_port_list := [example_port 2, tcn_bridge_port],
     b_designated_root := Bridge_id 0x10 0 (Mac 0 1 2 3 4 5), b_root_path_cost := 100, b_root_port := 1,
     b_topology_change_detected := True, b_tcn_timer := Some 102000\<rparr>"

lemma selected_no_candidate:
  assumes "selected br br'" "distinct (port_nos br)" "0 \<notin> set (port_nos br)"
    and "\<And>q. q \<in> set (b_port_list br) \<Longrightarrow> \<not> root_candidate br q"
  shows "b_root_port br' = 0 \<and> b_designated_root br' = b_bridge_id br \<and> b_root_path_cost br' = 0"
proof -
  obtain br0 br1 br2 where s: "root_selected br br0" "br1 = br_designated_port_selection br0"
    "bridge_core br2 = bridge_core br1" "after_selection br2 br'"
    using assms(1) by (auto simp: selected_def config_updated_def)
  have "b_root_port br0 = 0 \<and> b_designated_root br0 = b_bridge_id br \<and> b_root_path_cost br0 = 0"
    using root_selected_optimal [OF s(1) assms(2,3)] assms(4) by (auto simp: optimal_root_def)
  then show ?thesis
    using s(2) bridge_core_eqD(4,5,6) [OF s(3)] after_selection_keeps(4,6,10) [OF s(4)] by simp
qed

text \<open>C23: A port that starts to listen does come to forward, after two forward delays. The expiry of the
  forward delay timer takes a listening port to learning and arms the timer again for one
  forward delay; the next expiry takes it to forwarding, turns the carrier of the bridge device
  on and leaves the timer stopped. Neither step can fault, and the states of the other ports do
  not change.\<close>

theorem forward_delay_progress:
  assumes wf: "stp_wf br" and p: "br_get_port br n = Some p" and st: "p_state p = BR_STATE_LISTENING"
  shows "runs (br_forward_delay_timer_expired n br) (\<lambda>br1.
    (\<exists>p1. br_get_port br1 n = Some p1 \<and> p_state p1 = BR_STATE_LEARNING
       \<and> p_forward_delay_timer p1 = Some (b_jiffies br + b_forward_delay br))
    \<and> (\<forall>j. runs (br_forward_delay_timer_expired n
           (upd_port n (\<lambda>p. p\<lparr>p_forward_delay_timer := None\<rparr>) (br1\<lparr>b_jiffies := j\<rparr>))) (\<lambda>br2.
         dev_carrier (b_dev br2)
         \<and> (\<exists>p2. br_get_port br2 n = Some p2 \<and> p_state p2 = BR_STATE_FORWARDING
              \<and> p_forward_delay_timer p2 = None)
         \<and> (\<forall>m. m \<noteq> n \<longrightarrow> map_option p_state (br_get_port br2 m) = map_option p_state (br_get_port br m)))))"
proof -
  let ?br' = "\<lambda>br1 j. upd_port n (\<lambda>p. p\<lparr>p_forward_delay_timer := None\<rparr>) (br1\<lparr>b_jiffies := j\<rparr>)"
  show ?thesis
  proof (rule runs_mono [OF forward_delay_listening [OF p st]], elim conjE, intro conjI allI)
    fix br1 j
    assume br1: "bridge_core br1 = bridge_core br" "b_port_list br1 = upd_list n (\<lambda>p. p\<lparr>p_state := BR_STATE_LEARNING,
      p_forward_delay_timer := Some (b_jiffies br + b_forward_delay br)\<rparr>) (b_port_list br)"
    note g1 = br_get_port_upd_list [OF br1(2)]
    from g1 p show "\<exists>p1. br_get_port br1 n = Some p1 \<and> p_state p1 = BR_STATE_LEARNING
        \<and> p_forward_delay_timer p1 = Some (b_jiffies br + b_forward_delay br)" by simp
    have l: "b_port_list (?br' br1 j) = upd_list n (\<lambda>p. p\<lparr>p_state := BR_STATE_LEARNING, p_forward_delay_timer := None\<rparr>) (b_port_list br)"
      by (simp add: br1(2))
    have wf': "stp_wf (?br' br1 j)"
      using wf stp_wf_cong [OF br1(1)] by (simp add: stp_wf_def port_nos_def)
    note g2 = br_get_port_upd_list [OF l]
    have st': "br_get_port (?br' br1 j) n = Some (p\<lparr>p_state := BR_STATE_LEARNING, p_forward_delay_timer := None\<rparr>)"
      using g2 p by simp
    show "runs (br_forward_delay_timer_expired n (?br' br1 j)) (\<lambda>br2.
         dev_carrier (b_dev br2)
         \<and> (\<exists>p2. br_get_port br2 n = Some p2 \<and> p_state p2 = BR_STATE_FORWARDING
              \<and> p_forward_delay_timer p2 = None)
         \<and> (\<forall>m. m \<noteq> n \<longrightarrow> map_option p_state (br_get_port br2 m) = map_option p_state (br_get_port br m)))"
    proof (rule runs_mono [OF forward_delay_learning [OF wf' st']])
      show "p_state (p\<lparr>p_state := BR_STATE_LEARNING, p_forward_delay_timer := None\<rparr>) = BR_STATE_LEARNING" by simp
      fix br2 :: net_bridge
      assume "dev_carrier (b_dev br2) \<and> b_port_list br2
        = upd_list n (\<lambda>p. p\<lparr>p_state := BR_STATE_FORWARDING\<rparr>) (b_port_list (?br' br1 j))"
      then show "dev_carrier (b_dev br2)
         \<and> (\<exists>p2. br_get_port br2 n = Some p2 \<and> p_state p2 = BR_STATE_FORWARDING
              \<and> p_forward_delay_timer p2 = None)
         \<and> (\<forall>m. m \<noteq> n \<longrightarrow> map_option p_state (br_get_port br2 m) = map_option p_state (br_get_port br m))"
        using br_get_port_upd_list [of br2 n "\<lambda>p. p\<lparr>p_state := BR_STATE_FORWARDING\<rparr>" "?br' br1 j"] g2 p by (auto simp: option.map_ident)
    qed
  qed
qed

theorem forward_delay_progress_witness:
  "runs (br_forward_delay_timer_expired 1
       (upd_port 1 (\<lambda>p. p\<lparr>p_state := BR_STATE_LISTENING\<rparr>) example_bridge)) (\<lambda>br1.
     \<exists>p1. br_get_port br1 1 = Some p1 \<and> p_state p1 = BR_STATE_LEARNING
       \<and> p_forward_delay_timer p1 = Some 115000)"
proof (rule runs_mono [OF forward_delay_progress])
  show "br_get_port (upd_port 1 (\<lambda>p. p\<lparr>p_state := BR_STATE_LISTENING\<rparr>) example_bridge) 1
      = Some ((example_port 1)\<lparr>p_state := BR_STATE_LISTENING\<rparr>)"
    by (simp add: br_get_port_upd_port)
  show "stp_wf (upd_port 1 (\<lambda>p. p\<lparr>p_state := BR_STATE_LISTENING\<rparr>) example_bridge)"
    using stp_wf_cong [of "upd_port 1 (\<lambda>p. p\<lparr>p_state := BR_STATE_LISTENING\<rparr>) example_bridge" example_bridge] by simp
qed (auto simp: example_bridge_def)

text \<open>C24: When the neighbour on a port falls silent its information is discarded. On expiry of the
  message age timer of an enabled port the port and then the whole bridge are reconsidered: the
  protocol's invariant holds, every enabled port carries the best information for its segment,
  exactly the ports without a role are blocked, and if no other port offers a root the bridge
  becomes the root and returns to its own timing parameters.\<close>

theorem message_age_expiry:
  assumes wf: "stp_wf br" and p: "br_get_port br n = Some p"
    and "p_state p \<noteq> BR_STATE_DISABLED" "\<not> p_is_dedicated_stp_port p" "b_stp_enabled br = BR_KERNEL_STP"
  shows "runs (br_message_age_timer_expired n br) (\<lambda>br'. stp_wf br' \<and> settled br' \<and> roles_ok br'
    \<and> ((\<forall>q \<in> set (b_port_list br). p_port_no q \<noteq> n \<longrightarrow> \<not> root_candidate br q) \<longrightarrow>
         b_root_port br' = 0 \<and> b_designated_root br' = b_bridge_id br \<and> b_root_path_cost br' = 0))"
proof (rule runs_mono [OF br_message_age_timer_expired_runs [OF wf p]])
  let ?br = "br_become_designated_port n br"
  fix br'
  assume "if p_state p = BR_STATE_DISABLED \<or> p_is_dedicated_stp_port p then br' = br
    else stp_wf br' \<and> selected ?br br'"
  then have sel: "stp_wf br'" "selected ?br br'" using assms(3,4) by simp_all
  have nc: "\<not> root_candidate ?br q" if none: "\<forall>q \<in> set (b_port_list br). p_port_no q \<noteq> n \<longrightarrow> \<not> root_candidate br q"
    and q: "q \<in> set (b_port_list ?br)" for q
  proof -
    obtain r where "r \<in> set (b_port_list br)" "q = (if p_port_no r = n then become_designated br r else r)"
      using q by (auto simp: br_become_designated_port_def upd_list_def)
    then show ?thesis
      using none by (auto simp: root_candidate_def br_become_designated_port_def become_designated_def
        br_is_designated_port_iff)
  qed
  have d: "distinct (port_nos ?br)" "0 \<notin> set (port_nos ?br)" using wf by (simp_all add: stp_wf_def)
  have "b_stp_enabled ?br \<noteq> BR_USER_STP" using assms(5) by (simp add: br_become_designated_port_def)
  with sel(2) have "settled br'" "roles_ok br'"
    unfolding selected_def using after_selection_keeps(2,3) by blast+
  with sel(1) nc selected_no_candidate [OF sel(2) d] show "stp_wf br' \<and> settled br' \<and> roles_ok br'
    \<and> ((\<forall>q \<in> set (b_port_list br). p_port_no q \<noteq> n \<longrightarrow> \<not> root_candidate br q) \<longrightarrow>
         b_root_port br' = 0 \<and> b_designated_root br' = b_bridge_id br \<and> b_root_path_cost br' = 0)"
    by (simp add: br_become_designated_port_def)
qed

theorem message_age_expiry_witness:
  "runs (br_message_age_timer_expired 1 tcn_bridge) (\<lambda>br'. b_root_port br' = 0
     \<and> b_designated_root br' = b_bridge_id tcn_bridge)"
proof (rule runs_mono [OF message_age_expiry])
  show "stp_wf tcn_bridge" by code_simp
  show "br_get_port tcn_bridge 1 = Some (tcn_bridge_port)" by (simp add: tcn_bridge_def br_get_port_def example_port_def tcn_bridge_port_def)
qed (auto simp: tcn_bridge_def tcn_bridge_port_def example_defs root_candidate_def br_is_designated_port_iff)





definition spoofed_bpdu :: br_config_bpdu where
  "spoofed_bpdu = \<lparr>bpdu_topology_change = False, bpdu_topology_change_ack = False,
     bpdu_root = Bridge_id 0 0 (Mac 0 1 2 3 4 5), bpdu_root_path_cost = 0,
     bpdu_bridge_id = example_id, bpdu_port_id = 0x8001, bpdu_message_age = 0,
     bpdu_max_age = 20000, bpdu_hello_time = 2000, bpdu_forward_delay = 15000\<rparr>"


end
