(* ===== verification/Igmp_Db.thy ===== *)
theory Igmp_Db
  imports Fdb_Netlink
begin

text \<open>
  The multicast group table of IGMP snooping: the part of \<open>net/bridge/br_igmp.c\<close> that keeps, per
  group and port, the hosts that reported the group. A bucket of \<open>b_mc_hash\<close> is the list of its
  entries, newest first. Entries have no key of their own (the flow accelerator makes copies),
  but every loop of the code only changes or removes the entry it is at, so a loop is a sweep
  that maps each entry to what is left of it and to the calls made on the way. A pointer to a
  port that is gone is a fault.

  Addresses are \<open>s_addr\<close> values as the CPU loads them; \<open>htonl\<close> swaps their bytes.
\<close>

section \<open>Addresses\<close>

definition htonl :: "u32 \<Rightarrow> u32" where
  "htonl w = or (or (push_bit 24 (and w 0xff)) (push_bit 8 (and w 0xff00)))
                (or (and (drop_bit 8 w) 0xff00) (drop_bit 24 w))"

definition br_igmp_control_filter :: "mac_addr option \<Rightarrow> u32 \<Rightarrow> bool" where
  "br_igmp_control_filter dest dest_ip \<longleftrightarrow>
     \<not> ((case dest of None \<Rightarrow> False | Some d \<Rightarrow> is_broadcast_ether_addr d)
       \<or> and dest_ip (htonl 0xFFFFFF00) = htonl 0xE0000000
       \<or> dest_ip = htonl 0xEFFFFFFA
       \<or> dest_ip = htonl 0xE000FF87)"

definition br_igmp_mc_fdb_hash :: "net_bridge \<Rightarrow> u32 \<Rightarrow> u8" where
  "br_igmp_mc_fdb_hash br grp = ucast (and (jhash_1word grp (b_mc_salt br)) (256 - 1))"

section \<open>Sweeps\<close>

text \<open>The bodies of the loops are named after the function they are from.\<close>

type_synonym mc_act = "net_bridge_mc_fdb_entry option \<times> br_effect list"

fun mc_sweep_list ::
  "(net_bridge_mc_fdb_entry \<Rightarrow> mc_act option) \<Rightarrow> net_bridge_mc_fdb_entry list
    \<Rightarrow> (net_bridge_mc_fdb_entry list \<times> br_effect list) option" where
  "mc_sweep_list f [] = Some ([], [])"
| "mc_sweep_list f (e # es) = do {
     (e', fx) \<leftarrow> f e;
     (es', fxs) \<leftarrow> mc_sweep_list f es;
     Some ((case e' of None \<Rightarrow> es' | Some e' \<Rightarrow> e' # es'), fx @ fxs)
   }"

definition mc_sweep_bucket ::
  "(net_bridge_mc_fdb_entry \<Rightarrow> mc_act option) \<Rightarrow> u8 \<Rightarrow> net_bridge \<Rightarrow> net_bridge option" where
  "mc_sweep_bucket f i br = do {
     (es, fxs) \<leftarrow> mc_sweep_list f (b_mc_hash br i);
     Some (br\<lparr>b_mc_hash := (b_mc_hash br)(i := es), b_out := b_out br @ fxs\<rparr>)
   }"

definition mc_sweep ::
  "(net_bridge_mc_fdb_entry \<Rightarrow> mc_act option) \<Rightarrow> net_bridge \<Rightarrow> net_bridge option" where
  "mc_sweep f br = for_each (mc_sweep_bucket f) buckets br"

section \<open>Reporters\<close>

text \<open>The first reporter with the address, and the list without it.\<close>

fun remove_reporter ::
  "u32 \<Rightarrow> net_bridge_mc_rep_entry list \<Rightarrow> net_bridge_mc_rep_entry list \<times> net_bridge_mc_rep_entry list" where
  "remove_reporter rep [] = ([], [])"
| "remove_reporter rep (r # rs) =
     (if rep_addr r = rep then ([r], rs)
      else let (gone, kept) = remove_reporter rep rs in (gone, r # kept))"

definition br_igmp_mc_fdb_del_entry ::
  "nat \<Rightarrow> u32 option \<Rightarrow> net_bridge_mc_fdb_entry \<Rightarrow> mc_act" where
  "br_igmp_mc_fdb_del_entry igmp_snooping rep e =
     (let (gone, kept) = (case rep of None \<Rightarrow> (mc_rep_list e, []) | Some r \<Rightarrow> remove_reporter r (mc_rep_list e));
          fx = (if igmp_snooping \<noteq> 0
                then map (\<lambda>r. Mcpd_purge_entry (mc_txGrp e) (mc_rxGrp e) (rep_addr r)) gone else [])
      in if kept = [] then (None, fx @ [Mcast_blog_release (mc_blog_idx e)])
         else (Some (e\<lparr>mc_rep_list := kept\<rparr>), fx))"

definition br_igmp_rep_find :: "net_bridge_mc_fdb_entry \<Rightarrow> u32 \<Rightarrow> net_bridge_mc_rep_entry option" where
  "br_igmp_rep_find e rep = find (\<lambda>r. rep_addr r = rep) (mc_rep_list e)"

section \<open>The timer\<close>

definition BR_IGMP_MEMBERSHIP_TIMEOUT :: u32 where "BR_IGMP_MEMBERSHIP_TIMEOUT = 260"
definition TIMER_CHECK_TIMEOUT :: u32 where "TIMER_CHECK_TIMEOUT = 2 * HZ"
definition MCPD_NETLINK_SKB_TIMEOUT_MS :: u32 where "MCPD_NETLINK_SKB_TIMEOUT_MS = 2000"

text \<open>Frames the multicast daemon has not decided on yet are dropped when their time is up.\<close>

fun drop_delayed ::
  "(sk_buff \<times> u32 \<Rightarrow> bool) \<Rightarrow> (sk_buff \<times> u32) option list \<Rightarrow> (sk_buff \<times> u32) option list \<times> br_effect list" where
  "drop_delayed P [] = ([], [])"
| "drop_delayed P (d # ds) =
     (let (ds', fx) = drop_delayed P ds
      in case d of
           None \<Rightarrow> (None # ds', fx)
         | Some x \<Rightarrow> if P x then (None # ds', Kfree_skb (fst x) # fx) else (Some x # ds', fx))"

definition drop_delayed_skbs :: "(sk_buff \<times> u32 \<Rightarrow> bool) \<Rightarrow> net_bridge \<Rightarrow> net_bridge" where
  "drop_delayed_skbs P br =
     (let (ds, fx) = drop_delayed P (b_igmp_delayed_skb br)
      in br\<lparr>b_igmp_delayed_skb := ds, b_out := b_out br @ fx\<rparr>)"

definition br_igmp_process_timer_check :: "net_bridge \<Rightarrow> net_bridge" where
  "br_igmp_process_timer_check br =
     drop_delayed_skbs (\<lambda>(_, expiryTime). time_before expiryTime (b_jiffies br)) br"

definition br_igmp_get_next_timer_expiry :: "net_bridge \<Rightarrow> u32 \<times> bool" where
  "br_igmp_get_next_timer_expiry br =
     foldl (\<lambda>(earliest, found) d. case d of
         None \<Rightarrow> (earliest, found)
       | Some (_, expiryTime) \<Rightarrow>
           if time_after earliest expiryTime then (expiryTime, True) else (earliest, found))
       (b_jiffies br + MCPD_NETLINK_SKB_TIMEOUT_MS * 2, False) (b_igmp_delayed_skb br)"

definition all_mc_entries :: "net_bridge \<Rightarrow> net_bridge_mc_fdb_entry list" where
  "all_mc_entries br = concat (map (b_mc_hash br) buckets)"

definition br_igmp_set_timer :: "net_bridge \<Rightarrow> net_bridge" where
  "br_igmp_set_timer br =
     (let tstamp = b_jiffies br + BR_IGMP_MEMBERSHIP_TIMEOUT * HZ * 2;
          (pendTimeout, found) = br_igmp_get_next_timer_expiry br
      in if b_igmp_snooping br = 0 \<and> \<not> found then br\<lparr>b_igmp_timer := del_timer (b_igmp_timer br)\<rparr>
         else
           let tstamp = (if found \<and> time_after tstamp pendTimeout then pendTimeout else tstamp);
               (tstamp, found) =
                 (if b_igmp_snooping br \<noteq> 0
                  then foldl (\<lambda>(tstamp, found) r.
                      if time_after tstamp (rep_tstamp r) then (rep_tstamp r, True) else (tstamp, found))
                    (tstamp, found) (concat (map mc_rep_list (all_mc_entries br)))
                  else (tstamp, found))
           in if \<not> found then br\<lparr>b_igmp_timer := del_timer (b_igmp_timer br)\<rparr>
              else br\<lparr>b_igmp_timer := mod_timer (b_igmp_timer br) (tstamp + TIMER_CHECK_TIMEOUT)\<rparr>)"

text \<open>The reporters of one entry whose time is up, removed one by one.\<close>

fun timeout_reporters ::
  "u32 \<Rightarrow> nat \<Rightarrow> net_bridge_mc_rep_entry list \<Rightarrow> mc_act \<Rightarrow> mc_act" where
  "timeout_reporters jiffies igmp_snooping [] act = act"
| "timeout_reporters jiffies igmp_snooping (r # rs) (None, fx) = (None, fx)"
| "timeout_reporters jiffies igmp_snooping (r # rs) (Some e, fx) =
     (if time_after_eq jiffies (rep_tstamp r)
      then let (e', fx') = br_igmp_mc_fdb_del_entry igmp_snooping (Some (rep_addr r)) e
           in timeout_reporters jiffies igmp_snooping rs (e', fx @ fx')
      else timeout_reporters jiffies igmp_snooping rs (Some e, fx))"

definition timeout_action :: "net_bridge \<Rightarrow> net_bridge_mc_fdb_entry \<Rightarrow> mc_act option" where
  "timeout_action br e =
     Some (timeout_reporters (b_jiffies br) (b_igmp_snooping br) (mc_rep_list e) (Some e, []))"

definition br_igmp_query_timeout :: "net_bridge \<Rightarrow> net_bridge option" where
  "br_igmp_query_timeout br = mc_sweep (timeout_action br) br"

definition br_igmp_timeout :: "net_bridge \<Rightarrow> net_bridge option" where
  "br_igmp_timeout br = do {
     br \<leftarrow> br_igmp_query_timeout br;
     Some (br_igmp_set_timer (br_igmp_process_timer_check br))
   }"

section \<open>Changing the table\<close>

definition wipe_action :: "u32 \<Rightarrow> u16 \<Rightarrow> net_bridge \<Rightarrow> net_bridge_mc_fdb_entry \<Rightarrow> mc_act option" where
  "wipe_action rep oldPort br e = do {
     dst \<leftarrow> br_get_port br (mc_dst e);
     Some (if p_port_no dst = oldPort \<and> br_igmp_rep_find e rep \<noteq> None
           then br_igmp_mc_fdb_del_entry (b_igmp_snooping br) (Some rep) e
           else (Some e, []))
   }"

definition br_igmp_wipe_reporter_for_port :: "u32 \<Rightarrow> u16 \<Rightarrow> net_bridge \<Rightarrow> net_bridge option" where
  "br_igmp_wipe_reporter_for_port rep oldPort br = do {
     br \<leftarrow> mc_sweep (wipe_action rep oldPort br) br;
     Some (br_igmp_set_timer br)
   }"

text \<open>Adding modes, and the filter mode of an entry.\<close>

datatype snoop_mode = SNOOP_IN_ADD | SNOOP_IN_CLEAR | SNOOP_EX_ADD | SNOOP_EX_CLEAR

definition mc_matches ::
  "u16 \<Rightarrow> u32 \<Rightarrow> u32 \<Rightarrow> filt_mode \<Rightarrow> u32 \<Rightarrow> nat \<Rightarrow> net_bridge_mc_fdb_entry \<Rightarrow> bool" where
  "mc_matches prt rxGrp txGrp filt_mode src from_dev e \<longleftrightarrow>
     mc_txGrp e = txGrp \<and> mc_rxGrp e = rxGrp \<and> src = mc_src e \<and> filt_mode = mc_filt_mode e
     \<and> mc_from_dev e = from_dev \<and> mc_dst e = prt"

fun refresh_reporter :: "u32 \<Rightarrow> u32 \<Rightarrow> net_bridge_mc_rep_entry list \<Rightarrow> net_bridge_mc_rep_entry list" where
  "refresh_reporter rep tstamp [] = []"
| "refresh_reporter rep tstamp (r # rs) =
     (if rep_addr r = rep then r\<lparr>rep_tstamp := tstamp\<rparr> # rs else r # refresh_reporter rep tstamp rs)"

text \<open>What \<open>br_mc_fdb_update\<close> does to an entry it has found; None when a new reporter entry cannot
  be allocated.\<close>

definition mc_report ::
  "br_env \<Rightarrow> u32 \<Rightarrow> u32 \<Rightarrow> net_bridge_mc_fdb_entry \<Rightarrow> net_bridge_mc_fdb_entry option" where
  "mc_report env jiffies rep e =
     (let tstamp = jiffies + BR_IGMP_MEMBERSHIP_TIMEOUT * HZ
      in case br_igmp_rep_find e rep of
           None \<Rightarrow>
             if env_mc_rep_alloc env
             then Some (e\<lparr>mc_rep_list := mc_rep_list e @ [\<lparr>rep_addr = rep, rep_tstamp = tstamp\<rparr>]\<rparr>)
             else None
         | Some r \<Rightarrow> Some (e\<lparr>mc_rep_list := refresh_reporter rep tstamp (mc_rep_list e)\<rparr>))"

text \<open>\<open>br_igmp_set_timer\<close> computes the timer from the whole table, so one call after the loop has the
  effect of the calls in it.\<close>

definition br_mc_fdb_update ::
  "br_env \<Rightarrow> u16 \<Rightarrow> u32 \<Rightarrow> u32 \<Rightarrow> u32 \<Rightarrow> snoop_mode \<Rightarrow> u32 \<Rightarrow> nat \<Rightarrow> net_bridge \<Rightarrow> bool \<times> net_bridge" where
  "br_mc_fdb_update env prt rxGrp txGrp rep mode src from_dev br =
     (let filt_mode = (if mode = SNOOP_IN_ADD then MCAST_INCLUDE else MCAST_EXCLUDE);
          i = br_igmp_mc_fdb_hash br txGrp;
          hit = mc_matches prt rxGrp txGrp filt_mode src from_dev;
          report = mc_report env (b_jiffies br) rep;
          br' = br\<lparr>b_mc_hash := (b_mc_hash br)(i := map (\<lambda>e. if hit e then case_option e id (report e) else e)
                     (b_mc_hash br i))\<rparr>
      in (list_ex hit (b_mc_hash br i),
          if list_ex (\<lambda>e. hit e \<and> report e \<noteq> None) (b_mc_hash br i) then br_igmp_set_timer br' else br'))"

definition new_mc_entry ::
  "u16 \<Rightarrow> u32 \<Rightarrow> u32 \<Rightarrow> u32 \<Rightarrow> filt_mode \<Rightarrow> u16 \<Rightarrow> u32 \<Rightarrow> bool \<Rightarrow> int \<Rightarrow> nat \<Rightarrow> nat \<Rightarrow> u32 \<Rightarrow> net_bridge_mc_fdb_entry" where
  "new_mc_entry prt rxGrp txGrp rep filt_mode tci src lanppp excludePort wan_ops from_dev jiffies =
     \<lparr>mc_dst = prt, mc_rxGrp = rxGrp, mc_txGrp = txGrp,
      mc_rep_list = [\<lparr>rep_addr = rep, rep_tstamp = jiffies + BR_IGMP_MEMBERSHIP_TIMEOUT * HZ\<rparr>],
      mc_src = src, mc_filt_mode = filt_mode, mc_lan_tci = tci, mc_type = wan_ops,
      mc_lanppp = lanppp, mc_excludePort = excludePort, mc_from_dev = from_dev, mc_root = True,
      mc_blog_idx = None\<rparr>"

text \<open>The result is the C return value: 0 nothing to add, 1 added, \<open>- ENOMEM\<close> or the -1 of
  \<open>br_mcast_blog_process\<close>. \<open>prt\<close> and \<open>from_dev\<close> may be NULL.\<close>

definition br_igmp_mc_fdb_add ::
  "br_env \<Rightarrow> net_device option \<Rightarrow> nat \<Rightarrow> u16 option \<Rightarrow> u32 \<Rightarrow> u32 \<Rightarrow> u32 \<Rightarrow> snoop_mode \<Rightarrow> u16 \<Rightarrow> u32
    \<Rightarrow> bool \<Rightarrow> int \<Rightarrow> net_bridge \<Rightarrow> int \<times> net_bridge" where
  "br_igmp_mc_fdb_add env from_dev wan_ops prt rxGrp txGrp rep mode tci src lanppp excludePort br =
     (case (prt, from_dev) of
        (Some prt, Some from_dev) \<Rightarrow>
          if \<not> br_igmp_control_filter None rxGrp \<or> \<not> br_igmp_control_filter None txGrp then (0, br)
          else if dev_path_refcount from_dev \<noteq> 0 then (0, br)
          else if mode \<noteq> SNOOP_IN_ADD \<and> mode \<noteq> SNOOP_EX_ADD then (0, br)
          else if \<not> env_mc_fdb_alloc env \<or> \<not> env_mc_rep_alloc env then (- 12, br)
          else
            let (found, br) = br_mc_fdb_update env prt rxGrp txGrp rep mode src (dev_ifindex from_dev) br
            in if found then (0, br)
               else
                 let e = new_mc_entry prt rxGrp txGrp rep
                           (if mode = SNOOP_IN_ADD then MCAST_INCLUDE else MCAST_EXCLUDE)
                           tci src lanppp excludePort wan_ops (dev_ifindex from_dev) (b_jiffies br);
                     i = br_igmp_mc_fdb_hash br txGrp
                 in case env_mcast_blog_process env e of
                      None \<Rightarrow> (- 1, br)
                    | Some (e, copies) \<Rightarrow>
                        (1, br_igmp_set_timer
                          (br\<lparr>b_mc_hash := (b_mc_hash br)(i := rev copies @ e # b_mc_hash br i)\<rparr>))
      | _ \<Rightarrow> (0, br))"

definition cleanup_action :: "net_bridge \<Rightarrow> net_bridge_mc_fdb_entry \<Rightarrow> mc_act option" where
  "cleanup_action br e = Some (br_igmp_mc_fdb_del_entry (b_igmp_snooping br) None e)"

definition br_igmp_mc_fdb_cleanup :: "net_bridge \<Rightarrow> net_bridge option" where
  "br_igmp_mc_fdb_cleanup br = do {
     br \<leftarrow> mc_sweep (cleanup_action br) br;
     Some (br_igmp_set_timer br)
   }"

definition remove_action ::
  "(net_bridge_mc_fdb_entry \<Rightarrow> bool) \<Rightarrow> u32 \<Rightarrow> net_bridge \<Rightarrow> net_bridge_mc_fdb_entry \<Rightarrow> mc_act option" where
  "remove_action hit rep br e =
     Some (if hit e then br_igmp_mc_fdb_del_entry (b_igmp_snooping br) (Some rep) e else (Some e, []))"

definition br_igmp_mc_fdb_remove ::
  "net_device option \<Rightarrow> u16 option \<Rightarrow> u32 \<Rightarrow> u32 \<Rightarrow> u32 \<Rightarrow> snoop_mode \<Rightarrow> u32 \<Rightarrow> net_bridge \<Rightarrow> net_bridge option" where
  "br_igmp_mc_fdb_remove from_dev prt rxGrp txGrp rep mode src br =
     (case (prt, from_dev) of
        (Some prt, Some from_dev) \<Rightarrow>
          if \<not> br_igmp_control_filter None txGrp then Some br
          else if \<not> br_igmp_control_filter None rxGrp then Some br
          else if dev_path_refcount from_dev \<noteq> 0 then Some br
          else if mode \<noteq> SNOOP_IN_CLEAR \<and> mode \<noteq> SNOOP_EX_CLEAR then Some br
          else do {
            let filt_mode = (if mode = SNOOP_IN_CLEAR then MCAST_INCLUDE else MCAST_EXCLUDE);
            let hit = mc_matches prt rxGrp txGrp filt_mode src (dev_ifindex from_dev);
            br \<leftarrow> mc_sweep_bucket (remove_action hit rep br) (br_igmp_mc_fdb_hash br txGrp) br;
            Some (br_igmp_set_timer br)
          }
      | _ \<Rightarrow> Some br)"

definition if_change_action ::
  "nat option \<Rightarrow> net_bridge \<Rightarrow> net_bridge_mc_fdb_entry \<Rightarrow> mc_act option" where
  "if_change_action ndev br e =
     (case ndev of
        None \<Rightarrow> Some (br_igmp_mc_fdb_del_entry (b_igmp_snooping br) None e)
      | Some i \<Rightarrow> do {
          dst \<leftarrow> br_get_port br (mc_dst e);
          Some (if dev_ifindex (p_dev dst) = i \<or> mc_from_dev e = i
                then br_igmp_mc_fdb_del_entry (b_igmp_snooping br) None e else (Some e, []))
        })"

definition br_igmp_process_if_change :: "nat option \<Rightarrow> net_bridge \<Rightarrow> net_bridge option" where
  "br_igmp_process_if_change ndev br = do {
     br \<leftarrow> mc_sweep (if_change_action ndev br) br;
     Some (br_igmp_set_timer br)
   }"

text \<open>The second pass of \<open>br_igmp_mc_fdb_update_bydev\<close> asks the flow accelerator again for the entries
  that are kept; copies it makes go to the head of the bucket that is being swept.\<close>

definition mc_bydev :: "net_device \<Rightarrow> net_bridge \<Rightarrow> net_bridge_mc_fdb_entry \<Rightarrow> bool option" where
  "mc_bydev dev br e = do {
     dst \<leftarrow> br_get_port br (mc_dst e);
     Some (dev_ifindex (p_dev dst) = dev_ifindex dev \<or> mc_from_dev e = dev_ifindex dev)
   }"

fun mc_reprocess ::
  "br_env \<Rightarrow> net_device \<Rightarrow> net_bridge \<Rightarrow> net_bridge_mc_fdb_entry list
    \<Rightarrow> (net_bridge_mc_fdb_entry list \<times> net_bridge_mc_fdb_entry list \<times> br_effect list) option" where
  "mc_reprocess env dev br [] = Some ([], [], [])"
| "mc_reprocess env dev br (e # es) = do {
     b \<leftarrow> (if mc_root e then mc_bydev dev br e else Some False);
     let (keep, copies, fx) =
       (if b then
          (case env_mcast_blog_process env e of
             None \<Rightarrow> (let (e', fx) = br_igmp_mc_fdb_del_entry (b_igmp_snooping br) None e in (e', [], fx))
           | Some (e', copies) \<Rightarrow> (Some e', copies, []))
        else (Some e, [], []));
     (es', cs, fxs) \<leftarrow> mc_reprocess env dev br es;
     Some ((case keep of None \<Rightarrow> es' | Some e' \<Rightarrow> e' # es'), cs @ rev copies, fx @ fxs)
   }"

definition mc_reprocess_bucket ::
  "br_env \<Rightarrow> net_device \<Rightarrow> u8 \<Rightarrow> net_bridge \<Rightarrow> net_bridge option" where
  "mc_reprocess_bucket env dev i br = do {
     (es, cs, fxs) \<leftarrow> mc_reprocess env dev br (b_mc_hash br i);
     Some (br\<lparr>b_mc_hash := (b_mc_hash br)(i := cs @ es), b_out := b_out br @ fxs\<rparr>)
   }"

definition bydev_action ::
  "net_device \<Rightarrow> bool \<Rightarrow> net_bridge \<Rightarrow> net_bridge_mc_fdb_entry \<Rightarrow> mc_act option" where
  "bydev_action dev flushAll br e = do {
     b \<leftarrow> mc_bydev dev br e;
     Some (if b then
         (if \<not> mc_root e \<or> flushAll then br_igmp_mc_fdb_del_entry (b_igmp_snooping br) None e
          else (Some (e\<lparr>mc_blog_idx := None\<rparr>), [Mcast_blog_release (mc_blog_idx e)]))
       else (Some e, []))
   }"

definition br_igmp_mc_fdb_update_bydev ::
  "br_env \<Rightarrow> net_device \<Rightarrow> bool \<Rightarrow> net_bridge \<Rightarrow> net_bridge option" where
  "br_igmp_mc_fdb_update_bydev env dev flushAll br =
     (if dev_path_refcount dev \<noteq> 0 then Some br
      else do {
        br \<leftarrow> mc_sweep (bydev_action dev flushAll br) br;
        br \<leftarrow> (if flushAll then Some br else for_each (mc_reprocess_bucket env dev) buckets br);
        Some (br_igmp_set_timer br)
      })"

definition IFF_EBRIDGE :: u32 where "IFF_EBRIDGE = 0x2"

text \<open>On this bridge; \<open>dev\<close> is either the bridge device itself or not a bridge.\<close>

definition br_igmp_process_device_removal :: "net_device \<Rightarrow> net_bridge \<Rightarrow> net_bridge" where
  "br_igmp_process_device_removal dev br =
     (if and (dev_priv_flags dev) IFF_EBRIDGE \<noteq> 0
      then (if dev_ifindex dev = dev_ifindex (b_dev br) then drop_delayed_skbs (\<lambda>_. True) br else br)
      else drop_delayed_skbs (\<lambda>(skb, _). dev_ifindex (skb_dev skb) = dev_ifindex dev) br)"

definition br_igmp_wipe_pending_skbs :: "net_bridge \<Rightarrow> net_bridge" where
  "br_igmp_wipe_pending_skbs br = drop_delayed_skbs (\<lambda>_. True) br"

text \<open>\<open>br_mcast_handle_netdevice_events\<close> for the events \<open>NETDEV_DOWN\<close>, \<open>NETDEV_GOING_DOWN\<close> and
  \<open>NETDEV_CHANGE\<close>; the MLD table's part is logged.\<close>

definition br_mcast_handle_netdevice_events ::
  "br_env \<Rightarrow> net_device \<Rightarrow> net_bridge \<Rightarrow> net_bridge option" where
  "br_mcast_handle_netdevice_events env ndev br = do {
     br \<leftarrow> br_igmp_mc_fdb_update_bydev env ndev True br;
     Some (emit (Br_mcast_netdevice_event (dev_ifindex ndev)) (br_igmp_process_device_removal ndev br))
   }"

end
