(* ===== verification/Igmp_Inv.thy ===== *)
theory Igmp_Inv
  imports Igmp_Db
begin

text \<open>
  The multicast group table under the operations of theory \<open>Igmp_Db\<close>. The locale \<open>mc_action\<close> is the
  contract between a loop body and the sweep that runs it: a body that does not fault on a good
  entry and leaves nothing or a good entry. Every loop of \<open>br_igmp.c\<close> over the table is an
  instance.
\<close>

section \<open>The invariant\<close>

text \<open>An entry is in the bucket of its group, its port exists, and it has at least one reporter, no
  two of them with the same address.\<close>

definition mc_entry_ok :: "net_bridge \<Rightarrow> u8 \<Rightarrow> net_bridge_mc_fdb_entry \<Rightarrow> bool" where
  "mc_entry_ok br i e \<longleftrightarrow> br_igmp_mc_fdb_hash br (mc_txGrp e) = i \<and> mc_dst e \<in> set (port_nos br)
     \<and> mc_rep_list e \<noteq> [] \<and> distinct (map rep_addr (mc_rep_list e))"

definition mc_wf :: "net_bridge \<Rightarrow> bool" where
  "mc_wf br \<longleftrightarrow> (\<forall>i. \<forall>e \<in> set (b_mc_hash br i). mc_entry_ok br i e)"

definition mc_core :: "net_bridge \<Rightarrow> net_bridge" where
  "mc_core br = br\<lparr>b_mc_hash := (\<lambda>_. []), b_igmp_timer := None, b_igmp_delayed_skb := [], b_out := []\<rparr>"

lemma mc_core_upds [simp]:
  "mc_core (br\<lparr>b_mc_hash := h\<rparr>) = mc_core br" "mc_core (br\<lparr>b_igmp_timer := t\<rparr>) = mc_core br"
  "mc_core (br\<lparr>b_igmp_delayed_skb := d\<rparr>) = mc_core br" "mc_core (br\<lparr>b_out := fx\<rparr>) = mc_core br"
  "mc_core (emit e br) = mc_core br"
  by (simp_all add: mc_core_def emit_def)

lemma mc_core_fields [simp]:
  "b_port_list (mc_core br) = b_port_list br" "b_mc_salt (mc_core br) = b_mc_salt br"
  "b_igmp_snooping (mc_core br) = b_igmp_snooping br" "b_jiffies (mc_core br) = b_jiffies br"
  "b_hash (mc_core br) = b_hash br" "b_num_fdb_entries (mc_core br) = b_num_fdb_entries br"
  "b_fdb_salt (mc_core br) = b_fdb_salt br" "b_bridge_id (mc_core br) = b_bridge_id br"
  "b_designated_root (mc_core br) = b_designated_root br" "b_root_port (mc_core br) = b_root_port br"
  "b_root_path_cost (mc_core br) = b_root_path_cost br" "b_stp_enabled (mc_core br) = b_stp_enabled br"
  "b_dev (mc_core br) = b_dev br" "b_tcn_timer (mc_core br) = b_tcn_timer br"
  by (simp_all add: mc_core_def)

lemma mc_core_eqD:
  assumes "mc_core br' = mc_core br"
  shows "b_port_list br' = b_port_list br" "b_mc_salt br' = b_mc_salt br"
    "b_igmp_snooping br' = b_igmp_snooping br" "b_jiffies br' = b_jiffies br"
    "b_hash br' = b_hash br" "b_num_fdb_entries br' = b_num_fdb_entries br"
    "b_fdb_salt br' = b_fdb_salt br" "b_bridge_id br' = b_bridge_id br"
    "b_designated_root br' = b_designated_root br" "b_root_port br' = b_root_port br"
    "b_root_path_cost br' = b_root_path_cost br" "b_stp_enabled br' = b_stp_enabled br"
    "b_dev br' = b_dev br" "b_tcn_timer br' = b_tcn_timer br"
  using assms by (metis mc_core_fields)+

lemma mc_core_derived:
  assumes "mc_core br' = mc_core br"
  shows "port_nos br' = port_nos br" "br_get_port br' n = br_get_port br n"
    "br_igmp_mc_fdb_hash br' g = br_igmp_mc_fdb_hash br g" "mc_entry_ok br' i e = mc_entry_ok br i e"
    "stp_wf br' = stp_wf br"
  using mc_core_eqD [OF assms]
  by (simp_all add: port_nos_def br_get_port_def br_igmp_mc_fdb_hash_def mc_entry_ok_def stp_wf_def)

lemma mc_core_fdb_wf:
  assumes "mc_core br' = mc_core br"
  shows "fdb_wf br' = fdb_wf br" "fdb_lookup br' = fdb_lookup br"
proof -
  note c = mc_core_eqD [OF assms]
  show l: "fdb_lookup br' = fdb_lookup br" using c by (intro fdb_lookup_cong) simp_all
  have "fdb_table br' = fdb_table br" using c by (intro fdb_table_cong) simp_all
  moreover have "entry_ok br' f = entry_ok br f" for f
    using mc_core_derived(1) [OF assms] by (simp add: entry_ok_def split: option.split)
  ultimately show "fdb_wf br' = fdb_wf br" using c l by (simp add: fdb_wf_def)
qed

lemma br_igmp_set_timer_simps [simp]:
  "mc_core (br_igmp_set_timer br) = mc_core br" "b_mc_hash (br_igmp_set_timer br) = b_mc_hash br"
  "b_igmp_delayed_skb (br_igmp_set_timer br) = b_igmp_delayed_skb br" "b_out (br_igmp_set_timer br) = b_out br"
  by (simp_all add: br_igmp_set_timer_def Let_def split_beta)

lemma drop_delayed_skbs_simps [simp]:
  "mc_core (drop_delayed_skbs P br) = mc_core br" "b_mc_hash (drop_delayed_skbs P br) = b_mc_hash br"
  by (simp_all add: drop_delayed_skbs_def Let_def split_beta)

lemma mc_wf_cong:
  assumes "mc_core br' = mc_core br" "b_mc_hash br' = b_mc_hash br"
  shows "mc_wf br' = mc_wf br"
  using mc_core_derived(4) [OF assms(1)] assms(2) by (simp add: mc_wf_def)

section \<open>Sweeps\<close>

text \<open>What is left of an entry.\<close>

definition left :: "(net_bridge_mc_fdb_entry \<Rightarrow> mc_act option) \<Rightarrow> net_bridge_mc_fdb_entry \<Rightarrow> net_bridge_mc_fdb_entry option" where
  "left f e = Option.bind (f e) fst"

lemma mc_sweep_list_runs:
  assumes "\<And>e. e \<in> set es \<Longrightarrow> f e \<noteq> None"
  shows "runs (mc_sweep_list f es) (\<lambda>(es', fxs). es' = List.map_filter (left f) es)"
  using assms
proof (induction es)
  case (Cons e es)
  obtain a fx where a: "f e = Some (a, fx)" using Cons.prems [of e] by auto
  have l: "left f e = a" by (simp add: left_def a)
  have "runs (mc_sweep_list f es) (\<lambda>(es', fxs). es' = List.map_filter (left f) es)"
    using Cons by simp
  then show ?case
    by (auto simp: a l List.map_filter_simps split: option.split elim!: runs_mono)
qed (simp add: List.map_filter_simps)

lemma mc_sweep_bucket_runs:
  assumes "\<And>e. e \<in> set (b_mc_hash br i) \<Longrightarrow> f e \<noteq> None"
  shows "runs (mc_sweep_bucket f i br) (\<lambda>br'. mc_core br' = mc_core br
    \<and> b_igmp_timer br' = b_igmp_timer br \<and> b_igmp_delayed_skb br' = b_igmp_delayed_skb br
    \<and> b_mc_hash br' = (b_mc_hash br)(i := List.map_filter (left f) (b_mc_hash br i)))"
  unfolding mc_sweep_bucket_def runs_bind
  by (rule runs_mono [OF mc_sweep_list_runs [OF assms]]) auto

lemma mc_sweep_runs:
  assumes "\<And>i e. e \<in> set (b_mc_hash br i) \<Longrightarrow> f e \<noteq> None"
  shows "runs (mc_sweep f br) (\<lambda>br'. mc_core br' = mc_core br
    \<and> b_igmp_timer br' = b_igmp_timer br \<and> b_igmp_delayed_skb br' = b_igmp_delayed_skb br
    \<and> b_mc_hash br' = (\<lambda>i. List.map_filter (left f) (b_mc_hash br i)))"
proof -
  let ?I = "\<lambda>pre br'. mc_core br' = mc_core br
    \<and> b_igmp_timer br' = b_igmp_timer br \<and> b_igmp_delayed_skb br' = b_igmp_delayed_skb br
    \<and> b_mc_hash br' = (\<lambda>i. if i \<in> set pre then List.map_filter (left f) (b_mc_hash br i) else b_mc_hash br i)"
  have "runs (mc_sweep f br) (?I buckets)"
    unfolding mc_sweep_def
  proof (rule for_each_prefix)
    fix pre i post s
    assume b: "buckets = pre @ i # post" and I: "?I pre s"
    have "i \<notin> set pre" using distinct_buckets unfolding b by simp
    then have "b_mc_hash s i = b_mc_hash br i" using I by simp
    with I assms show "runs (mc_sweep_bucket f i s) (?I (pre @ [i]))"
      by (intro runs_mono [OF mc_sweep_bucket_runs]) (auto simp: fun_eq_iff)
  qed simp
  then show ?thesis by (rule runs_mono) (simp add: set_buckets)
qed

lemma in_map_filter: "x \<in> set (List.map_filter g xs) \<longleftrightarrow> (\<exists>y \<in> set xs. g y = Some x)"
  by (induction xs) (auto simp: List.map_filter_simps split: option.splits)

locale mc_action =
  fixes act :: "net_bridge \<Rightarrow> net_bridge_mc_fdb_entry \<Rightarrow> mc_act option"
  assumes total: "mc_entry_ok br i e \<Longrightarrow> act br e \<noteq> None"
    and good: "mc_entry_ok br i e \<Longrightarrow> act br e = Some (Some e', fx) \<Longrightarrow> mc_entry_ok br i e'"
begin

lemma left_ok: "mc_entry_ok br i e \<Longrightarrow> left (act br) e = Some e' \<Longrightarrow> mc_entry_ok br i e'"
  using good by (auto simp: left_def bind_eq_Some_conv)

lemma sweep:
  assumes wf: "mc_wf br"
  shows "runs (mc_sweep (act br) br) (\<lambda>br'. mc_wf br' \<and> mc_core br' = mc_core br
    \<and> b_igmp_delayed_skb br' = b_igmp_delayed_skb br
    \<and> b_mc_hash br' = (\<lambda>i. List.map_filter (left (act br)) (b_mc_hash br i)))"
proof (rule runs_mono [OF mc_sweep_runs])
  show "act br e \<noteq> None" if "e \<in> set (b_mc_hash br i)" for i e
    using total [of br i e] that wf by (simp add: mc_wf_def)
  fix br'
  assume br': "mc_core br' = mc_core br \<and> b_igmp_timer br' = b_igmp_timer br
    \<and> b_igmp_delayed_skb br' = b_igmp_delayed_skb br
    \<and> b_mc_hash br' = (\<lambda>i. List.map_filter (left (act br)) (b_mc_hash br i))"
  have "mc_entry_ok br i e'" if "e' \<in> set (b_mc_hash br' i)" for i e'
  proof -
    have "\<exists>e \<in> set (b_mc_hash br i). left (act br) e = Some e'"
      using that br' by (simp add: in_map_filter)
    then obtain e where "e \<in> set (b_mc_hash br i)" "left (act br) e = Some e'" by blast
    with wf show ?thesis using left_ok [of br i e e'] by (simp add: mc_wf_def)
  qed
  then show "mc_wf br' \<and> mc_core br' = mc_core br \<and> b_igmp_delayed_skb br' = b_igmp_delayed_skb br
    \<and> b_mc_hash br' = (\<lambda>i. List.map_filter (left (act br)) (b_mc_hash br i))"
    using br' mc_core_derived(4) [of br' br] by (simp add: mc_wf_def)
qed

end

section \<open>The loop bodies\<close>

lemma remove_reporter_eq:
  "distinct (map rep_addr rs) \<Longrightarrow> snd (remove_reporter rep rs) = filter (\<lambda>r. rep_addr r \<noteq> rep) rs"
proof (induction rs)
  case (Cons r rs)
  have "filter (\<lambda>x. rep_addr x \<noteq> rep_addr r) rs = rs"
    using Cons.prems by (intro filter_True) (auto simp: image_iff)
  with Cons show ?case by (auto simp: split_beta Let_def)
qed simp

lemma del_entry_left:
  assumes "distinct (map rep_addr (mc_rep_list e))"
  shows "fst (br_igmp_mc_fdb_del_entry snoop rep e) =
    (case rep of None \<Rightarrow> None
     | Some r \<Rightarrow> (let rs = filter (\<lambda>x. rep_addr x \<noteq> r) (mc_rep_list e)
                  in if rs = [] then None else Some (e\<lparr>mc_rep_list := rs\<rparr>)))"
  using remove_reporter_eq [OF assms]
  by (auto simp: br_igmp_mc_fdb_del_entry_def Let_def split_beta split: option.split)

lemma mc_entry_ok_filter:
  assumes "mc_entry_ok br i e" "filter P (mc_rep_list e) \<noteq> []"
  shows "mc_entry_ok br i (e\<lparr>mc_rep_list := filter P (mc_rep_list e)\<rparr>)"
  using assms by (simp add: mc_entry_ok_def distinct_map_filter)

lemma del_entry_ok:
  assumes "mc_entry_ok br i e" "br_igmp_mc_fdb_del_entry snoop rep e = (Some e', fx)"
  shows "mc_entry_ok br i e'"
proof -
  have "fst (br_igmp_mc_fdb_del_entry snoop rep e) = Some e'" using assms(2) by simp
  moreover have "distinct (map rep_addr (mc_rep_list e))" using assms(1) by (simp add: mc_entry_ok_def)
  ultimately show ?thesis
    using mc_entry_ok_filter [OF assms(1)]
    by (auto simp: del_entry_left Let_def split: option.splits if_splits)
qed

text \<open>The reporters whose time is up go, the others stay.\<close>

lemma timeout_reporters_eq:
  assumes "mc_rep_list e = filter (\<lambda>r. \<not> time_after_eq now (rep_tstamp r)) ps @ rs" "distinct (map rep_addr (ps @ rs))"
  shows "fst (timeout_reporters now snoop rs (Some e, fx)) =
    (let keep = filter (\<lambda>r. \<not> time_after_eq now (rep_tstamp r)) (ps @ rs)
     in if rs = [] then Some e else if keep = [] then None else Some (e\<lparr>mc_rep_list := keep\<rparr>))"
  using assms
proof (induction rs arbitrary: e ps fx)
  case (Cons r rs)
  let ?keep = "\<lambda>rs. filter (\<lambda>r. \<not> time_after_eq now (rep_tstamp r)) rs"
  show ?case
  proof (cases "time_after_eq now (rep_tstamp r)")
    case True
    have d: "distinct (map rep_addr (mc_rep_list e))"
      using Cons.prems by (auto simp: distinct_map_filter)
    have "filter (\<lambda>x. rep_addr x \<noteq> rep_addr r) (mc_rep_list e) = ?keep ps @ rs"
    proof -
      have "filter (\<lambda>x. rep_addr x \<noteq> rep_addr r) (?keep ps) = ?keep ps"
        "filter (\<lambda>x. rep_addr x \<noteq> rep_addr r) rs = rs"
        using Cons.prems(2) by (auto intro!: filter_True filter_cong simp: image_iff)
      then show ?thesis by (simp add: Cons.prems(1))
    qed
    then have del: "fst (br_igmp_mc_fdb_del_entry snoop (Some (rep_addr r)) e)
        = (if ?keep ps @ rs = [] then None else Some (e\<lparr>mc_rep_list := ?keep ps @ rs\<rparr>))"
      using del_entry_left [OF d, of snoop "Some (rep_addr r)"] by (simp add: Let_def)
    show ?thesis
    proof (cases "?keep ps @ rs = []")
      case True
      with del \<open>time_after_eq now (rep_tstamp r)\<close> show ?thesis
        by (simp add: Let_def split_beta)
    next
      case False
      with del obtain fx' where fx': "br_igmp_mc_fdb_del_entry snoop (Some (rep_addr r)) e
          = (Some (e\<lparr>mc_rep_list := ?keep ps @ rs\<rparr>), fx')"
        by (metis prod.collapse)
      have "fst (timeout_reporters now snoop rs (Some (e\<lparr>mc_rep_list := ?keep ps @ rs\<rparr>), fx @ fx')) =
          (let keep = ?keep ((ps @ [r]) @ rs)
           in if rs = [] then Some (e\<lparr>mc_rep_list := ?keep ps @ rs\<rparr>) else if keep = [] then None
              else Some ((e\<lparr>mc_rep_list := ?keep ps @ rs\<rparr>)\<lparr>mc_rep_list := keep\<rparr>))"
        using Cons.prems True by (intro Cons.IH) simp_all
      with fx' True False show ?thesis by (auto simp: Let_def)
    qed
  next
    case False
    have "fst (timeout_reporters now snoop rs (Some e, fx)) =
        (let keep = ?keep ((ps @ [r]) @ rs)
         in if rs = [] then Some e else if keep = [] then None else Some (e\<lparr>mc_rep_list := keep\<rparr>))"
      using Cons.prems False by (intro Cons.IH) simp_all
    moreover have "e\<lparr>mc_rep_list := ?keep (ps @ [r])\<rparr> = e" if "rs = []"
      using Cons.prems False that by simp
    ultimately show ?thesis using False by (auto simp: Let_def)
  qed
qed simp

lemma timeout_left:
  assumes "mc_entry_ok br i e"
  shows "left (timeout_action br) e =
    (let keep = filter (\<lambda>r. \<not> time_after_eq (b_jiffies br) (rep_tstamp r)) (mc_rep_list e)
     in if keep = [] then None else Some (e\<lparr>mc_rep_list := keep\<rparr>))"
  using timeout_reporters_eq [of e "b_jiffies br" "[]" "mc_rep_list e" "b_igmp_snooping br" "[]"] assms
  by (simp add: left_def timeout_action_def mc_entry_ok_def)

interpretation timeout: mc_action timeout_action
proof
  fix br i e e' fx
  assume e: "mc_entry_ok br i e"
  show "timeout_action br e \<noteq> None" by (simp add: timeout_action_def)
  assume "timeout_action br e = Some (Some e', fx)"
  then have "left (timeout_action br) e = Some e'" by (simp add: left_def)
  then show "mc_entry_ok br i e'"
    using mc_entry_ok_filter [OF e] by (auto simp: timeout_left [OF e] Let_def split: if_splits)
qed

interpretation wipe: mc_action "wipe_action rep oldPort" for rep oldPort
proof
  fix br i e e' fx
  assume e: "mc_entry_ok br i e"
  then show "wipe_action rep oldPort br e \<noteq> None"
    using br_get_port_ex [of "mc_dst e" br] by (auto simp: wipe_action_def mc_entry_ok_def)
  assume "wipe_action rep oldPort br e = Some (Some e', fx)"
  then show "mc_entry_ok br i e'"
    using e del_entry_ok [OF e] by (auto simp: wipe_action_def bind_eq_Some_conv split: if_splits)
qed

interpretation cleanup: mc_action cleanup_action
  by unfold_locales (auto simp: cleanup_action_def intro: del_entry_ok)

interpretation remove: mc_action "remove_action hit rep" for hit rep
  by unfold_locales (auto simp: remove_action_def intro: del_entry_ok split: if_splits)

interpretation if_change: mc_action "if_change_action ndev" for ndev
proof
  fix br i e e' fx
  assume e: "mc_entry_ok br i e"
  then show "if_change_action ndev br e \<noteq> None"
    using br_get_port_ex [of "mc_dst e" br] by (auto simp: if_change_action_def mc_entry_ok_def split: option.split)
  assume "if_change_action ndev br e = Some (Some e', fx)"
  then show "mc_entry_ok br i e'"
    using e del_entry_ok [OF e]
    by (auto simp: if_change_action_def bind_eq_Some_conv split: if_splits option.splits)
qed

interpretation bydev: mc_action "bydev_action dev flushAll" for dev flushAll
proof
  fix br i e e' fx
  assume e: "mc_entry_ok br i e"
  then show "bydev_action dev flushAll br e \<noteq> None"
    using br_get_port_ex [of "mc_dst e" br] by (auto simp: bydev_action_def mc_bydev_def mc_entry_ok_def)
  assume "bydev_action dev flushAll br e = Some (Some e', fx)"
  then show "mc_entry_ok br i e'"
    using e del_entry_ok [OF e]
    by (auto simp: bydev_action_def bind_eq_Some_conv mc_entry_ok_def split: if_splits)
qed

section \<open>The operations keep the invariant\<close>

definition mc_kept :: "net_bridge \<Rightarrow> net_bridge \<Rightarrow> bool" where
  "mc_kept br br' \<longleftrightarrow> mc_wf br' \<and> mc_core br' = mc_core br"

lemma mc_wf_upds [simp]:
  "mc_wf (br_igmp_set_timer br) = mc_wf br" "mc_wf (drop_delayed_skbs P br) = mc_wf br"
  "mc_wf (emit fx br) = mc_wf br"
  by (rule mc_wf_cong; simp add: emit_def)+

lemma mc_kept_upds [simp]:
  "mc_kept br (br_igmp_set_timer br') = mc_kept br br'"
  "mc_kept br (drop_delayed_skbs P br') = mc_kept br br'" "mc_kept br (emit fx br') = mc_kept br br'"
  by (simp_all add: mc_kept_def)

lemma mc_kept_refl: "mc_wf br \<Longrightarrow> mc_kept br br"
  by (simp add: mc_kept_def)

lemma br_igmp_timeout_kept: "mc_wf br \<Longrightarrow> runs (br_igmp_timeout br) (mc_kept br)"
  unfolding br_igmp_timeout_def br_igmp_query_timeout_def br_igmp_process_timer_check_def runs_bind
  by (rule runs_mono [OF timeout.sweep]) (simp_all add: mc_kept_def)

lemma br_igmp_wipe_reporter_for_port_kept:
  "mc_wf br \<Longrightarrow> runs (br_igmp_wipe_reporter_for_port rep oldPort br) (mc_kept br)"
  unfolding br_igmp_wipe_reporter_for_port_def runs_bind
  by (rule runs_mono [OF wipe.sweep]) (simp_all add: mc_kept_def)

lemma br_igmp_mc_fdb_cleanup_kept:
  assumes "mc_wf br"
  shows "runs (br_igmp_mc_fdb_cleanup br) (\<lambda>br'. mc_kept br br' \<and> (\<forall>i. b_mc_hash br' i = []))"
proof -
  have "left (cleanup_action br) e = None" for e
    by (simp add: left_def cleanup_action_def br_igmp_mc_fdb_del_entry_def Let_def)
  then have none: "List.map_filter (left (cleanup_action br)) es = []" for es
    by (induction es) (simp_all add: List.map_filter_simps)
  show ?thesis
    unfolding br_igmp_mc_fdb_cleanup_def runs_bind
    by (rule runs_mono [OF cleanup.sweep [OF assms]]) (simp add: none mc_kept_def)
qed

lemma br_igmp_process_if_change_kept:
  "mc_wf br \<Longrightarrow> runs (br_igmp_process_if_change ndev br) (mc_kept br)"
  unfolding br_igmp_process_if_change_def runs_bind
  by (rule runs_mono [OF if_change.sweep]) (simp_all add: mc_kept_def)

text \<open>A bucket sweep keeps the invariant when its action does.\<close>

context mc_action
begin

lemma sweep_bucket:
  assumes wf: "mc_wf br"
  shows "runs (mc_sweep_bucket (act br) i br) (\<lambda>br'. mc_wf br' \<and> mc_core br' = mc_core br
    \<and> b_mc_hash br' = (b_mc_hash br)(i := List.map_filter (left (act br)) (b_mc_hash br i)))"
proof (rule runs_mono [OF mc_sweep_bucket_runs])
  show "act br e \<noteq> None" if "e \<in> set (b_mc_hash br i)" for e
    using total [of br i e] that wf by (simp add: mc_wf_def)
  fix br'
  assume br': "mc_core br' = mc_core br \<and> b_igmp_timer br' = b_igmp_timer br
    \<and> b_igmp_delayed_skb br' = b_igmp_delayed_skb br
    \<and> b_mc_hash br' = (b_mc_hash br)(i := List.map_filter (left (act br)) (b_mc_hash br i))"
  have "mc_entry_ok br i e'" if "e' \<in> set (List.map_filter (left (act br)) (b_mc_hash br i))" for e'
  proof -
    have "\<exists>e \<in> set (b_mc_hash br i). left (act br) e = Some e'"
      using that by (simp add: in_map_filter)
    then obtain e where "e \<in> set (b_mc_hash br i)" "left (act br) e = Some e'" by blast
    with wf show ?thesis using left_ok [of br i e e'] by (simp add: mc_wf_def)
  qed
  then show "mc_wf br' \<and> mc_core br' = mc_core br
    \<and> b_mc_hash br' = (b_mc_hash br)(i := List.map_filter (left (act br)) (b_mc_hash br i))"
    using br' wf mc_core_derived(4) [of br' br] by (simp add: mc_wf_def)
qed

end

lemma br_igmp_mc_fdb_remove_kept:
  assumes wf: "mc_wf br"
  shows "runs (br_igmp_mc_fdb_remove from_dev prt rxGrp txGrp rep mode src br) (mc_kept br)"
proof -
  have "runs (mc_sweep_bucket (remove_action hit rep br) i br) (\<lambda>br'. mc_kept br (br_igmp_set_timer br'))"
    for hit i
    by (rule runs_mono [OF remove.sweep_bucket [OF wf]]) (simp add: mc_kept_def)
  with mc_kept_refl [OF wf] show ?thesis
    by (simp add: br_igmp_mc_fdb_remove_def Let_def split: option.split)
qed

text \<open>The flow accelerator may fill in its own fields of an entry and make copies of it.\<close>

definition same_group :: "net_bridge_mc_fdb_entry \<Rightarrow> net_bridge_mc_fdb_entry \<Rightarrow> bool" where
  "same_group e' e \<longleftrightarrow> mc_dst e' = mc_dst e \<and> mc_rxGrp e' = mc_rxGrp e \<and> mc_txGrp e' = mc_txGrp e
     \<and> mc_rep_list e' = mc_rep_list e \<and> mc_src e' = mc_src e \<and> mc_filt_mode e' = mc_filt_mode e
     \<and> mc_from_dev e' = mc_from_dev e"

definition blog_process_ok :: "br_env \<Rightarrow> bool" where
  "blog_process_ok env \<longleftrightarrow> (\<forall>e e' cs. env_mcast_blog_process env e = Some (e', cs) \<longrightarrow>
     same_group e' e \<and> (\<forall>c \<in> set cs. same_group c e))"

lemma same_group_ok: "same_group e' e \<Longrightarrow> mc_entry_ok br i e' = mc_entry_ok br i e"
  by (simp add: same_group_def mc_entry_ok_def)

lemma mc_report_ok:
  assumes "mc_entry_ok br i e" "mc_report env now rep e = Some e'"
  shows "mc_entry_ok br i e'"
proof -
  have addr: "map rep_addr (refresh_reporter rep t rs) = map rep_addr rs" for t rs
    by (induction rs) simp_all
  have ne: "refresh_reporter rep t rs = [] \<longleftrightarrow> rs = []" for t rs
    by (cases rs) simp_all
  show ?thesis
    using assms by (auto simp: mc_report_def mc_entry_ok_def br_igmp_rep_find_def addr ne find_None_iff Let_def
      split: option.splits if_splits)
qed

lemma mc_kept_bucket:
  assumes "mc_kept br br1" "\<And>e. e \<in> set es \<Longrightarrow> mc_entry_ok br1 k e"
  shows "mc_kept br (br1\<lparr>b_mc_hash := (b_mc_hash br1)(k := es)\<rparr>)"
  using assms mc_core_derived(4) [of "br1\<lparr>b_mc_hash := (b_mc_hash br1)(k := es)\<rparr>" br1]
  by (simp add: mc_kept_def mc_wf_def)

lemma br_mc_fdb_update_kept:
  assumes wf: "mc_wf br"
  shows "mc_kept br (snd (br_mc_fdb_update env prt rxGrp txGrp rep mode src from_dev br))"
proof -
  have "mc_entry_ok br i (if hit e then case_option e id (mc_report env (b_jiffies br) rep e) else e)"
    if "e \<in> set (b_mc_hash br i)" for hit i e
    using that wf mc_report_ok [of br i e env "b_jiffies br" rep] by (auto simp: mc_wf_def split: option.split)
  then have "mc_kept br (br\<lparr>b_mc_hash := (b_mc_hash br)(k := map (\<lambda>e. if hit e
      then case_option e id (mc_report env (b_jiffies br) rep e) else e) (b_mc_hash br k))\<rparr>)" for k hit
    by (intro mc_kept_bucket [OF mc_kept_refl [OF wf]]) (auto simp only: set_map)
  then show ?thesis by (simp add: br_mc_fdb_update_def Let_def)
qed

lemma blog_process_okD:
  assumes "blog_process_ok env" "env_mcast_blog_process env e0 = Some (e, cs)" "x \<in> set (e # cs)"
  shows "same_group x e0"
  using assms unfolding blog_process_ok_def set_simps by blast

lemma blog_copies_ok:
  assumes "blog_process_ok env" "env_mcast_blog_process env e0 = Some (e, cs)" "mc_entry_ok br i e0"
    "x \<in> set (e # cs)"
  shows "mc_entry_ok br i x"
  using blog_process_okD [OF assms(1,2,4)] assms(3) same_group_ok by blast

lemma br_igmp_mc_fdb_add_kept:
  assumes wf: "mc_wf br" and env: "blog_process_ok env" and prt: "\<And>n. prt = Some n \<Longrightarrow> n \<in> set (port_nos br)"
  shows "mc_kept br (snd (br_igmp_mc_fdb_add env from_dev wan_ops prt rxGrp txGrp rep mode tci src lanppp excl br))"
proof -
  have add: "mc_kept br (br1\<lparr>b_mc_hash := (b_mc_hash br1)(br_igmp_mc_fdb_hash br1 txGrp
      := rev cs @ e # b_mc_hash br1 (br_igmp_mc_fdb_hash br1 txGrp))\<rparr>)"
    if k: "mc_kept br br1" and b: "env_mcast_blog_process env (new_mc_entry n rxGrp txGrp rep fm tci src lanppp excl wan_ops d j) = Some (e, cs)"
      and n: "prt = Some n" for br1 n fm d j e cs
  proof (rule mc_kept_bucket [OF k])
    fix x
    assume x: "x \<in> set (rev cs @ e # b_mc_hash br1 (br_igmp_mc_fdb_hash br1 txGrp))"
    have "mc_core br1 = mc_core br" using k by (simp add: mc_kept_def)
    then have "mc_entry_ok br1 (br_igmp_mc_fdb_hash br1 txGrp) (new_mc_entry n rxGrp txGrp rep fm tci src lanppp excl wan_ops d j)"
      using prt [OF n] mc_core_derived(1) [of br1 br] by (simp add: mc_entry_ok_def new_mc_entry_def)
    then show "mc_entry_ok br1 (br_igmp_mc_fdb_hash br1 txGrp) x"
      using x k blog_copies_ok [OF env b] by (auto simp: mc_kept_def mc_wf_def)
  qed
  show ?thesis
    using br_mc_fdb_update_kept [OF wf] add mc_kept_refl [OF wf]
    by (auto simp: br_igmp_mc_fdb_add_def Let_def split_beta split: option.split)
qed

lemma mc_bydev_runs: "mc_entry_ok br i e \<Longrightarrow> \<exists>b. mc_bydev dev br e = Some b"
  using br_get_port_ex [of "mc_dst e" br] by (auto simp: mc_bydev_def mc_entry_ok_def)

lemma mc_reprocess_runs:
  assumes env: "blog_process_ok env" and es: "\<And>e. e \<in> set es \<Longrightarrow> mc_entry_ok br i e"
  shows "runs (mc_reprocess env dev br es) (\<lambda>(es', cs, fx). \<forall>e \<in> set cs \<union> set es'. mc_entry_ok br i e)"
  using es
proof (induction es)
  case (Cons e es)
  have e: "mc_entry_ok br i e" using Cons.prems by simp
  obtain b where b: "(if mc_root e then mc_bydev dev br e else Some False) = Some b"
    using mc_bydev_runs [OF e, of dev] by (cases "mc_root e") auto
  have del: "fst (br_igmp_mc_fdb_del_entry (b_igmp_snooping br) None e) = None"
    by (simp add: br_igmp_mc_fdb_del_entry_def Let_def)
  obtain keep copies fx where k: "(if b then
      (case env_mcast_blog_process env e of
         None \<Rightarrow> (let (e', fx) = br_igmp_mc_fdb_del_entry (b_igmp_snooping br) None e in (e', [], fx))
       | Some (e', copies) \<Rightarrow> (Some e', copies, []))
    else (Some e, [], [])) = (keep, copies, fx)"
    by (metis prod_cases3)
  have ok: "\<forall>x \<in> set_option keep \<union> set copies. mc_entry_ok br i x"
    using k e blog_copies_ok [OF env _ e] del
    by (auto simp: split_beta Let_def split: if_splits option.splits)
  have "runs (mc_reprocess env dev br es) (\<lambda>(es', cs, fx). \<forall>e \<in> set cs \<union> set es'. mc_entry_ok br i e)"
    using Cons by simp
  then show ?case
    unfolding mc_reprocess.simps b Option.bind.simps(2) Let_def k [unfolded Let_def] prod.case runs_bind
    by (rule runs_mono) (use ok in \<open>auto split: option.splits\<close>)
qed simp

lemma br_igmp_mc_fdb_update_bydev_kept:
  assumes wf: "mc_wf br" and env: "flushAll \<or> blog_process_ok env"
  shows "runs (br_igmp_mc_fdb_update_bydev env dev flushAll br) (mc_kept br)"
proof -
  have "runs (for_each (mc_reprocess_bucket env dev) buckets br1) (mc_kept br)"
    if "mc_kept br br1" "blog_process_ok env" for br1
  proof (rule for_each_runs)
    fix i s
    assume s: "mc_kept br s"
    have "runs (mc_reprocess env dev s (b_mc_hash s i)) (\<lambda>(es, cs, fx). \<forall>e \<in> set cs \<union> set es. mc_entry_ok s i e)"
      by (rule mc_reprocess_runs [OF that(2)]) (use s in \<open>simp add: mc_kept_def mc_wf_def\<close>)
    then show "runs (mc_reprocess_bucket env dev i s) (mc_kept br)"
      unfolding mc_reprocess_bucket_def runs_bind
    proof (rule runs_mono, elim case_prodE, hypsubst)
      fix es cs fxs
      assume "\<forall>e \<in> set cs \<union> set es. mc_entry_ok s i e"
      then have "mc_kept br (s\<lparr>b_mc_hash := (b_mc_hash s)(i := cs @ es)\<rparr>)"
        by (intro mc_kept_bucket [OF s]) auto
      then show "runs (case (es, cs, fxs) of (es, cs, fxs) \<Rightarrow>
          Some (s\<lparr>b_mc_hash := (b_mc_hash s)(i := cs @ es), b_out := b_out s @ fxs\<rparr>)) (mc_kept br)"
        using mc_wf_cong [of "s\<lparr>b_mc_hash := (b_mc_hash s)(i := cs @ es), b_out := b_out s @ fxs\<rparr>"
            "s\<lparr>b_mc_hash := (b_mc_hash s)(i := cs @ es)\<rparr>"]
        by (simp add: mc_kept_def)
    qed
  qed (use that in simp_all)
  moreover have "runs (mc_sweep (bydev_action dev flushAll br) br) (mc_kept br)"
    by (rule runs_mono [OF bydev.sweep [OF wf]]) (simp add: mc_kept_def)
  ultimately show ?thesis
    using mc_kept_refl [OF wf] env
    by (auto simp: br_igmp_mc_fdb_update_bydev_def elim!: runs_mono)
qed

lemma br_mcast_handle_netdevice_events_kept:
  assumes "mc_wf br"
  shows "runs (br_mcast_handle_netdevice_events env dev br) (mc_kept br)"
  unfolding br_mcast_handle_netdevice_events_def runs_bind
  by (rule runs_mono [OF br_igmp_mc_fdb_update_bydev_kept [OF assms]])
    (simp_all add: br_igmp_process_device_removal_def)

end
