(* ===== verification/Igmp_Props.thy ===== *)
theory Igmp_Props
  imports Igmp_Inv Fdb_Props
begin

text \<open>
  What IGMP snooping promises: memberships last for their time, a leave undoes a report, a report
  makes the host a member, and the timer is armed for the next membership or held frame that
  runs out.
\<close>

section \<open>Time relative to now\<close>

lemma time_after_offset:
  fixes now :: u32
  assumes "unat (x - now) < 2 ^ 31" "unat (y - now) < 2 ^ 31"
  shows "time_after x y \<longleftrightarrow> unat (y - now) < unat (x - now)"
  using time_before_eq_add_iff [OF assms, of now]
  by (simp add: time_after_iff_not_before_eq word_le_nat_alt not_le)

text \<open>The search for the earliest time that both halves of \<open>br_igmp_set_timer\<close> make.\<close>

definition earlier :: "u32 \<times> bool \<Rightarrow> u32 \<Rightarrow> u32 \<times> bool" where
  "earlier = (\<lambda>(t, found) x. if time_after t x then (x, True) else (t, found))"

lemma foldl_earlier:
  assumes "unat (t0 - now) < 2 ^ 31" "\<And>x. x \<in> set xs \<Longrightarrow> unat (x - now) < 2 ^ 31"
    and "foldl earlier (t0, f0) xs = (t, f)"
  shows "unat (t - now) \<le> unat (t0 - now) \<and> (\<forall>x \<in> set xs. unat (t - now) \<le> unat (x - now))
    \<and> (if \<forall>x \<in> set xs. unat (t0 - now) \<le> unat (x - now) then t = t0 \<and> f = f0 else t \<in> set xs \<and> f)"
  using assms
proof (induction xs arbitrary: t0 f0)
  case (Cons x xs)
  have x: "unat (x - now) < 2 ^ 31" using Cons.prems(2) by simp
  show ?case
  proof (cases "unat (x - now) < unat (t0 - now)")
    case True
    then have "foldl earlier (x, True) xs = (t, f)"
      using Cons.prems(3) time_after_offset [OF Cons.prems(1) x] by (simp add: earlier_def)
    from Cons.IH [OF x _ this] Cons.prems(2) True show ?thesis by (auto split: if_splits)
  next
    case False
    then have "foldl earlier (t0, f0) xs = (t, f)"
      using Cons.prems(3) time_after_offset [OF Cons.prems(1) x] by (simp add: earlier_def)
    from Cons.IH [OF Cons.prems(1) _ this] Cons.prems(2) False show ?thesis by (auto split: if_splits)
  qed
qed simp

definition delayed_times :: "net_bridge \<Rightarrow> u32 list" where
  "delayed_times br = List.map_filter (map_option snd) (b_igmp_delayed_skb br)"

definition membership_times :: "net_bridge \<Rightarrow> u32 list" where
  "membership_times br = map rep_tstamp (concat (map mc_rep_list (all_mc_entries br)))"

lemma br_igmp_get_next_timer_expiry_eq:
  "br_igmp_get_next_timer_expiry br = foldl earlier (b_jiffies br + 4000, False) (delayed_times br)"
proof -
  have "foldl (\<lambda>(earliest, found) d. case d of
         None \<Rightarrow> (earliest, found)
       | Some (_, expiryTime) \<Rightarrow>
           if time_after earliest expiryTime then (expiryTime, True) else (earliest, found)) acc ds
     = foldl earlier acc (List.map_filter (map_option snd) ds)" for acc :: "u32 \<times> bool" and ds :: "(sk_buff \<times> u32) option list"
    by (induction ds arbitrary: acc) (auto simp: List.map_filter_simps earlier_def split: option.split prod.split)
  then show ?thesis
    by (simp add: br_igmp_get_next_timer_expiry_def MCPD_NETLINK_SKB_TIMEOUT_MS_def delayed_times_def)
qed

lemma next_timer_expiry_earliest:
  assumes d: "\<forall>t \<in> set (delayed_times br). unat (t - b_jiffies br) < 4000"
    and pf: "br_igmp_get_next_timer_expiry br = (p, f)"
  shows "\<forall>x \<in> set (delayed_times br). unat (p - b_jiffies br) \<le> unat (x - b_jiffies br)"
    and "if delayed_times br = [] then \<not> f else p \<in> set (delayed_times br) \<and> f"
proof -
  let ?ofs = "\<lambda>t. unat (t - b_jiffies br)"
  have "?ofs (b_jiffies br + 4000) = 4000" by simp
  with d foldl_earlier [of "b_jiffies br + 4000" "b_jiffies br" "delayed_times br" False p f] pf
  have p: "\<forall>x \<in> set (delayed_times br). ?ofs p \<le> ?ofs x"
    and pf': "if \<forall>x \<in> set (delayed_times br). 4000 \<le> ?ofs x then \<not> f else p \<in> set (delayed_times br) \<and> f"
    unfolding br_igmp_get_next_timer_expiry_eq by fastforce+
  show "\<forall>x \<in> set (delayed_times br). ?ofs p \<le> ?ofs x" by (rule p)
  show "if delayed_times br = [] then \<not> f else p \<in> set (delayed_times br) \<and> f"
  proof (cases "delayed_times br")
    case (Cons x xs)
    then have "\<not> 4000 \<le> ?ofs x" using d by simp
    then have n: "\<not> (\<forall>x \<in> set (delayed_times br). 4000 \<le> ?ofs x)" using Cons by auto
    show ?thesis using pf' Cons unfolding if_not_P [OF n] by simp
  qed (use pf' in simp)
qed

section \<open>An example\<close>

text \<open>A bridge that snoops and has one entry, for the group 239.1.1.1 on port 1.\<close>

definition example_reporter :: "u32 \<Rightarrow> u32 \<Rightarrow> net_bridge_mc_rep_entry" where
  "example_reporter a t = \<lparr>rep_addr = a, rep_tstamp = t\<rparr>"

definition example_group :: "net_bridge_mc_rep_entry list \<Rightarrow> net_bridge_mc_fdb_entry" where
  "example_group rs = (new_mc_entry 1 0x010101EF 0x010101EF 7 MCAST_EXCLUDE 0 0 False (- 1) 0 5 0)\<lparr>mc_rep_list := rs\<rparr>"

definition igmp_bridge :: "net_bridge_mc_rep_entry list \<Rightarrow> net_bridge" where
  "igmp_bridge rs = example_forwarding\<lparr>b_igmp_snooping := 1,
     b_mc_hash := (\<lambda>i. if i = br_igmp_mc_fdb_hash example_forwarding 0x010101EF \<and> rs \<noteq> [] then [example_group rs] else [])\<rparr>"

lemma igmp_bridge_simps [simp]:
  "b_jiffies (igmp_bridge rs) = 100000" "b_igmp_snooping (igmp_bridge rs) = 1"
  "br_igmp_mc_fdb_hash (igmp_bridge rs) g = br_igmp_mc_fdb_hash example_forwarding g"
  "port_nos (igmp_bridge rs) = port_nos example_forwarding"
  "b_mc_hash (igmp_bridge rs) i = (if i = br_igmp_mc_fdb_hash example_forwarding 0x010101EF \<and> rs \<noteq> [] then [example_group rs] else [])"
  by (simp_all add: igmp_bridge_def br_igmp_mc_fdb_hash_def port_nos_def)

lemma igmp_bridge_wf: "distinct (map rep_addr rs) \<Longrightarrow> mc_wf (igmp_bridge rs)"
  by (auto simp: mc_wf_def mc_entry_ok_def example_group_def new_mc_entry_def)

lemma example_blog_process_ok: "blog_process_ok example_env"
  by (simp add: blog_process_ok_def example_env_def same_group_def)

section \<open>The timer\<close>

text \<open>C27: The IGMP timer is armed exactly when something can run out, and for the first thing that
  does. With snooping on, every membership ending within two membership periods and every held
  frame within its window, \<open>br_igmp_set_timer\<close> stops the timer when there is neither, and
  otherwise arms it for two seconds after the earliest of these times, in the order of time even
  when the jiffies counter wraps around.\<close>

theorem igmp_timer_earliest:
  assumes snoop: "b_igmp_snooping br \<noteq> 0"
    and m: "\<forall>t \<in> set (membership_times br). unat (t - b_jiffies br) < 520000"
    and d: "\<forall>t \<in> set (delayed_times br). unat (t - b_jiffies br) < 4000"
  shows "(if membership_times br @ delayed_times br = [] then b_igmp_timer (br_igmp_set_timer br) = None
    else \<exists>t \<in> set (membership_times br @ delayed_times br).
        b_igmp_timer (br_igmp_set_timer br) = Some (t + 2000)
        \<and> (\<forall>t' \<in> set (membership_times br @ delayed_times br).
              unat (t - b_jiffies br) \<le> unat (t' - b_jiffies br)))"
proof -
  let ?now = "b_jiffies br"
  let ?ofs = "\<lambda>t. unat (t - ?now)"
  obtain p f where pf: "br_igmp_get_next_timer_expiry br = (p, f)" by fastforce
  note pd = next_timer_expiry_earliest [OF d pf]
  define t0 where "t0 = (if f then p else ?now + 520000)"
  have o: "?ofs (?now + 520000) = 520000" by simp
  have p4: "?ofs p < 4000" if f
  proof -
    have "p \<in> set (delayed_times br)" using pd(2) that by (simp split: if_splits)
    then show ?thesis using d by blast
  qed
  have t0: "?ofs t0 < 2 ^ 31" using o p4 by (cases f) (simp_all add: t0_def)
  have after: "time_after (?now + 520000) p" if f
    using p4 [OF that] by (subst time_after_offset [where now = ?now]) simp_all
  have fold: "foldl (\<lambda>(tstamp, found) r.
      if time_after tstamp (rep_tstamp r) then (rep_tstamp r, True) else (tstamp, found))
      acc rs = foldl earlier acc (map rep_tstamp rs)" for acc rs
    by (induction rs arbitrary: acc) (simp_all add: earlier_def split_beta)
  obtain t g where tg: "foldl earlier (t0, f) (membership_times br) = (t, g)" by fastforce
  have eq: "b_igmp_timer (br_igmp_set_timer br) = (if g then Some (t + 2000) else None)"
    using snoop after tg
    by (auto simp: br_igmp_set_timer_def pf Let_def fold membership_times_def t0_def mod_timer_def del_timer_def
      BR_IGMP_MEMBERSHIP_TIMEOUT_def TIMER_CHECK_TIMEOUT_def HZ_def split: if_splits)
  have t: "?ofs t \<le> ?ofs t0 \<and> (\<forall>x \<in> set (membership_times br). ?ofs t \<le> ?ofs x)
      \<and> (if \<forall>x \<in> set (membership_times br). ?ofs t0 \<le> ?ofs x then t = t0 \<and> g = f else t \<in> set (membership_times br) \<and> g)"
    using m by (intro foldl_earlier [OF t0 _ tg]) force
  show ?thesis
  proof (cases f)
    case True
    then have d: "p \<in> set (delayed_times br)" "t0 = p" "delayed_times br \<noteq> []"
      using pd(2) by (cases "delayed_times br = []"; simp add: t0_def)+
    have "\<forall>x \<in> set (membership_times br @ delayed_times br). ?ofs t \<le> ?ofs x"
      using t pd(1) d(2) by (auto intro: order_trans)
    moreover have "t \<in> set (membership_times br @ delayed_times br) \<and> g"
      using t d True by (cases "\<forall>x \<in> set (membership_times br). ?ofs t0 \<le> ?ofs x") simp_all
    ultimately show ?thesis using eq d(3) by auto
  next
    case False
    then have d: "delayed_times br = []" "t0 = ?now + 520000"
      using pd(2) by (cases "delayed_times br = []"; simp add: t0_def)+
    show ?thesis
    proof (cases "membership_times br")
      case Nil
      with t eq d False show ?thesis by simp
    next
      case (Cons x xs)
      then have n: "\<not> (\<forall>x \<in> set (membership_times br). ?ofs t0 \<le> ?ofs x)" using m d(2) o by auto
      have "t \<in> set (membership_times br) \<and> g" using t unfolding if_not_P [OF n] by simp
      with t eq d(1) Cons show ?thesis by auto
    qed
  qed
qed

theorem igmp_timer_earliest_witness:
  "b_igmp_timer (br_igmp_set_timer (igmp_bridge [example_reporter 7 150000])) = Some 152000"
proof -
  let ?br = "igmp_bridge [example_reporter 7 150000]"
  have "delayed_times ?br = []"
    by (simp add: delayed_times_def igmp_bridge_def example_forwarding_def upd_port_def example_bridge_def
      List.map_filter_def)
  moreover have m: "set (membership_times ?br) = {150000}"
    by (auto simp: membership_times_def all_mc_entries_def set_buckets example_group_def example_reporter_def)
  moreover have "membership_times ?br \<noteq> []" using m by auto
  ultimately show ?thesis using igmp_timer_earliest [of ?br] by simp
qed

section \<open>Memberships\<close>

lemma map_filter_cong:
  "(\<And>x. x \<in> set xs \<Longrightarrow> f x = g x) \<Longrightarrow> List.map_filter f xs = List.map_filter g xs"
  by (induction xs) (simp_all add: List.map_filter_simps split: option.split)

text \<open>C28: A membership ends exactly when its time is up. An expiry of the IGMP timer never faults, keeps
  the table well formed, takes from every entry the reporters whose time has come (in the order
  of time, so also across a wrap of the jiffies counter), keeps the others in their order, and
  drops an entry if and only if no reporter is left; nothing else in the table changes.\<close>

theorem br_igmp_timeout_exact:
  assumes "mc_wf br"
  shows "runs (br_igmp_timeout br) (\<lambda>br'. mc_wf br' \<and> mc_core br' = mc_core br
    \<and> b_mc_hash br' = (\<lambda>i. List.map_filter
        (\<lambda>e. let keep = filter (\<lambda>r. \<not> time_after_eq (b_jiffies br) (rep_tstamp r)) (mc_rep_list e)
             in if keep = [] then None else Some (e\<lparr>mc_rep_list := keep\<rparr>))
        (b_mc_hash br i)))"
proof -
  have "List.map_filter (left (timeout_action br)) (b_mc_hash br i) = List.map_filter
      (\<lambda>e. let keep = filter (\<lambda>r. \<not> time_after_eq (b_jiffies br) (rep_tstamp r)) (mc_rep_list e)
           in if keep = [] then None else Some (e\<lparr>mc_rep_list := keep\<rparr>)) (b_mc_hash br i)" for i
    by (rule map_filter_cong) (use assms in \<open>simp add: mc_wf_def timeout_left [where i = i]\<close>)
  then show ?thesis
    unfolding br_igmp_timeout_def br_igmp_query_timeout_def br_igmp_process_timer_check_def runs_bind
    by (intro runs_mono [OF timeout.sweep [OF assms]]) simp
qed

theorem br_igmp_timeout_exact_witness:
  "runs (br_igmp_timeout (igmp_bridge [example_reporter 7 150000, example_reporter 8 99999])) (\<lambda>br'.
     b_mc_hash br' (br_igmp_mc_fdb_hash example_forwarding 0x010101EF) = [example_group [example_reporter 7 150000]])"
  by (rule runs_mono [OF br_igmp_timeout_exact])
    (simp_all add: igmp_bridge_wf example_group_def example_reporter_def List.map_filter_simps time_after_eq_def
      sint_nonneg_iff_unat)

text \<open>What a leave does to one entry.\<close>

definition leave :: "(net_bridge_mc_fdb_entry \<Rightarrow> bool) \<Rightarrow> u32 \<Rightarrow> net_bridge_mc_fdb_entry \<Rightarrow> net_bridge_mc_fdb_entry option" where
  "leave hit rep e =
     (if hit e then
        let rs = filter (\<lambda>r. rep_addr r \<noteq> rep) (mc_rep_list e)
        in if rs = [] then None else Some (e\<lparr>mc_rep_list := rs\<rparr>)
      else Some e)"

lemma remove_left:
  assumes "mc_entry_ok br i e"
  shows "left (remove_action hit rep br) e = leave hit rep e"
proof -
  have "distinct (map rep_addr (mc_rep_list e))" using assms by (simp add: mc_entry_ok_def)
  then show ?thesis by (simp add: left_def remove_action_def leave_def del_entry_left)
qed

lemma br_igmp_mc_fdb_remove_runs:
  assumes wf: "mc_wf br"
  shows "runs (br_igmp_mc_fdb_remove (Some dev) (Some n) rxGrp txGrp rep mode src br) (\<lambda>br'. mc_kept br br'
    \<and> b_mc_hash br' =
       (if br_igmp_control_filter None txGrp \<and> br_igmp_control_filter None rxGrp \<and> dev_path_refcount dev = 0
          \<and> (mode = SNOOP_IN_CLEAR \<or> mode = SNOOP_EX_CLEAR)
        then (b_mc_hash br)(br_igmp_mc_fdb_hash br txGrp := List.map_filter
          (leave (mc_matches n rxGrp txGrp (if mode = SNOOP_IN_CLEAR then MCAST_INCLUDE else MCAST_EXCLUDE)
             src (dev_ifindex dev)) rep) (b_mc_hash br (br_igmp_mc_fdb_hash br txGrp)))
        else b_mc_hash br))"
proof -
  have "List.map_filter (left (remove_action hit rep br)) (b_mc_hash br i)
      = List.map_filter (leave hit rep) (b_mc_hash br i)" for hit i
    by (rule map_filter_cong) (use wf in \<open>simp add: mc_wf_def remove_left [where i = i]\<close>)
  then have "runs (mc_sweep_bucket (remove_action hit rep br) i br) (\<lambda>br'. mc_kept br (br_igmp_set_timer br')
      \<and> b_mc_hash (br_igmp_set_timer br') = (b_mc_hash br)(i := List.map_filter (leave hit rep) (b_mc_hash br i)))"
    for hit i
    by (intro runs_mono [OF remove.sweep_bucket [OF wf]]) (simp add: mc_kept_def)
  with mc_kept_refl [OF wf] show ?thesis
    by (auto simp: br_igmp_mc_fdb_remove_def Let_def)
qed

lemma map_filter_append: "List.map_filter f (xs @ ys) = List.map_filter f xs @ List.map_filter f ys"
  by (simp add: List.map_filter_def)

lemma map_filter_undo: "(\<And>x. x \<in> set xs \<Longrightarrow> f (g x) = Some x) \<Longrightarrow> List.map_filter f (map g xs) = xs"
  by (induction xs) (simp_all add: List.map_filter_simps)

lemma map_filter_none: "(\<And>x. x \<in> set xs \<Longrightarrow> f x = None) \<Longrightarrow> List.map_filter f xs = []"
  by (induction xs) (simp_all add: List.map_filter_simps)

lemma mc_matches_rep_list [simp]:
  "mc_matches n rxGrp txGrp fm src d (e\<lparr>mc_rep_list := rs\<rparr>) = mc_matches n rxGrp txGrp fm src d e"
  by (simp add: mc_matches_def)

lemma filter_not_reporter:
  "br_igmp_rep_find e rep = None \<Longrightarrow> filter (\<lambda>r. rep_addr r \<noteq> rep) (mc_rep_list e) = mc_rep_list e"
  by (auto simp: br_igmp_rep_find_def find_None_iff intro!: filter_True)

lemma leave_not_reporter:
  assumes "mc_entry_ok br i e" "br_igmp_rep_find e rep = None"
  shows "leave hit rep e = Some e"
  using assms filter_not_reporter [OF assms(2)] by (simp add: leave_def mc_entry_ok_def)

lemma leave_after_report:
  assumes "mc_entry_ok br i e" "br_igmp_rep_find e rep = None"
  shows "leave (mc_matches n rxGrp txGrp fm src d) rep
    (if mc_matches n rxGrp txGrp fm src d e then case_option e id (mc_report env j rep e) else e) = Some e"
proof -
  have "mc_rep_list e \<noteq> []" using assms(1) by (simp add: mc_entry_ok_def)
  then show ?thesis
    using leave_not_reporter [OF assms] filter_not_reporter [OF assms(2)] assms(2)
    by (simp add: mc_report_def leave_def)
qed

lemma leave_new_entry:
  assumes "same_group x (new_mc_entry n rxGrp txGrp rep fm tci src lanppp excl wan_ops d j)"
  shows "leave (mc_matches n rxGrp txGrp fm src d) rep x = None"
  using assms by (simp add: leave_def mc_matches_def same_group_def new_mc_entry_def)

lemma leave_fresh:
  assumes env: "blog_process_ok env"
    and b: "env_mcast_blog_process env (new_mc_entry n rxGrp txGrp rep fm tci src lanppp excl wan_ops d j) = Some (e, cs)"
  shows "List.map_filter (leave (mc_matches n rxGrp txGrp fm src d) rep) (rev cs @ e # es)
    = List.map_filter (leave (mc_matches n rxGrp txGrp fm src d) rep) es"
proof -
  have "List.map_filter (leave (mc_matches n rxGrp txGrp fm src d) rep) (rev cs @ [e]) = []"
    using leave_new_entry [OF blog_process_okD [OF env b]] by (intro map_filter_none) auto
  then show ?thesis
    using map_filter_append [of "leave (mc_matches n rxGrp txGrp fm src d) rep" "rev cs @ [e]" es] by simp
qed

text \<open>The bucket of the group after a report.\<close>

definition reported ::
  "(net_bridge_mc_fdb_entry \<Rightarrow> bool) \<Rightarrow> br_env \<Rightarrow> u32 \<Rightarrow> u32 \<Rightarrow> net_bridge_mc_fdb_entry \<Rightarrow> net_bridge_mc_fdb_entry" where
  "reported hit env now rep e = (if hit e then case_option e id (mc_report env now rep e) else e)"

lemma br_mc_fdb_update_eq:
  assumes "hit = mc_matches n rxGrp txGrp (if mode = SNOOP_IN_ADD then MCAST_INCLUDE else MCAST_EXCLUDE) src d"
    and "i = br_igmp_mc_fdb_hash br txGrp"
  shows "fst (br_mc_fdb_update env n rxGrp txGrp rep mode src d br) = list_ex hit (b_mc_hash br i)"
    and "b_mc_hash (snd (br_mc_fdb_update env n rxGrp txGrp rep mode src d br))
      = (b_mc_hash br)(i := map (reported hit env (b_jiffies br) rep) (b_mc_hash br i))"
  using assms by (simp_all add: br_mc_fdb_update_def Let_def reported_def [abs_def])

lemma br_igmp_mc_fdb_add_hash:
  assumes hit: "hit = mc_matches n rxGrp txGrp fm src (dev_ifindex dev)"
    and fm: "fm = (if mode = SNOOP_IN_ADD then MCAST_INCLUDE else MCAST_EXCLUDE)"
    and i: "i = br_igmp_mc_fdb_hash br txGrp"
    and add: "br_igmp_mc_fdb_add env (Some dev) wan_ops (Some n) rxGrp txGrp rep mode tci src lanppp excl br = (r, br')"
    and wf: "mc_wf br"
  obtains "b_mc_hash br' = b_mc_hash br" "\<not> (br_igmp_control_filter None rxGrp \<and> br_igmp_control_filter None txGrp
      \<and> dev_path_refcount dev = 0 \<and> (mode = SNOOP_IN_ADD \<or> mode = SNOOP_EX_ADD) \<and> env_mc_fdb_alloc env \<and> env_mc_rep_alloc env
      \<and> (\<forall>e. env_mcast_blog_process env e \<noteq> None))"
  | "r = 0" "list_ex hit (b_mc_hash br i)"
    "b_mc_hash br' = (b_mc_hash br)(i := map (reported hit env (b_jiffies br) rep) (b_mc_hash br i))"
  | e cs where "r = 1" "\<not> list_ex hit (b_mc_hash br i)"
    "b_mc_hash br' = (b_mc_hash br)(i := rev cs @ e # b_mc_hash br i)"
    "env_mcast_blog_process env (new_mc_entry n rxGrp txGrp rep fm tci src lanppp excl wan_ops (dev_ifindex dev) (b_jiffies br)) = Some (e, cs)"
proof -
  let ?up = "br_mc_fdb_update env n rxGrp txGrp rep mode src (dev_ifindex dev) br"
  note up = br_mc_fdb_update_eq [OF hit [unfolded fm] i, of env rep]
  have core: "mc_core (snd ?up) = mc_core br" using br_mc_fdb_update_kept [OF wf] by (simp add: mc_kept_def)
  have j: "b_jiffies (snd ?up) = b_jiffies br" "br_igmp_mc_fdb_hash (snd ?up) txGrp = i"
    using mc_core_eqD(4) [OF core] mc_core_derived(3) [OF core] i by simp_all
  have idle: "map (reported hit env (b_jiffies br) rep) (b_mc_hash br i) = b_mc_hash br i" if "\<not> list_ex hit (b_mc_hash br i)"
    using that by (auto simp: list_ex_iff reported_def intro!: map_idI)
  let ?e = "new_mc_entry n rxGrp txGrp rep fm tci src lanppp excl wan_ops (dev_ifindex dev) (b_jiffies br)"
  let ?on = "br_igmp_control_filter None rxGrp \<and> br_igmp_control_filter None txGrp \<and> dev_path_refcount dev = 0
    \<and> (mode = SNOOP_IN_ADD \<or> mode = SNOOP_EX_ADD)"
  show ?thesis
  proof (cases "?on \<and> env_mc_fdb_alloc env \<and> env_mc_rep_alloc env")
    case False
    then have "br' = br"
      using add by (auto simp: br_igmp_mc_fdb_add_def split: if_splits)
    with False show ?thesis by (intro that(1)) auto
  next
    case True
    then have eq: "(r, br') = (if list_ex hit (b_mc_hash br i) then (0, snd ?up)
        else case env_mcast_blog_process env ?e of None \<Rightarrow> (- 1, snd ?up)
          | Some (e, copies) \<Rightarrow> (1, br_igmp_set_timer
              ((snd ?up)\<lparr>b_mc_hash := (b_mc_hash (snd ?up))(i := rev copies @ e # b_mc_hash (snd ?up) i)\<rparr>)))"
      using add up(1) j fm by (auto simp: br_igmp_mc_fdb_add_def split_beta Let_def)
    show ?thesis
    proof (cases "list_ex hit (b_mc_hash br i)")
      case True
      then show ?thesis using eq up(2) by (intro that(2)) simp_all
    next
      case False
      then have "b_mc_hash (snd ?up) = b_mc_hash br" using up(2) idle by simp
      then show ?thesis
        using eq False by (cases "env_mcast_blog_process env ?e") (auto intro: that(1,3))
    qed
  qed
qed

text \<open>C29: A leave undoes a report. When the host was not yet a reporter of the group on the port, a report
  (\<open>br_igmp_mc_fdb_add\<close>) followed by the matching leave (\<open>br_igmp_mc_fdb_remove\<close>) brings the group
  table back, whether the report made a new entry (with the copies the flow accelerator added),
  joined an existing one, or was refused for want of memory or by one of the filters.\<close>

theorem report_leave_roundtrip:
  assumes wf: "mc_wf br" and env: "blog_process_ok env" and n: "n \<in> set (port_nos br)"
    and mode: "mode = SNOOP_IN_ADD \<and> mode' = SNOOP_IN_CLEAR \<or> mode = SNOOP_EX_ADD \<and> mode' = SNOOP_EX_CLEAR"
    and new: "\<And>e. e \<in> set (b_mc_hash br (br_igmp_mc_fdb_hash br txGrp)) \<Longrightarrow> br_igmp_rep_find e rep = None"
  shows "runs (br_igmp_mc_fdb_remove (Some dev) (Some n) rxGrp txGrp rep mode' src
        (snd (br_igmp_mc_fdb_add env (Some dev) wan_ops (Some n) rxGrp txGrp rep mode tci src lanppp excl br)))
      (\<lambda>br'. b_mc_hash br' = b_mc_hash br \<and> mc_kept br br')"
proof -
  let ?i = "br_igmp_mc_fdb_hash br txGrp"
  define fm where "fm = (if mode = SNOOP_IN_ADD then MCAST_INCLUDE else MCAST_EXCLUDE)"
  define hit where "hit = mc_matches n rxGrp txGrp fm src (dev_ifindex dev)"
  obtain r br1 where add: "br_igmp_mc_fdb_add env (Some dev) wan_ops (Some n) rxGrp txGrp rep mode tci src lanppp excl br = (r, br1)"
    by fastforce
  have ok: "mc_entry_ok br ?i e" if "e \<in> set (b_mc_hash br ?i)" for e using wf that by (simp add: mc_wf_def)
  have id: "List.map_filter (leave hit rep) (b_mc_hash br ?i) = b_mc_hash br ?i"
    using map_filter_undo [of "b_mc_hash br ?i" "leave hit rep" id] leave_not_reporter [OF ok new] by simp
  have same: "List.map_filter (leave hit rep) (map (reported hit env (b_jiffies br) rep) (b_mc_hash br ?i)) = b_mc_hash br ?i"
    using leave_after_report [OF ok new] unfolding hit_def reported_def by (intro map_filter_undo) blast
  have undo: "(b_mc_hash br1)(?i := List.map_filter (leave hit rep) (b_mc_hash br1 ?i)) = b_mc_hash br"
    using id same leave_fresh [OF env, of n rxGrp txGrp rep fm]
    by (rule_tac br_igmp_mc_fdb_add_hash [OF hit_def fm_def refl add wf]) (auto simp: hit_def fun_eq_iff)
  have kept: "mc_kept br br1"
    using br_igmp_mc_fdb_add_kept [OF wf env, of "Some n"] n add by (metis option.inject snd_conv)
  then have core: "mc_wf br1" "br_igmp_mc_fdb_hash br1 txGrp = ?i"
    using mc_core_derived(3) [of br1 br] by (simp_all add: mc_kept_def)
  have off: "br1 = br" if "\<not> (br_igmp_control_filter None txGrp \<and> br_igmp_control_filter None rxGrp \<and> dev_path_refcount dev = 0)"
    using add that by (auto simp: br_igmp_mc_fdb_add_def split: if_splits)
  have fm': "(if mode' = SNOOP_IN_CLEAR then MCAST_INCLUDE else MCAST_EXCLUDE) = fm"
    using mode by (auto simp: fm_def)
  show ?thesis
    unfolding add snd_conv
    by (rule runs_mono [OF br_igmp_mc_fdb_remove_runs [OF core(1)]])
      (use undo off kept mode core(2) in \<open>auto simp: fm' hit_def [symmetric] mc_kept_def\<close>)
qed

theorem report_leave_roundtrip_witness:
  "runs (br_igmp_mc_fdb_remove (Some (example_dev 5)) (Some 1) 0x010101EF 0x010101EF 8 SNOOP_EX_CLEAR 0
     (snd (br_igmp_mc_fdb_add example_env (Some (example_dev 5)) 0 (Some 1) 0x010101EF 0x010101EF 8 SNOOP_EX_ADD 0 0 False (- 1)
        (igmp_bridge [example_reporter 7 150000])))) (\<lambda>br'. b_mc_hash br' = b_mc_hash (igmp_bridge [example_reporter 7 150000]))"
  by (rule runs_mono [OF report_leave_roundtrip])
    (auto simp: igmp_bridge_wf example_blog_process_ok example_group_def example_reporter_def br_igmp_rep_find_def)

text \<open>C30: A report makes the host a member. When the group is not a control group, the device is a
  leaf and memory is there, \<open>br_igmp_mc_fdb_add\<close> leaves an entry for the group, source, port and
  device that lists the host with a full membership period from now, and the table stays well
  formed. It adds no second entry when there is one already.\<close>

theorem report_makes_member:
  assumes wf: "mc_wf br" and env: "blog_process_ok env" "env_mc_fdb_alloc env" "env_mc_rep_alloc env"
    and blog: "\<And>e. env_mcast_blog_process env e \<noteq> None" and n: "n \<in> set (port_nos br)"
    and grp: "br_igmp_control_filter None rxGrp" "br_igmp_control_filter None txGrp"
    and dev: "dev_path_refcount dev = 0" and mode: "mode = SNOOP_IN_ADD \<or> mode = SNOOP_EX_ADD"
    and hit: "hit = mc_matches n rxGrp txGrp (if mode = SNOOP_IN_ADD then MCAST_INCLUDE else MCAST_EXCLUDE) src (dev_ifindex dev)"
    and add: "br_igmp_mc_fdb_add env (Some dev) wan_ops (Some n) rxGrp txGrp rep mode tci src lanppp excl br = (r, br')"
    and i: "i = br_igmp_mc_fdb_hash br txGrp"
  shows "mc_kept br br'
    \<and> (\<exists>e \<in> set (b_mc_hash br' i). hit e \<and> \<lparr>rep_addr = rep, rep_tstamp = b_jiffies br + 260000\<rparr> \<in> set (mc_rep_list e))
    \<and> (r = (if list_ex hit (b_mc_hash br i) then 0 else 1))
    \<and> (list_ex hit (b_mc_hash br i) \<longrightarrow> length (b_mc_hash br' i) = length (b_mc_hash br i))"
proof -
  define fm where "fm = (if mode = SNOOP_IN_ADD then MCAST_INCLUDE else MCAST_EXCLUDE)"
  have hit': "hit = mc_matches n rxGrp txGrp fm src (dev_ifindex dev)" by (simp add: hit fm_def)
  let ?r = "\<lparr>rep_addr = rep, rep_tstamp = b_jiffies br + 260000\<rparr>"
  have kept: "mc_kept br br'"
    using br_igmp_mc_fdb_add_kept [OF wf env(1), of "Some n"] n add by (metis option.inject snd_conv)
  have refresh: "find (\<lambda>r. rep_addr r = rep) rs = Some r \<Longrightarrow> \<lparr>rep_addr = rep, rep_tstamp = t\<rparr> \<in> set (refresh_reporter rep t rs)"
    for r t rs by (induction rs) (auto split: if_splits)
  have member: "hit (reported hit env (b_jiffies br) rep e)
      \<and> ?r \<in> set (mc_rep_list (reported hit env (b_jiffies br) rep e))" if "hit e" for e
    using that env(3) refresh
    by (auto simp: reported_def mc_report_def hit' br_igmp_rep_find_def Let_def
      BR_IGMP_MEMBERSHIP_TIMEOUT_def HZ_def split: option.split)
  show ?thesis
  proof (rule br_igmp_mc_fdb_add_hash [OF hit' fm_def i add wf])
    assume "\<not> (br_igmp_control_filter None rxGrp \<and> br_igmp_control_filter None txGrp
      \<and> dev_path_refcount dev = 0 \<and> (mode = SNOOP_IN_ADD \<or> mode = SNOOP_EX_ADD) \<and> env_mc_fdb_alloc env \<and> env_mc_rep_alloc env
      \<and> (\<forall>e. env_mcast_blog_process env e \<noteq> None))"
    then show ?thesis using grp dev mode env(2,3) blog by blast
  next
    assume "r = 0" "list_ex hit (b_mc_hash br i)"
      "b_mc_hash br' = (b_mc_hash br)(i := map (reported hit env (b_jiffies br) rep) (b_mc_hash br i))"
    with kept member show ?thesis by (auto simp: list_ex_iff)
  next
    fix e cs
    assume *: "r = 1" "\<not> list_ex hit (b_mc_hash br i)"
      "b_mc_hash br' = (b_mc_hash br)(i := rev cs @ e # b_mc_hash br i)"
      "env_mcast_blog_process env (new_mc_entry n rxGrp txGrp rep fm tci src lanppp excl wan_ops (dev_ifindex dev) (b_jiffies br)) = Some (e, cs)"
    have "hit e \<and> ?r \<in> set (mc_rep_list e)"
      using blog_process_okD [OF env(1) *(4), of e]
      by (simp add: same_group_def new_mc_entry_def hit' mc_matches_def BR_IGMP_MEMBERSHIP_TIMEOUT_def HZ_def)
    with * kept show ?thesis by auto
  qed
qed

theorem report_makes_member_witness:
  "\<exists>r br'. br_igmp_mc_fdb_add example_env (Some (example_dev 5)) 0 (Some 1) 0x010101EF 0x010101EF 8 SNOOP_EX_ADD 0 0 False (- 1)
       (igmp_bridge [example_reporter 7 150000]) = (r, br')
     \<and> (\<exists>e \<in> set (b_mc_hash br' (br_igmp_mc_fdb_hash example_forwarding 0x010101EF)). example_reporter 8 360000 \<in> set (mc_rep_list e))"
proof -
  obtain r br' where add: "br_igmp_mc_fdb_add example_env (Some (example_dev 5)) 0 (Some 1) 0x010101EF 0x010101EF 8 SNOOP_EX_ADD 0 0 False (- 1)
       (igmp_bridge [example_reporter 7 150000]) = (r, br')" by fastforce
  have "br_igmp_control_filter None 0x010101EF" by code_simp
  moreover have "dev_path_refcount (example_dev 5) = 0" by (simp add: example_dev_def)
  moreover have "env_mc_fdb_alloc example_env" "env_mc_rep_alloc example_env" "env_mcast_blog_process example_env e \<noteq> None" for e
    by (simp_all add: example_env_def)
  ultimately show ?thesis
    using report_makes_member [OF igmp_bridge_wf example_blog_process_ok _ _ _ _ _ _ _ _ refl add refl] add
    by (auto simp: example_reporter_def)
qed

end
