(* ===== verification/Stp_If.thy ===== *)
theory Stp_If
  imports Stp_Timer Igmp_Props
begin

text \<open>
  The administrative side of the spanning tree (\<open>net/bridge/br_stp_if.c\<close>): enabling and disabling
  ports and bridges, starting and stopping the protocol, and changing identifiers, priorities and
  costs. Disabling a port also empties the forwarding database and the multicast table of it, so
  this is where the three invariants meet.
\<close>

section \<open>Port identifiers\<close>

definition br_make_port_id :: "u8 \<Rightarrow> u16 \<Rightarrow> u16" where
  "br_make_port_id priority port_no = or (push_bit 10 (ucast priority)) (and port_no (push_bit 10 1 - 1))"

definition BR_MAX_PORT_PRIORITY :: u32 where "BR_MAX_PORT_PRIORITY = drop_bit 10 0xffff"

text \<open>The stores of \<open>br_init_port\<close> on the port itself.\<close>

definition init_port :: "net_bridge \<Rightarrow> net_bridge_port \<Rightarrow> net_bridge_port" where
  "init_port br p =
     (become_designated br (p\<lparr>p_port_id := br_make_port_id (p_priority p) (p_port_no p)\<rparr>))
       \<lparr>p_state := BR_STATE_BLOCKING, p_topology_change_ack := False, p_config_pending := False\<rparr>"

definition br_init_port :: "u16 \<Rightarrow> net_bridge \<Rightarrow> net_bridge" where
  "br_init_port n br = upd_port n (init_port br) br"

section \<open>Ports and bridges on and off\<close>

definition br_stp_enable_port :: "u16 \<Rightarrow> net_bridge \<Rightarrow> net_bridge option" where
  "br_stp_enable_port n br = do {
     br \<leftarrow> br_port_state_selection (br_init_port n br);
     Some (emit (Br_ifinfo_notify n) (br_log_state n br))
   }"

text \<open>The end that \<open>br_stp_disable_port\<close>, \<open>br_stp_change_bridge_id\<close> and \<open>br_stp_set_bridge_priority\<close> share.\<close>

definition reselect :: "bool \<Rightarrow> net_bridge \<Rightarrow> net_bridge option" where
  "reselect wasroot br = do {
     br \<leftarrow> br_configuration_update br;
     br \<leftarrow> br_port_state_selection br;
     if br_is_root_bridge br \<and> \<not> wasroot then br_become_root_bridge br else Some br
   }"

definition br_stp_disable_port :: "br_env \<Rightarrow> u16 \<Rightarrow> net_bridge \<Rightarrow> net_bridge option" where
  "br_stp_disable_port env n br = do {
     p \<leftarrow> br_get_port br n;
     let wasroot = br_is_root_bridge br;
     let br = upd_port n (\<lambda>p. p\<lparr>p_state := BR_STATE_DISABLED, p_topology_change_ack := False,
                p_config_pending := False\<rparr>) (br_become_designated_port n br);
     let br = emit (Br_ifinfo_notify n) (br_log_state n br);
     let br = upd_port n (\<lambda>p. p\<lparr>p_message_age_timer := del_timer (p_message_age_timer p),
                p_forward_delay_timer := del_timer (p_forward_delay_timer p),
                p_hold_timer := del_timer (p_hold_timer p)\<rparr>) br;
     br \<leftarrow> br_fdb_delete_by_port env n 0 br;
     br \<leftarrow> br_mcast_handle_netdevice_events env (p_dev p) br;
     reselect wasroot br
   }"

definition br_stp_enable_bridge :: "net_bridge \<Rightarrow> net_bridge option" where
  "br_stp_enable_bridge br = do {
     let br = br\<lparr>b_hello_timer := mod_timer (b_hello_timer br) (b_jiffies br + b_hello_time br),
                b_gc_timer := mod_timer (b_gc_timer br) (b_jiffies br + HZ div 10)\<rparr>;
     br \<leftarrow> br_config_bpdu_generation br;
     for_each (\<lambda>n br. do {
         p \<leftarrow> br_get_port br n;
         if dev_up (p_dev p) \<and> dev_carrier (p_dev p) then br_stp_enable_port n br else Some br
       }) (port_nos br) br
   }"

definition br_stp_disable_bridge :: "br_env \<Rightarrow> net_bridge \<Rightarrow> net_bridge option" where
  "br_stp_disable_bridge env br = do {
     br \<leftarrow> for_each (\<lambda>n br. do {
         p \<leftarrow> br_get_port br n;
         if p_state p \<noteq> BR_STATE_DISABLED then br_stp_disable_port env n br else Some br
       }) (port_nos br) br;
     Some (br\<lparr>b_topology_change := False, b_topology_change_detected := False,
       b_hello_timer := del_timer (b_hello_timer br),
       b_topology_change_timer := del_timer (b_topology_change_timer br),
       b_tcn_timer := del_timer (b_tcn_timer br), b_gc_timer := del_timer (b_gc_timer br)\<rparr>)
   }"

section \<open>The protocol on and off\<close>

text \<open>None stands for the state 0xFF that tells the listeners the protocol is off.\<close>

definition br_stp_notify_state_bridge :: "net_bridge \<Rightarrow> net_bridge" where
  "br_stp_notify_state_bridge br =
     br\<lparr>b_out := b_out br @ map (\<lambda>p. Stp_state_changed (dev_name (p_dev p))
        (if b_stp_enabled br = BR_NO_STP then None else Some (p_state p))) (b_port_list br)\<rparr>"

definition br_stp_start :: "br_env \<Rightarrow> net_bridge \<Rightarrow> net_bridge option" where
  "br_stp_start env br = do {
     br \<leftarrow> (if env_stp_helper env = 0 then Some (br\<lparr>b_stp_enabled := BR_USER_STP\<rparr>)
           else br_port_state_selection (br\<lparr>b_stp_enabled := BR_KERNEL_STP\<rparr>));
     Some (br_stp_notify_state_bridge br)
   }"

definition br_stp_stop :: "net_bridge \<Rightarrow> net_bridge option" where
  "br_stp_stop br = do {
     br \<leftarrow> (if b_stp_enabled br = BR_USER_STP then br_port_state_selection br else Some br);
     Some (br_stp_notify_state_bridge (br\<lparr>b_stp_enabled := BR_NO_STP\<rparr>))
   }"

definition br_stp_set_enabled :: "br_env \<Rightarrow> u32 \<Rightarrow> net_bridge \<Rightarrow> net_bridge option" where
  "br_stp_set_enabled env val br =
     (if val \<noteq> 0
      then (if b_stp_enabled br = BR_NO_STP then br_stp_start env br else Some br)
      else (if b_stp_enabled br \<noteq> BR_NO_STP then br_stp_stop br else Some br))"

section \<open>Identifiers, priorities, costs\<close>

definition set_id_addr :: "mac_addr \<Rightarrow> bridge_id \<Rightarrow> bridge_id" where
  "set_id_addr a i = Bridge_id (id_prio0 i) (id_prio1 i) a"

definition set_id_prio :: "u16 \<Rightarrow> bridge_id \<Rightarrow> bridge_id" where
  "set_id_prio prio i = Bridge_id (ucast (and (drop_bit 8 prio) 0xff)) (ucast (and prio 0xff)) (id_addr i)"

text \<open>The stores that precede the reselection.\<close>

definition changed_addr :: "mac_addr \<Rightarrow> net_bridge \<Rightarrow> net_bridge" where
  "changed_addr addr br =
     (let oldaddr = id_addr (b_bridge_id br)
      in br\<lparr>b_bridge_id := set_id_addr addr (b_bridge_id br), b_dev := (b_dev br)\<lparr>dev_addr := addr\<rparr>,
           b_port_list := map (\<lambda>p.
              let p = (if \<not> compare_ether_addr (id_addr (p_designated_bridge p)) oldaddr
                       then p\<lparr>p_designated_bridge := set_id_addr addr (p_designated_bridge p)\<rparr> else p)
              in if \<not> compare_ether_addr (id_addr (p_designated_root p)) oldaddr
                 then p\<lparr>p_designated_root := set_id_addr addr (p_designated_root p)\<rparr> else p) (b_port_list br)\<rparr>)"

definition br_stp_change_bridge_id :: "mac_addr \<Rightarrow> net_bridge \<Rightarrow> net_bridge option" where
  "br_stp_change_bridge_id addr br = reselect (br_is_root_bridge br) (changed_addr addr br)"

text \<open>The address chosen from the ports; None is the pointer to the zero address.\<close>

definition lower_addr :: "mac_addr option \<Rightarrow> net_bridge_port \<Rightarrow> mac_addr option" where
  "lower_addr addr p =
     (case addr of
        None \<Rightarrow> Some (dev_addr (p_dev p))
      | Some a \<Rightarrow> if memcmp (mac_bytes (dev_addr (p_dev p))) (mac_bytes a) 6 < 0
                  then Some (dev_addr (p_dev p)) else Some a)"

definition br_stp_recalculate_bridge_id :: "net_bridge \<Rightarrow> (bool \<times> net_bridge) option" where
  "br_stp_recalculate_bridge_id br =
     (if b_set_mac_addr br then Some (False, br)
      else if list_ex (\<lambda>p. memcmp (mac_bytes (id_addr (b_bridge_id br))) (mac_bytes (dev_addr (p_dev p))) 6 = 0)
                (b_port_list br)
      then Some (False, br)
      else
        let addr = (case foldl lower_addr None (b_port_list br) of None \<Rightarrow> Mac 0 0 0 0 0 0 | Some a \<Rightarrow> a)
        in if \<not> compare_ether_addr (id_addr (b_bridge_id br)) addr then Some (False, br)
           else do {
             br \<leftarrow> br_stp_change_bridge_id addr br;
             Some (True, br)
           })"

definition changed_prio :: "u16 \<Rightarrow> net_bridge \<Rightarrow> net_bridge" where
  "changed_prio newprio br =
     br\<lparr>b_port_list := map (\<lambda>p.
          if p_state p \<noteq> BR_STATE_DISABLED \<and> br_is_designated_port br p
          then p\<lparr>p_designated_bridge := set_id_prio newprio (p_designated_bridge p)\<rparr> else p) (b_port_list br),
        b_bridge_id := set_id_prio newprio (b_bridge_id br)\<rparr>"

definition br_stp_set_bridge_priority :: "u16 \<Rightarrow> net_bridge \<Rightarrow> net_bridge option" where
  "br_stp_set_bridge_priority newprio br = reselect (br_is_root_bridge br) (changed_prio newprio br)"

definition br_stp_set_port_priority :: "u16 \<Rightarrow> u32 \<Rightarrow> net_bridge \<Rightarrow> (result \<times> net_bridge) option" where
  "br_stp_set_port_priority n newprio br =
     (if newprio > BR_MAX_PORT_PRIORITY then Some (Some ERANGE, br)
      else do {
        p \<leftarrow> br_get_port br n;
        let new_port_id = br_make_port_id (ucast newprio) (p_port_no p);
        let br = upd_port n (\<lambda>p. (if br_is_designated_port br p then p\<lparr>p_designated_port := new_port_id\<rparr> else p)
                   \<lparr>p_port_id := new_port_id, p_priority := ucast newprio\<rparr>) br;
        p \<leftarrow> br_get_port br n;
        br \<leftarrow> (if memcmp_bridge_id (b_bridge_id br) (p_designated_bridge p) = 0 \<and> p_port_id p < p_designated_port p
              then br_port_state_selection (br_become_designated_port n br) else Some br);
        Some (None, br)
      })"

definition BR_MIN_PATH_COST :: u32 where "BR_MIN_PATH_COST = 1"
definition BR_MAX_PATH_COST :: u32 where "BR_MAX_PATH_COST = 65535"

definition br_stp_set_path_cost :: "u16 \<Rightarrow> u32 \<Rightarrow> net_bridge \<Rightarrow> (result \<times> net_bridge) option" where
  "br_stp_set_path_cost n path_cost br =
     (if path_cost < BR_MIN_PATH_COST \<or> path_cost > BR_MAX_PATH_COST then Some (Some ERANGE, br)
      else do {
        p \<leftarrow> br_get_port br n;
        br \<leftarrow> br_configuration_update (upd_port n (\<lambda>p. p\<lparr>p_path_cost := path_cost\<rparr>) br);
        br \<leftarrow> br_port_state_selection br;
        Some (None, br)
      })"

section \<open>The invariants together\<close>

text \<open>The limit on IGMP messages is at most the 500 per second that the ioctl accepts, and its
  bucket never holds more than a quarter of it.\<close>

definition rate_wf :: "net_bridge \<Rightarrow> bool" where
  "rate_wf br \<longleftrightarrow> unat (b_igmp_rate_limit br) \<le> 500
     \<and> unat (b_igmp_rate_bucket br) \<le> max 1 (unat (b_igmp_rate_limit br) div 4)"

lemma rate_wf_cong:
  "b_igmp_rate_limit br' = b_igmp_rate_limit br \<Longrightarrow> b_igmp_rate_bucket br' = b_igmp_rate_bucket br \<Longrightarrow> rate_wf br' = rate_wf br"
  by (simp add: rate_wf_def)

lemma rate_wf_ports [simp]: "rate_wf (br\<lparr>b_port_list := ps\<rparr>) = rate_wf br"
  by (simp add: rate_wf_def)

lemma rate_wf_frames:
  "stp_frame br br' \<Longrightarrow> rate_wf br' = rate_wf br" "fdb_core br' = fdb_core br \<Longrightarrow> rate_wf br' = rate_wf br"
  "mc_core br' = mc_core br \<Longrightarrow> rate_wf br' = rate_wf br"
proof -
  have "rate_wf (stp_core br) = rate_wf br" "rate_wf (fdb_core br) = rate_wf br" "rate_wf (mc_core br) = rate_wf br" for br
    by (rule rate_wf_cong; simp add: stp_core_def bridge_core_def fdb_core_def mc_core_def)+
  then show "stp_frame br br' \<Longrightarrow> rate_wf br' = rate_wf br" "fdb_core br' = fdb_core br \<Longrightarrow> rate_wf br' = rate_wf br"
    "mc_core br' = mc_core br \<Longrightarrow> rate_wf br' = rate_wf br"
    unfolding stp_frame_def by metis+
qed

definition br_wf :: "net_bridge \<Rightarrow> bool" where
  "br_wf br \<longleftrightarrow> stp_wf br \<and> fdb_wf br \<and> mc_wf br \<and> rate_wf br"

lemma stp_frame_mc_wf: "stp_frame br br' \<Longrightarrow> mc_wf br' = mc_wf br"
  using stp_frameD(4,5,6) [of br br'] by (simp add: mc_wf_def mc_entry_ok_def br_igmp_mc_fdb_hash_def)

lemma br_wf_frame: "br_wf br \<Longrightarrow> stp_frame br br' \<Longrightarrow> stp_wf br' \<Longrightarrow> br_wf br'"
  using stp_frame_mc_wf [of br br'] stp_frame_wf [of br br'] rate_wf_frames(1) [of br br'] by (simp add: br_wf_def)

lemma br_wf_core: "br_wf br \<Longrightarrow> bridge_core br' = bridge_core br \<Longrightarrow> br_wf br'"
  using stp_wf_cong [of br' br] br_wf_frame [of br br', OF _ stp_frame_core] by (simp add: br_wf_def)

lemma fdb_core_mc:
  assumes "fdb_core br' = fdb_core br"
  shows "b_mc_hash br' = b_mc_hash br" "b_mc_salt br' = b_mc_salt br" "b_igmp_snooping br' = b_igmp_snooping br"
proof -
  have "b_mc_hash (fdb_core br) = b_mc_hash br" "b_mc_salt (fdb_core br) = b_mc_salt br"
    "b_igmp_snooping (fdb_core br) = b_igmp_snooping br" for br
    by (simp_all add: fdb_core_def)
  then show "b_mc_hash br' = b_mc_hash br" "b_mc_salt br' = b_mc_salt br" "b_igmp_snooping br' = b_igmp_snooping br"
    using assms by metis+
qed

lemma fdb_core_mc_wf: "fdb_core br' = fdb_core br \<Longrightarrow> mc_wf br' = mc_wf br"
  using fdb_core_mc [of br' br] fdb_core_eq_derived(2) [of br' br]
  by (simp add: mc_wf_def mc_entry_ok_def br_igmp_mc_fdb_hash_def)

lemma br_wf_fdb_core: "br_wf br \<Longrightarrow> fdb_core br' = fdb_core br \<Longrightarrow> fdb_wf br' \<Longrightarrow> br_wf br'"
  using fdb_core_mc_wf [of br' br] fdb_core_stp_wf [of br' br] rate_wf_frames(2) [of br' br] by (simp add: br_wf_def)

lemma br_wf_mc_kept: "br_wf br \<Longrightarrow> mc_kept br br' \<Longrightarrow> br_wf br'"
  using mc_core_fdb_wf(1) [of br' br] mc_core_derived(5) [of br' br] rate_wf_frames(3) [of br' br]
  by (simp add: br_wf_def mc_kept_def)

section \<open>Reselection\<close>

lemma reselect_runs':
  assumes "distinct (port_nos br)" "0 \<notin> set (port_nos br)"
  shows "runs (reselect wasroot br) (\<lambda>br'. stp_wf br' \<and> selected br br')"
  using reselect_runs [OF assms] by (simp add: reselect_def)

lemma map_option_find_parallel:
  "map f xs = map f ys \<Longrightarrow> map g xs = map g ys
    \<Longrightarrow> map_option g (find (\<lambda>x. f x = n) xs) = map_option g (find (\<lambda>x. f x = n) ys)"
  by (induction xs ys rule: list_induct2') auto

text \<open>A disabled port stays disabled and is not the root port.\<close>

lemma selected_disabled:
  assumes sel: "selected br br'" and wf: "distinct (port_nos br)" "0 \<notin> set (port_nos br)"
    and p: "br_get_port br n = Some p" "p_state p = BR_STATE_DISABLED"
  shows "b_root_port br' \<noteq> n" "\<exists>q. br_get_port br' n = Some q \<and> p_state q = BR_STATE_DISABLED"
proof -
  obtain br1 br2 where 1: "config_updated br br1" "bridge_core br2 = bridge_core br1" "after_selection br2 br'"
    and st: "map (\<lambda>p. p_state p = BR_STATE_DISABLED) (b_port_list br2) = map (\<lambda>p. p_state p = BR_STATE_DISABLED) (b_port_list br)"
    using sel unfolding selected_def by blast
  have n: "n \<in> set (port_nos br)" using p(1) br_get_port_eq_None_iff [of br n] by auto
  have "b_root_port br1 \<noteq> n"
  proof
    assume r: "b_root_port br1 = n"
    then have "b_root_port br1 \<noteq> 0" using n wf(2) by auto
    then obtain q where "q \<in> set (b_port_list br)" "root_candidate br q" "p_port_no q = n"
      using config_updated_fields(9) [OF 1(1)] r unfolding best_root_def by (auto split: if_splits)
    then show False
      using p br_get_port_eq_iff [OF wf(1), of n q] by (simp add: root_candidate_def)
  qed
  then show "b_root_port br' \<noteq> n"
    using bridge_core_eqD(6) [OF 1(2)] after_selection_keeps(6) [OF 1(3)] by simp
  have nos: "port_nos br' = port_nos br" by (rule stp_frameD(4) [OF stp_frame_selected [OF sel]])
  have "map p_state (b_port_list br') = map p_state (b_port_list br2)" using 1(3) by (simp add: after_selection_def)
  from arg_cong [OF this, of "map (\<lambda>s. s = BR_STATE_DISABLED)"] st
  have dis: "map (\<lambda>p. p_state p = BR_STATE_DISABLED) (b_port_list br') = map (\<lambda>p. p_state p = BR_STATE_DISABLED) (b_port_list br)"
    by (simp add: comp_def)
  obtain q where q: "br_get_port br' n = Some q" using br_get_port_ex [of n br'] n nos by auto
  have "p_state q = BR_STATE_DISABLED"
    using map_option_find_parallel [OF nos [unfolded port_nos_def] dis, of n] p q by (simp add: br_get_port_def)
  with q show "\<exists>q. br_get_port br' n = Some q \<and> p_state q = BR_STATE_DISABLED" by blast
qed

section \<open>The operations keep the invariants\<close>

definition stp_kept :: "net_bridge \<Rightarrow> net_bridge \<Rightarrow> bool" where
  "stp_kept br br' \<longleftrightarrow> br_wf br' \<and> stp_frame br br'"

lemma stp_kept_refl: "br_wf br \<Longrightarrow> stp_kept br br"
  by (simp add: stp_kept_def)

lemma stp_kept_trans [trans]: "stp_kept a b \<Longrightarrow> stp_kept b c \<Longrightarrow> stp_kept a c"
  using stp_frame_trans [of a b c] by (simp add: stp_kept_def)

lemma stp_kept_core: "br_wf br \<Longrightarrow> bridge_core br' = bridge_core br \<Longrightarrow> stp_kept br br'"
  by (simp add: stp_kept_def br_wf_core stp_frame_core)

lemma stp_kept_upd_port:
  assumes "br_wf br" "\<And>p. stp_port (f p) = stp_port p"
  shows "stp_kept br (upd_port n f br)"
proof -
  have "p_port_no (f p) = p_port_no p" for p using assms(2) [of p] by (metis stp_port_fields(1))
  then have "stp_wf (upd_port n f br)" using assms(1) by (simp add: stp_wf_def br_wf_def)
  then show ?thesis
    using br_wf_frame [OF assms(1) stp_frame_upd_port] stp_frame_upd_port assms(2) by (simp add: stp_kept_def)
qed

lemma br_port_state_selection_kept:
  assumes "stp_kept br br0"
  shows "runs (br_port_state_selection br0) (\<lambda>br'. stp_kept br br'
    \<and> b_port_list br' = map (select_port br0) (b_port_list br0))"
proof -
  have "br_wf br0" "stp_wf br0" using assms by (simp_all add: stp_kept_def br_wf_def)
  from runs_mono [OF br_port_state_selection_runs [OF this(2)]] show ?thesis
    using stp_kept_trans [OF assms stp_kept_core [OF \<open>br_wf br0\<close>]] by (auto elim!: runs_mono)
qed

text \<open>Reselection, after changes for which the bridge's own identifier need not fit the root.\<close>

lemma reselect_kept:
  assumes "br_wf br" "stp_frame br br0"
  shows "runs (reselect wasroot br0) (\<lambda>br'. stp_kept br br' \<and> selected br0 br')"
proof -
  have d: "distinct (port_nos br0)" "0 \<notin> set (port_nos br0)"
    using assms stp_frameD(4) [OF assms(2)] by (simp_all add: br_wf_def stp_wf_def)
  show ?thesis
  proof (rule runs_mono [OF reselect_runs' [OF d]], elim conjE, intro conjI)
    fix br' assume "stp_wf br'" "selected br0 br'"
    then show "stp_kept br br'"
      using br_wf_frame [OF assms(1), of br'] stp_frame_trans [OF assms(2) stp_frame_selected [of br0 br']]
      by (simp add: stp_kept_def)
  qed
qed

lemma init_port_stp_port [simp]: "stp_port (init_port br p) = stp_port p"
  by (simp add: init_port_def stp_port_def port_core_def become_designated_def)

lemma br_stp_enable_port_kept:
  assumes "br_wf br"
  shows "runs (br_stp_enable_port n br) (stp_kept br)"
proof -
  have k: "stp_kept br (br_init_port n br)"
    unfolding br_init_port_def by (rule stp_kept_upd_port [OF assms]) simp
  have log: "stp_kept br (emit (Br_ifinfo_notify n) (br_log_state n a))" if "stp_kept br a" for a
    using stp_kept_trans [OF that stp_kept_core] that by (simp add: stp_kept_def)
  show ?thesis
    unfolding br_stp_enable_port_def runs_bind
    by (rule runs_mono [OF br_port_state_selection_kept [OF k]]) (simp add: log)
qed

lemma stp_frame_map_ports:
  assumes "\<And>p. stp_port (f p) = stp_port p"
  shows "stp_frame br (br\<lparr>b_port_list := map f (b_port_list br)\<rparr>)"
  using assms by (simp add: stp_frame_def stp_core_def bridge_core_def comp_def)

lemma stp_frame_upds [simp]:
  "stp_frame br (br'\<lparr>b_bridge_id := i\<rparr>) = stp_frame br br'"
  "stp_frame br (br'\<lparr>b_dev := (b_dev br')\<lparr>dev_addr := a\<rparr>\<rparr>) = stp_frame br br'"
  "stp_frame br (br'\<lparr>b_stp_enabled := e\<rparr>) = stp_frame br br'"
  "stp_frame br (br'\<lparr>b_gc_timer := t\<rparr>) = stp_frame br br'"
  by (simp_all add: stp_frame_def stp_core_def bridge_core_def)

lemma stp_port_upds [simp]:
  "stp_port (p\<lparr>p_designated_bridge := i\<rparr>) = stp_port p" "stp_port (p\<lparr>p_designated_root := i\<rparr>) = stp_port p"
  "stp_port (p\<lparr>p_designated_port := x\<rparr>) = stp_port p" "stp_port (p\<lparr>p_port_id := x\<rparr>) = stp_port p"
  "stp_port (p\<lparr>p_priority := y\<rparr>) = stp_port p" "stp_port (p\<lparr>p_path_cost := z\<rparr>) = stp_port p"
  by (simp_all add: stp_port_def port_core_def)

lemma changed_prio_frame: "stp_frame br (changed_prio newprio br)"
  unfolding changed_prio_def stp_frame_upds by (rule stp_frame_map_ports) simp

lemma changed_addr_frame: "stp_frame br (changed_addr addr br)"
proof -
  let ?br = "br\<lparr>b_bridge_id := set_id_addr addr (b_bridge_id br), b_dev := (b_dev br)\<lparr>dev_addr := addr\<rparr>\<rparr>"
  have "stp_frame br ?br" by (simp add: stp_frame_def stp_core_def bridge_core_def)
  moreover have "stp_frame ?br (changed_addr addr br)"
    using stp_frame_map_ports [of _ ?br] by (simp add: changed_addr_def Let_def)
  ultimately show ?thesis by (rule stp_frame_trans)
qed

lemma br_stp_change_bridge_id_kept:
  assumes "br_wf br"
  shows "runs (br_stp_change_bridge_id addr br) (\<lambda>br'. stp_kept br br' \<and> selected (changed_addr addr br) br')"
  unfolding br_stp_change_bridge_id_def by (rule reselect_kept [OF assms changed_addr_frame])

lemma br_stp_set_bridge_priority_kept:
  assumes "br_wf br"
  shows "runs (br_stp_set_bridge_priority newprio br) (\<lambda>br'. stp_kept br br' \<and> selected (changed_prio newprio br) br')"
  unfolding br_stp_set_bridge_priority_def by (rule reselect_kept [OF assms changed_prio_frame])

lemma br_stp_recalculate_bridge_id_kept:
  assumes "br_wf br"
  shows "runs (br_stp_recalculate_bridge_id br) (\<lambda>(changed, br'). stp_kept br br')"
proof -
  have "runs (br_stp_change_bridge_id addr br) (stp_kept br)" for addr
    by (rule runs_mono [OF br_stp_change_bridge_id_kept [OF assms]]) simp
  with stp_kept_refl [OF assms] show ?thesis
    by (simp add: br_stp_recalculate_bridge_id_def Let_def)
qed

lemma br_stp_set_port_priority_kept:
  assumes wf: "br_wf br" and n: "n \<in> set (port_nos br)"
  shows "runs (br_stp_set_port_priority n newprio br) (\<lambda>(r, br'). stp_kept br br')"
proof -
  obtain p where p: "br_get_port br n = Some p" using br_get_port_ex [OF n] by blast
  let ?f = "\<lambda>q. (if br_is_designated_port br q
       then q\<lparr>p_designated_port := br_make_port_id (ucast newprio) (p_port_no p)\<rparr> else q)
     \<lparr>p_port_id := br_make_port_id (ucast newprio) (p_port_no p), p_priority := ucast newprio\<rparr>"
  have k: "stp_kept br (upd_port n ?f br)" by (rule stp_kept_upd_port [OF wf]) simp
  then have "br_wf (upd_port n ?f br)" by (simp add: stp_kept_def)
  then have "stp_kept (upd_port n ?f br) (br_become_designated_port n (upd_port n ?f br))"
    unfolding br_become_designated_port_def by (rule stp_kept_upd_port) simp
  from br_port_state_selection_kept [OF stp_kept_trans [OF k this]]
  have sel: "runs (br_port_state_selection (br_become_designated_port n (upd_port n ?f br))) (stp_kept br)"
    by (rule runs_mono) simp
  have "br_get_port (upd_port n ?f br) n = Some (?f p)"
    using p by (subst br_get_port_upd_port) simp_all
  then show ?thesis
    using sel k p stp_kept_refl [OF wf] by (simp add: br_stp_set_port_priority_def Let_def)
qed

lemma br_stp_set_path_cost_kept:
  assumes wf: "br_wf br" and n: "n \<in> set (port_nos br)"
  shows "runs (br_stp_set_path_cost n path_cost br) (\<lambda>(r, br'). stp_kept br br'
    \<and> (r = None \<longrightarrow> selected (upd_port n (\<lambda>p. p\<lparr>p_path_cost := path_cost\<rparr>) br) br'))"
proof -
  let ?br = "upd_port n (\<lambda>p. p\<lparr>p_path_cost := path_cost\<rparr>) br"
  have k: "stp_kept br ?br" by (rule stp_kept_upd_port [OF wf]) simp
  have d: "distinct (port_nos ?br)" "0 \<notin> set (port_nos ?br)" using k by (simp_all add: stp_kept_def br_wf_def stp_wf_def)
  have "stp_kept br br' \<and> selected ?br br'" if "stp_wf br' \<and> selected ?br br'" for br'
    using that br_wf_frame [OF wf, of br'] stp_frame_trans [of br ?br br'] stp_frame_selected [of ?br br'] k
    by (simp add: stp_kept_def)
  then have "runs (Option.bind (br_configuration_update ?br) br_port_state_selection)
      (\<lambda>br'. stp_kept br br' \<and> selected ?br br')"
    by (rule runs_mono [OF configuration_and_state_selection_runs [OF d]])
  then show ?thesis
    using br_get_port_ex [OF n] stp_kept_refl [OF wf]
    by (auto simp: br_stp_set_path_cost_def elim!: runs_mono)
qed

lemma br_wf_stp_enabled [simp]: "br_wf (br\<lparr>b_stp_enabled := e\<rparr>) = br_wf br"
proof -
  have "stp_frame br (br\<lparr>b_stp_enabled := e\<rparr>)" by simp
  from stp_frame_wf [OF this] stp_frame_mc_wf [OF this] rate_wf_frames(1) [OF this] show ?thesis
    by (simp add: br_wf_def stp_wf_def port_nos_def)
qed

lemma stp_kept_stp_enabled [simp]: "stp_kept br (br'\<lparr>b_stp_enabled := e\<rparr>) = stp_kept br br'"
  by (simp add: stp_kept_def)

lemma stp_kept_emit: "stp_kept br br' \<Longrightarrow> stp_kept br (emit fx br')"
  using stp_kept_trans [of br br' "emit fx br'"] stp_kept_core [of br' "emit fx br'"] by (simp add: stp_kept_def)

lemma bridge_core_out [simp]: "bridge_core (br\<lparr>b_out := fx\<rparr>) = bridge_core br"
  by (simp add: bridge_core_def)

lemma stp_kept_notify: "stp_kept br br' \<Longrightarrow> stp_kept br (br_stp_notify_state_bridge br')"
  using stp_kept_trans [of br br' "br_stp_notify_state_bridge br'"] stp_kept_core [of br' "br_stp_notify_state_bridge br'"]
  by (simp add: stp_kept_def br_stp_notify_state_bridge_def)

lemma br_stp_set_enabled_kept:
  assumes wf: "br_wf br"
  shows "runs (br_stp_set_enabled env val br) (stp_kept br)"
proof -
  note refl = stp_kept_refl [OF wf]
  have sel: "runs (br_port_state_selection br0) (stp_kept br)" if "stp_kept br br0" for br0
    by (rule runs_mono [OF br_port_state_selection_kept [OF that]]) simp
  have "runs (br_stp_start env br) (stp_kept br)"
    using sel [of "br\<lparr>b_stp_enabled := BR_KERNEL_STP\<rparr>"] refl
    by (auto simp: br_stp_start_def stp_kept_notify elim!: runs_mono)
  moreover have "runs (br_stp_stop br) (stp_kept br)"
    using sel [OF refl] refl by (auto simp: br_stp_stop_def stp_kept_notify elim!: runs_mono)
  ultimately show ?thesis using refl by (simp add: br_stp_set_enabled_def)
qed

lemma br_stp_enable_bridge_kept:
  assumes wf: "br_wf br"
  shows "runs (br_stp_enable_bridge br) (stp_kept br)"
proof -
  let ?br = "br\<lparr>b_hello_timer := mod_timer (b_hello_timer br) (b_jiffies br + b_hello_time br),
                b_gc_timer := mod_timer (b_gc_timer br) (b_jiffies br + HZ div 10)\<rparr>"
  have "stp_frame br ?br" by (simp add: stp_frame_def stp_core_def bridge_core_def)
  moreover have "stp_wf ?br" using wf by (simp add: br_wf_def stp_wf_def port_nos_def)
  ultimately have k: "stp_kept br ?br" using br_wf_frame [OF wf] by (simp add: stp_kept_def)
  have loop: "runs (for_each (\<lambda>n br. do {
         p \<leftarrow> br_get_port br n;
         if dev_up (p_dev p) \<and> dev_carrier (p_dev p) then br_stp_enable_port n br else Some br
       }) (port_nos br1) br1) (stp_kept br)" if b1: "stp_kept br br1" for br1
  proof (rule for_each_runs [where I = "stp_kept br", OF b1])
    fix n s
    assume n: "n \<in> set (port_nos br1)" and s: "stp_kept br s"
    then have "n \<in> set (port_nos s)" using b1 stp_frameD(4) [of br s] stp_frameD(4) [of br br1] by (simp add: stp_kept_def)
    then obtain p where p: "br_get_port s n = Some p" using br_get_port_ex by blast
    have "runs (br_stp_enable_port n s) (stp_kept br)"
      by (rule runs_mono [OF br_stp_enable_port_kept]) (use s in \<open>auto simp: stp_kept_def [of br s] intro: stp_kept_trans [OF s]\<close>)
    with p s show "runs (do { p \<leftarrow> br_get_port s n;
        if dev_up (p_dev p) \<and> dev_carrier (p_dev p) then br_stp_enable_port n s else Some s }) (stp_kept br)" by simp
  qed
  have "stp_wf ?br" using k by (simp add: stp_kept_def br_wf_def)
  from br_config_bpdu_generation_runs [OF this]
  have "runs (br_config_bpdu_generation ?br) (stp_kept br)"
    by (rule runs_mono) (use k in \<open>auto simp: stp_kept_def [of br ?br] intro: stp_kept_trans [OF k] stp_kept_core\<close>)
  then show ?thesis
    unfolding br_stp_enable_bridge_def Let_def runs_bind by (rule runs_mono) (rule loop)
qed

text \<open>Disabling a port takes it out of the tree and out of both tables.\<close>

definition mc_flushed :: "net_device \<Rightarrow> net_bridge \<Rightarrow> u8 \<Rightarrow> net_bridge_mc_fdb_entry list" where
  "mc_flushed dev br =
     (if dev_path_refcount dev \<noteq> 0 then b_mc_hash br
      else (\<lambda>i. List.map_filter (left (bydev_action dev True br)) (b_mc_hash br i)))"

lemma b_mc_hash_emit [simp]: "b_mc_hash (emit fx br) = b_mc_hash br"
  by (simp add: emit_def)

lemma br_mcast_handle_netdevice_events_runs:
  assumes wf: "mc_wf br"
  shows "runs (br_mcast_handle_netdevice_events env dev br) (\<lambda>br'. mc_kept br br' \<and> b_mc_hash br' = mc_flushed dev br)"
proof -
  have "runs (br_igmp_mc_fdb_update_bydev env dev True br) (\<lambda>br'. mc_kept br br' \<and> b_mc_hash br' = mc_flushed dev br)"
    using runs_mono [OF bydev.sweep [OF wf, where dev = dev and flushAll = True],
        of "\<lambda>br'. mc_kept br (br_igmp_set_timer br') \<and> b_mc_hash (br_igmp_set_timer br') = mc_flushed dev br"] mc_kept_refl [OF wf]
    by (cases "dev_path_refcount dev \<noteq> 0") (auto simp: br_igmp_mc_fdb_update_bydev_def mc_flushed_def mc_kept_def)
  then show ?thesis
    unfolding br_mcast_handle_netdevice_events_def runs_bind
    by (rule runs_mono) (simp add: br_igmp_process_device_removal_def)
qed

lemma mc_flushed_cong:
  assumes "port_nos br' = port_nos br" "map p_dev (b_port_list br') = map p_dev (b_port_list br)"
    "b_igmp_snooping br' = b_igmp_snooping br" "b_mc_hash br' = b_mc_hash br"
  shows "mc_flushed dev br' = mc_flushed dev br"
proof -
  have "map_option p_dev (br_get_port br' n) = map_option p_dev (br_get_port br n)" for n
    using map_option_find_parallel [OF assms(1) [unfolded port_nos_def] assms(2)] by (simp add: br_get_port_def)
  moreover have "mc_bydev dev br e = map_option (\<lambda>d. dev_ifindex d = dev_ifindex dev \<or> mc_from_dev e = dev_ifindex dev)
      (map_option p_dev (br_get_port br (mc_dst e)))" for br e
    by (cases "br_get_port br (mc_dst e)") (simp_all add: mc_bydev_def)
  ultimately have "mc_bydev dev br' e = mc_bydev dev br e" for e by simp
  then have "bydev_action dev True br' = bydev_action dev True br"
    unfolding bydev_action_def fun_eq_iff assms(3) by simp
  then show ?thesis using assms(4) by (simp add: mc_flushed_def)
qed

text \<open>The dynamic entries of a port go.\<close>

definition not_dynamic_on :: "u16 \<Rightarrow> net_bridge_fdb_entry \<Rightarrow> net_bridge_fdb_entry option" where
  "not_dynamic_on n f = (if f_dst f = Some n \<and> \<not> f_is_static f then None else Some f)"

lemma port_deleted_0: "entry_ok br f \<Longrightarrow> port_deleted n 0 br f = not_dynamic_on n f"
  by (auto simp: port_deleted_def not_dynamic_on_def entry_ok_def)

lemma br_fdb_delete_by_port_0_runs:
  assumes wf: "br_wf br"
  shows "runs (br_fdb_delete_by_port env n 0 br) (\<lambda>br'. br_wf br' \<and> fdb_core br' = fdb_core br
    \<and> fdb_lookup br' = (\<lambda>a. Option.bind (fdb_lookup br a) (not_dynamic_on n)))"
proof -
  have f: "fdb_wf br" using wf by (simp add: br_wf_def)
  have "Option.bind (fdb_lookup br a) (port_deleted n 0 br) = Option.bind (fdb_lookup br a) (not_dynamic_on n)" for a
    using f port_deleted_0 by (cases "fdb_lookup br a") (auto simp: fdb_wf_def)
  then show ?thesis
    by (intro runs_mono [OF br_fdb_delete_by_port_runs [OF f]])
      (auto simp: fdb_becomes_def intro: br_wf_fdb_core [OF wf])
qed

text \<open>The stores of \<open>br_stp_disable_port\<close> before it empties the tables.\<close>

definition port_off :: "u16 \<Rightarrow> net_bridge \<Rightarrow> net_bridge" where
  "port_off n br =
     (let br = upd_port n (\<lambda>p. p\<lparr>p_state := BR_STATE_DISABLED, p_topology_change_ack := False,
                 p_config_pending := False\<rparr>) (br_become_designated_port n br);
          br = emit (Br_ifinfo_notify n) (br_log_state n br)
      in upd_port n (\<lambda>p. p\<lparr>p_message_age_timer := del_timer (p_message_age_timer p),
           p_forward_delay_timer := del_timer (p_forward_delay_timer p),
           p_hold_timer := del_timer (p_hold_timer p)\<rparr>) br)"

lemma port_off_kept:
  assumes wf: "br_wf br"
  shows "stp_kept br (port_off n br)"
proof -
  let ?br1 = "br_become_designated_port n br"
  have k: "stp_kept br ?br1"
    unfolding br_become_designated_port_def by (rule stp_kept_upd_port [OF wf]) simp
  moreover have "bridge_core (port_off n br) = bridge_core ?br1" by (simp add: port_off_def Let_def)
  ultimately show ?thesis
    using stp_kept_trans [OF k stp_kept_core [of ?br1 "port_off n br"]] by (simp add: stp_kept_def)
qed

lemma port_off_disabled:
  assumes p: "br_get_port br n = Some p"
  shows "\<exists>q. br_get_port (port_off n br) n = Some q \<and> p_state q = BR_STATE_DISABLED"
proof -
  have no: "p_port_no (become_designated br p) = p_port_no p" for p by simp
  have "br_get_port (emit e (br_log_state n br)) m = br_get_port br m" for e br m
    by (simp add: br_get_port_def emit_def)
  then show ?thesis
    using p by (simp add: port_off_def Let_def br_become_designated_port_def br_get_port_upd_port no)
qed

text \<open>The state after it.\<close>

definition off_result :: "u16 \<Rightarrow> net_device \<Rightarrow> net_bridge \<Rightarrow> net_bridge \<Rightarrow> bool" where
  "off_result n dev br br' \<longleftrightarrow> br_wf br' \<and> port_nos br' = port_nos br
    \<and> map p_dev (b_port_list br') = map p_dev (b_port_list br)
    \<and> b_root_port br' \<noteq> n \<and> (\<exists>q. br_get_port br' n = Some q \<and> p_state q = BR_STATE_DISABLED)
    \<and> fdb_lookup br' = (\<lambda>a. Option.bind (fdb_lookup br a) (not_dynamic_on n))
    \<and> b_mc_hash br' = mc_flushed dev br \<and> b_mc_salt br' = b_mc_salt br"

lemma port_off_then_reselect:
  assumes wf: "br_wf br" and p: "br_get_port br n = Some p"
    and br1: "br_wf br1" "fdb_core br1 = fdb_core (port_off n br)"
      "fdb_lookup br1 = (\<lambda>a. Option.bind (fdb_lookup (port_off n br) a) (not_dynamic_on n))"
    and br2: "mc_kept br1 br2" "b_mc_hash br2 = mc_flushed dev br1"
  shows "runs (reselect w br2) (off_result n dev br)"
proof -
  have f0: "stp_frame br (port_off n br)" using port_off_kept [OF wf] by (simp add: stp_kept_def)
  obtain q where q: "br_get_port (port_off n br) n = Some q" "p_state q = BR_STATE_DISABLED"
    using port_off_disabled [OF p] by blast
  have wf2: "br_wf br2" by (rule br_wf_mc_kept [OF br1(1) br2(1)])
  have c2: "mc_core br2 = mc_core br1" using br2(1) by (simp add: mc_kept_def)
  have l: "b_port_list br2 = b_port_list (port_off n br)"
    using mc_core_eqD(1) [OF c2] fdb_core_eqD(1) [OF br1(2)] by simp
  have d: "distinct (port_nos br2)" "0 \<notin> set (port_nos br2)" using wf2 by (simp_all add: br_wf_def stp_wf_def)
  have q2: "br_get_port br2 n = Some q" using q(1) l by (simp add: br_get_port_def)
  have mc: "b_mc_hash br2 = mc_flushed dev br"
    using stp_frameD [OF f0] fdb_core_eq_derived(2) [OF br1(2)] fdb_core_eqD(1) [OF br1(2)]
      fdb_core_mc [OF br1(2)]
    unfolding br2(2) by (intro mc_flushed_cong) simp_all
  have salt: "b_mc_salt br2 = b_mc_salt br"
    using mc_core_eqD(2) [OF c2] fdb_core_mc(2) [OF br1(2)] stp_frameD(6) [OF f0] by simp
  have lk: "fdb_lookup br2 = (\<lambda>a. Option.bind (fdb_lookup br a) (not_dynamic_on n))"
    using mc_core_fdb_wf(2) [OF c2] br1(3) stp_frame_lookup [OF f0] by simp
  show ?thesis
  proof (rule runs_mono [OF reselect_kept [OF wf2 stp_frame_refl]], elim conjE)
    fix br' assume k: "stp_kept br2 br'" and s: "selected br2 br'"
    then have f: "stp_frame br2 br'" by (simp add: stp_kept_def)
    show "off_result n dev br br'"
      using selected_disabled [OF s d q2 q(2)] k stp_frameD(4-7) [OF f] stp_frameD(4,7) [OF f0] l
        stp_frame_lookup [OF f] lk mc salt
      by (simp add: stp_kept_def port_nos_def off_result_def)
  qed
qed

lemma br_stp_disable_port_runs:
  assumes wf: "br_wf br" and p: "br_get_port br n = Some p"
  shows "runs (br_stp_disable_port env n br) (off_result n (p_dev p) br)"
proof -
  have wf0: "br_wf (port_off n br)" using port_off_kept [OF wf] by (simp add: stp_kept_def)
  have eq: "br_stp_disable_port env n br =
      Option.bind (br_fdb_delete_by_port env n 0 (port_off n br)) (\<lambda>br1.
      Option.bind (br_mcast_handle_netdevice_events env (p_dev p) br1) (reselect (br_is_root_bridge br)))"
    using p by (simp add: br_stp_disable_port_def port_off_def Let_def)
  show ?thesis
    unfolding eq runs_bind
  proof (rule runs_mono [OF br_fdb_delete_by_port_0_runs [OF wf0]], elim conjE)
    fix br1
    assume 1: "br_wf br1" "fdb_core br1 = fdb_core (port_off n br)"
      "fdb_lookup br1 = (\<lambda>a. Option.bind (fdb_lookup (port_off n br) a) (not_dynamic_on n))"
    then have "mc_wf br1" by (simp add: br_wf_def)
    then show "runs (br_mcast_handle_netdevice_events env (p_dev p) br1)
        (\<lambda>br2. runs (reselect (br_is_root_bridge br) br2) (off_result n (p_dev p) br))"
      by (rule runs_mono [OF br_mcast_handle_netdevice_events_runs])
        (blast intro: port_off_then_reselect [OF wf p 1])
  qed
qed

lemma br_stp_disable_bridge_wf:
  assumes wf: "br_wf br"
  shows "runs (br_stp_disable_bridge env br) (\<lambda>br'. br_wf br' \<and> port_nos br' = port_nos br
    \<and> map p_dev (b_port_list br') = map p_dev (b_port_list br))"
proof -
  let ?I = "\<lambda>s. br_wf s \<and> port_nos s = port_nos br \<and> map p_dev (b_port_list s) = map p_dev (b_port_list br)"
  have loop: "runs (for_each (\<lambda>n br. do {
         p \<leftarrow> br_get_port br n;
         if p_state p \<noteq> BR_STATE_DISABLED then br_stp_disable_port env n br else Some br
       }) (port_nos br) br) ?I"
  proof (rule for_each_runs [where I = ?I])
    fix n s
    assume n: "n \<in> set (port_nos br)" and s: "?I s"
    then obtain p where p: "br_get_port s n = Some p" using br_get_port_ex [of n s] by auto
    have "runs (br_stp_disable_port env n s) ?I"
      by (rule runs_mono [OF br_stp_disable_port_runs [OF _ p]]) (use s in \<open>auto simp: off_result_def\<close>)
    with p s show "runs (do { p \<leftarrow> br_get_port s n;
         if p_state p \<noteq> BR_STATE_DISABLED then br_stp_disable_port env n s else Some s }) ?I" by simp
  qed (use wf in simp)
  have fin: "br_wf (br'\<lparr>b_topology_change := False, b_topology_change_detected := False, b_hello_timer := a,
      b_topology_change_timer := b, b_tcn_timer := c, b_gc_timer := d\<rparr>)" if "br_wf br'" for br' a b c d
    by (rule br_wf_frame [OF that])
      (use that in \<open>simp_all add: stp_frame_def stp_core_def bridge_core_def br_wf_def stp_wf_def port_nos_def\<close>)
  show ?thesis
    unfolding br_stp_disable_bridge_def runs_bind
    by (rule runs_mono [OF loop]) (simp add: fin, simp add: port_nos_def)
qed

end
