(* ===== verification/Stp_If_Props.thy ===== *)
theory Stp_If_Props
  imports Stp_If
begin

text \<open>
  What the administrative operations of the spanning tree promise: a disabled port is out of
  the tree and out of both tables, a bridge whose identifier is made the least becomes the root,
  the identifier follows the ports' addresses, and values out of range are refused.
\<close>

lemma example_br_wf [simp]: "br_wf example_forwarding"
proof -
  have "b_mc_hash example_forwarding i = []" for i
    by (simp add: example_forwarding_def upd_port_def example_bridge_def)
  moreover have "rate_wf example_forwarding" by code_simp
  ultimately show ?thesis by (simp add: br_wf_def mc_wf_def)
qed

section \<open>Disabling a port\<close>

lemma mc_flushed_port:
  assumes p: "br_get_port br n = Some p" and leaf: "dev_path_refcount (p_dev p) = 0"
    and e: "e \<in> set (mc_flushed (p_dev p) br i)"
  shows "mc_dst e \<noteq> n"
proof -
  obtain e0 where "left (bydev_action (p_dev p) True br) e0 = Some e"
    using e leaf by (auto simp: mc_flushed_def in_map_filter)
  then have "e0 = e" and "mc_bydev (p_dev p) br e = Some False"
    by (auto simp: left_def bydev_action_def br_igmp_mc_fdb_del_entry_def Let_def bind_eq_Some_conv split: if_splits)
  then show ?thesis using p by (auto simp: mc_bydev_def)
qed



section \<open>Identifiers\<close>

lemma selected_bridge_id: "selected br br' \<Longrightarrow> b_bridge_id br' = b_bridge_id br"
  unfolding selected_def
  using config_updated_fields(2) bridge_core_eqD(3) after_selection_keeps(5) by metis

text \<open>C32: The bridge with the least identifier is the root. When the priority of a bridge is changed so
  that no port has heard of a root with a smaller identifier, \<open>br_stp_set_bridge_priority\<close>
  makes the bridge the root: no root port, path cost 0, its own new identifier as the root.\<close>

theorem least_priority_becomes_root:
  assumes wf: "br_wf br" and i: "i = set_id_prio newprio (b_bridge_id br)"
    and least: "\<forall>p \<in> set (b_port_list br). i \<le> p_designated_root p"
  shows "runs (br_stp_set_bridge_priority newprio br) (\<lambda>br'. br_wf br' \<and> b_bridge_id br' = i
    \<and> b_designated_root br' = i \<and> b_root_port br' = 0 \<and> b_root_path_cost br' = 0)"
proof (rule runs_mono [OF br_stp_set_bridge_priority_kept [OF wf]], elim conjE)
  fix br'
  assume k: "stp_kept br br'" and s: "selected (changed_prio newprio br) br'"
  have nos: "port_nos (changed_prio newprio br) = port_nos br" by (rule stp_frameD(4) [OF changed_prio_frame])
  then have d: "distinct (port_nos (changed_prio newprio br))" "0 \<notin> set (port_nos (changed_prio newprio br))"
    using wf by (simp_all add: br_wf_def stp_wf_def)
  have id: "b_bridge_id (changed_prio newprio br) = i" by (simp add: changed_prio_def i)
  have "\<not> root_candidate (changed_prio newprio br) q" if "q \<in> set (b_port_list (changed_prio newprio br))" for q
  proof -
    have "p_designated_root q \<in> p_designated_root ` set (b_port_list br)"
      using that by (auto simp: changed_prio_def)
    then have "i \<le> p_designated_root q" using least by auto
    then show ?thesis by (simp add: root_candidate_def id not_less)
  qed
  from selected_no_candidate [OF s d this] selected_bridge_id [OF s] k id
  show "br_wf br' \<and> b_bridge_id br' = i \<and> b_designated_root br' = i \<and> b_root_port br' = 0 \<and> b_root_path_cost br' = 0"
    by (simp add: stp_kept_def)
qed

theorem least_priority_becomes_root_witness:
  "runs (br_stp_set_bridge_priority 0x1000 example_forwarding) (\<lambda>br'. b_root_port br' = 0
    \<and> b_designated_root br' = Bridge_id 0x10 0 (id_addr example_id))"
  by (rule runs_mono [OF least_priority_becomes_root [OF example_br_wf refl]])
    (auto simp: example_forwarding_def upd_port_def upd_list_def example_defs set_id_prio_def less_eq_bridge_id_def)

text \<open>The loop over the ports finds the least address.\<close>

lemma foldl_lower_addr:
  "case foldl lower_addr acc ps of
     None \<Rightarrow> acc = None \<and> ps = []
   | Some a \<Rightarrow> (acc = Some a \<or> a \<in> (dev_addr \<circ> p_dev) ` set ps)
       \<and> (\<forall>b. acc = Some b \<or> b \<in> (dev_addr \<circ> p_dev) ` set ps \<longrightarrow> mac_bytes a \<le> mac_bytes b)"
proof (induction ps arbitrary: acc)
  case (Cons p ps)
  show ?case
    using Cons [of "lower_addr acc p"]
    by (auto simp: lower_addr_def memcmp_less_iff split: option.splits if_splits)
qed (simp split: option.split)

text \<open>C33: The identifier of the bridge follows its ports. Unless the user has set the address, or some
  port already has the address in use, \<open>br_stp_recalculate_bridge_id\<close> moves to the least address
  (byte by byte) of a port, to the zero address when there is no port, and reports whether the
  identifier changed; in the first two cases nothing changes at all.\<close>

theorem bridge_id_is_least_port_address:
  assumes wf: "br_wf br"
  shows "runs (br_stp_recalculate_bridge_id br) (\<lambda>(changed, br'). br_wf br'
    \<and> (if b_set_mac_addr br \<or> (\<exists>p \<in> set (b_port_list br). dev_addr (p_dev p) = id_addr (b_bridge_id br))
       then \<not> changed \<and> br' = br
       else (changed \<longleftrightarrow> id_addr (b_bridge_id br') \<noteq> id_addr (b_bridge_id br))
         \<and> (if b_port_list br = [] then id_addr (b_bridge_id br') = Mac 0 0 0 0 0 0
            else (\<exists>p \<in> set (b_port_list br). id_addr (b_bridge_id br') = dev_addr (p_dev p))
              \<and> (\<forall>p \<in> set (b_port_list br). mac_bytes (id_addr (b_bridge_id br')) \<le> mac_bytes (dev_addr (p_dev p))))))"
proof (cases "b_set_mac_addr br \<or> (\<exists>p \<in> set (b_port_list br). dev_addr (p_dev p) = id_addr (b_bridge_id br))")
  case True
  then show ?thesis
    using wf by (auto simp: br_stp_recalculate_bridge_id_def memcmp_eq_0_iff list_ex_iff)
next
  case False
  define a where "a = (case foldl lower_addr None (b_port_list br) of None \<Rightarrow> Mac 0 0 0 0 0 0 | Some a \<Rightarrow> a)"
  have a: "if b_port_list br = [] then a = Mac 0 0 0 0 0 0
      else (\<exists>p \<in> set (b_port_list br). a = dev_addr (p_dev p))
        \<and> (\<forall>p \<in> set (b_port_list br). mac_bytes a \<le> mac_bytes (dev_addr (p_dev p)))"
    using foldl_lower_addr [of None "b_port_list br"] by (auto simp: a_def split: option.splits)
  have id: "id_addr (b_bridge_id br') = a" if "selected (changed_addr a br) br'" for br'
    using selected_bridge_id [OF that] by (simp add: changed_addr_def Let_def set_id_addr_def)
  have eq: "br_stp_recalculate_bridge_id br = (if id_addr (b_bridge_id br) = a then Some (False, br)
      else Option.bind (br_stp_change_bridge_id a br) (\<lambda>br. Some (True, br)))"
    using False by (auto simp: br_stp_recalculate_bridge_id_def memcmp_eq_0_iff list_ex_iff Let_def simp flip: a_def)
  show ?thesis
  proof (cases "id_addr (b_bridge_id br) = a")
    case True
    with a False wf show ?thesis by (auto simp: eq)
  next
    case new: False
    have "runs (br_stp_change_bridge_id a br) (\<lambda>br'. br_wf br' \<and> id_addr (b_bridge_id br') = a)"
      by (rule runs_mono [OF br_stp_change_bridge_id_kept [OF wf]]) (simp add: id stp_kept_def)
    then show ?thesis
      using new False a by (auto simp: eq elim!: runs_mono split: if_splits)
  qed
qed

theorem bridge_id_is_least_port_address_witness:
  "runs (br_stp_recalculate_bridge_id (example_forwarding\<lparr>b_bridge_id := Bridge_id 0x80 0 (Mac 0 0x10 0x20 0x30 0x40 9),
      b_designated_root := Bridge_id 0x80 0 (Mac 0 0x10 0x20 0x30 0x40 9)\<rparr>)) (\<lambda>(changed, br').
     id_addr (b_bridge_id br') = Mac 0 0x10 0x20 0x30 0x40 1)"
proof -
  let ?br = "example_forwarding\<lparr>b_bridge_id := Bridge_id 0x80 0 (Mac 0 0x10 0x20 0x30 0x40 9),
      b_designated_root := Bridge_id 0x80 0 (Mac 0 0x10 0x20 0x30 0x40 9)\<rparr>"
  have "stp_frame example_forwarding ?br" by (simp add: stp_frame_def stp_core_def bridge_core_def)
  then have "br_wf ?br"
    by (rule br_wf_frame [OF example_br_wf]) (simp add: stp_wf_def port_nos_def example_forwarding_def upd_port_def upd_list_def example_defs)
  then show ?thesis
    by (rule runs_mono [OF bridge_id_is_least_port_address])
      (auto simp: example_forwarding_def upd_port_def upd_list_def example_defs)
qed

section \<open>Port identifiers and ranges\<close>

text \<open>A port identifier orders the ports by priority first and port number second. For the
  priorities (below 64) and port numbers (below 1024) the bridge uses, \<open>br_make_port_id\<close> packs
  them without loss, so distinct ports have distinct identifiers.\<close>

lemma port_id_layout:
  assumes "unat prio < 64" "unat n < 1024"
  shows "unat (br_make_port_id prio n) = unat prio * 1024 + unat n"
proof -
  have "br_make_port_id prio n = or (push_bit 10 (ucast prio)) (take_bit 10 n)"
    by (simp add: br_make_port_id_def take_bit_eq_mask mask_eq_exp_minus_1)
  also have "\<dots> = push_bit 10 (ucast prio) + take_bit 10 n"
    by (rule disjunctive_add [symmetric]) (auto simp: bit_simps)
  finally have "unat (br_make_port_id prio n) = (unat (ucast prio * 1024 :: u16) + unat (take_bit 10 n)) mod 65536"
    by (simp add: unat_word_ariths push_bit_eq_mult)
  moreover have "unat (take_bit 10 n) = unat n"
    using assms(2) by (simp add: unsigned_take_bit_eq take_bit_nat_eq_self)
  moreover have "unat (ucast prio * 1024 :: u16) = unat prio * 1024"
    using assms(1) by (simp add: unat_word_ariths unsigned_ucast_eq take_bit_nat_def)
  ultimately show ?thesis using assms by simp
qed

text \<open>Values out of range are refused without any effect, and others are stored. A port priority
  above 63 or a path cost outside 1 to 65535 gives \<open>ERANGE\<close> and leaves the bridge unchanged;
  otherwise the operation succeeds and keeps the invariants.\<close>

lemma stp_parameter_ranges:
  assumes wf: "br_wf br" and n: "n \<in> set (port_nos br)"
  shows "runs (br_stp_set_port_priority n v br) (\<lambda>(r, br'). if v > 63 then r = Some ERANGE \<and> br' = br else r = None \<and> br_wf br')
    \<and> runs (br_stp_set_path_cost n v br) (\<lambda>(r, br'). if v = 0 \<or> v > 65535 then r = Some ERANGE \<and> br' = br else r = None \<and> br_wf br')"
proof -
  obtain r br' where prio: "br_stp_set_port_priority n v br = Some (r, br')"
    using runs_ex [OF br_stp_set_port_priority_kept [OF assms, of v]] by auto
  then have "if v > 63 then r = Some ERANGE \<and> br' = br else r = None"
    by (auto simp: br_stp_set_port_priority_def BR_MAX_PORT_PRIORITY_def bind_eq_Some_conv Let_def split: if_splits)
  with prio have port_res: "runs (br_stp_set_port_priority n v br) (\<lambda>(r, br'). if v > 63 then r = Some ERANGE \<and> br' = br else r = None)" by simp
  obtain r br' where cost: "br_stp_set_path_cost n v br = Some (r, br')"
    using runs_ex [OF br_stp_set_path_cost_kept [OF assms, of v]] by auto
  then have "if v = 0 \<or> v > 65535 then r = Some ERANGE \<and> br' = br else r = None"
    by (auto simp: br_stp_set_path_cost_def BR_MIN_PATH_COST_def BR_MAX_PATH_COST_def bind_eq_Some_conv split: if_splits)
  with cost have cost_res: "runs (br_stp_set_path_cost n v br) (\<lambda>(r, br'). if v = 0 \<or> v > 65535 then r = Some ERANGE \<and> br' = br else r = None)" by simp
  show ?thesis
    by (intro conjI runs_mono [OF runs_conj [OF br_stp_set_port_priority_kept [OF assms, of v] port_res]]
      runs_mono [OF runs_conj [OF br_stp_set_path_cost_kept [OF assms, of v] cost_res]])
      (auto simp: stp_kept_def)
qed

section \<open>Stopping the protocol\<close>

text \<open>Stopping the user-space spanning tree starts nothing. The state selection that
  \<open>br_stp_stop\<close> makes ``to start timers on any ports left in blocking'' runs while the protocol
  is still marked as user space and therefore changes no port: a blocked port stays blocked
  when the bridge returns to running without a spanning tree.\<close>

lemma stopping_user_stp_leaves_ports_blocked:
  assumes "stp_wf br" "b_stp_enabled br = BR_USER_STP"
  shows "runs (br_stp_stop br) (\<lambda>br'. b_stp_enabled br' = BR_NO_STP \<and> b_port_list br' = b_port_list br)"
proof -
  have "select_port br p = p" for p using assms(2) by (simp add: select_port_def)
  then have "runs (br_port_state_selection br) (\<lambda>br'. b_port_list br' = b_port_list br)"
    by (intro runs_mono [OF br_port_state_selection_runs [OF assms(1)]]) (simp add: map_idI)
  then show ?thesis
    using assms(2) by (auto simp: br_stp_stop_def br_stp_notify_state_bridge_def elim!: runs_mono)
qed

end
