(* ===== verification/Bridge_If.thy ===== *)
theory Bridge_If
  imports Stp_If_Props
begin

text \<open>
  Ports and bridge devices come and go: \<open>net/bridge/br_if.c\<close>, the device event handler of
  \<open>net/bridge/br_notify.c\<close> and the device operations of \<open>net/bridge/br_device.c\<close> other than
  transmission and statistics. A device is passed as the record of its present state; a port
  holds the record of its device, which the event handler brings up to date first. What the rest
  of the kernel answers when a device is attached is in the environment; sysfs links, kobjects,
  reference counts and the device features are not modelled.
\<close>

section \<open>Ports\<close>

definition port_cost :: "br_env \<Rightarrow> net_device \<Rightarrow> u32" where
  "port_cost env dev =
     (let speed = env_speed env (dev_ifindex dev)
      in if speed = Some 10000 then 2
         else if speed = Some 1000 then 4
         else if speed = Some 100 then 19
         else if speed = Some 10 then 100
         else if take 3 (dev_name dev) = ''lec'' then 7
         else if take 4 (dev_name dev) = ''plip'' then 2500
         else 100)"

definition br_port_carrier_check :: "br_env \<Rightarrow> u16 \<Rightarrow> net_bridge \<Rightarrow> net_bridge option" where
  "br_port_carrier_check env n br = do {
     p \<leftarrow> br_get_port br n;
     let dev = p_dev p;
     let br = (if dev_running dev \<and> dev_carrier dev
               then upd_port n (\<lambda>p. p\<lparr>p_path_cost := port_cost env dev\<rparr>) br else br);
     if \<not> dev_running (b_dev br) then Some br
     else if dev_running dev \<and> dev_carrier dev
     then (if p_state p = BR_STATE_DISABLED then br_stp_enable_port n br else Some br)
     else (if p_state p \<noteq> BR_STATE_DISABLED then br_stp_disable_port env n br else Some br)
   }"

definition del_nbp :: "br_env \<Rightarrow> u16 \<Rightarrow> net_bridge \<Rightarrow> net_bridge option" where
  "del_nbp env n br = do {
     p \<leftarrow> br_get_port br n;
     br \<leftarrow> br_stp_disable_port env n (emit (Set_promiscuity (dev_ifindex (p_dev p)) False) br);
     br \<leftarrow> br_fdb_delete_by_port env n 1 (emit (Br_ifinfo_notify_del n) br);
     br \<leftarrow> br_mcast_handle_netdevice_events env (p_dev p) br;
     Some (br\<lparr>b_port_list := filter (\<lambda>q. p_port_no q \<noteq> n) (b_port_list br)\<rparr>)
   }"

definition br_dev_delete :: "br_env \<Rightarrow> net_bridge \<Rightarrow> net_bridge option" where
  "br_dev_delete env br = do {
     br \<leftarrow> for_each (del_nbp env) (port_nos br) br;
     br \<leftarrow> br_igmp_mc_fdb_cleanup br;
     Some (emit (Unregister_netdevice (dev_ifindex (b_dev br)))
       (br\<lparr>b_igmp_timer := del_timer (b_igmp_timer br), b_gc_timer := del_timer (b_gc_timer br)\<rparr>))
   }"

definition BR_MAX_PORTS :: nat where "BR_MAX_PORTS = 1024"

text \<open>The bitmap has \<open>BR_MAX_PORTS\<close> bits; a greater port number would write behind it.\<close>

definition find_portno :: "br_env \<Rightarrow> net_bridge \<Rightarrow> (errno + nat) option" where
  "find_portno env br =
     (if \<not> env_portno_alloc env then Some (Inl ENOMEM)
      else if \<not> list_all (\<lambda>n. unat n < BR_MAX_PORTS) (port_nos br) then None
      else case find (\<lambda>i. i \<notin> set (0 # map unat (port_nos br))) [0..<BR_MAX_PORTS] of
          None \<Rightarrow> Some (Inl EXFULL)
        | Some index \<Rightarrow> Some (Inr index))"

text \<open>A new port is zeroed memory with the stores of \<open>new_nbp\<close>.\<close>

definition zero_id :: bridge_id where "zero_id = Bridge_id 0 0 (Mac 0 0 0 0 0 0)"

definition new_nbp :: "br_env \<Rightarrow> net_device \<Rightarrow> net_bridge \<Rightarrow> (errno + net_bridge_port) option" where
  "new_nbp env dev br = do {
     index \<leftarrow> find_portno env br;
     case index of
       Inl err \<Rightarrow> Some (Inl err)
     | Inr index \<Rightarrow>
         if \<not> env_port_alloc env then Some (Inl ENOMEM)
         else Some (Inr ((init_port br
           \<lparr>p_dev = dev, p_priority = ucast (drop_bit 10 (0x8000 :: u16)), p_state = BR_STATE_DISABLED,
            p_port_no = of_nat index, p_topology_change_ack = False, p_config_pending = False,
            p_port_id = 0, p_designated_port = 0, p_designated_root = zero_id, p_designated_bridge = zero_id,
            p_path_cost = port_cost env dev, p_designated_cost = 0, p_designated_age = 0,
            p_dirty = False, p_forward_delay_timer = None, p_hold_timer = None,
            p_message_age_timer = None, p_flags = 0, p_is_dedicated_stp_port = False,
            p_is_bpdu_blocked = False\<rparr>)\<lparr>p_state := BR_STATE_DISABLED\<rparr>))
   }"

definition ETH_DATA_LEN :: u32 where "ETH_DATA_LEN = 1500"

definition br_min_mtu :: "net_bridge \<Rightarrow> u32" where
  "br_min_mtu br =
     (if b_port_list br = [] then ETH_DATA_LEN
      else foldl (\<lambda>mtu p. if mtu = 0 \<or> dev_mtu (p_dev p) < mtu then dev_mtu (p_dev p) else mtu) 0 (b_port_list br))"

definition br_change_mtu :: "int \<Rightarrow> net_bridge \<Rightarrow> result \<times> net_bridge" where
  "br_change_mtu new_mtu br =
     (if new_mtu < 68 \<or> new_mtu > sint (br_min_mtu br) then (Some EINVAL, br)
      else (None, br\<lparr>b_dev := (b_dev br)\<lparr>dev_mtu := of_int new_mtu\<rparr>\<rparr>))"

text \<open>\<open>dev_set_mtu\<close> of \<open>net/core/dev.c\<close> on the bridge device, which no driver ever detaches, so that
  \<open>netif_device_present\<close> holds.\<close>

definition dev_set_mtu :: "int \<Rightarrow> net_bridge \<Rightarrow> result \<times> net_bridge" where
  "dev_set_mtu new_mtu br =
     (if of_int new_mtu = dev_mtu (b_dev br) then (None, br)
      else if new_mtu < 0 then (Some EINVAL, br)
      else
        let (err, br) = br_change_mtu new_mtu br
        in (err, if err = None \<and> dev_up (b_dev br)
                 then emit (Call_netdevice_changemtu (dev_ifindex (b_dev br))) br else br))"

section \<open>Adding and deleting\<close>

definition ARPHRD_ETHER :: nat where "ARPHRD_ETHER = 1"
definition IFF_DONT_BRIDGE :: u32 where "IFF_DONT_BRIDGE = 0x800"
definition IFF_BRIDGE_PORT :: u32 where "IFF_BRIDGE_PORT = 0x4000"
definition IFF_BCM_VLAN :: u32 where "IFF_BCM_VLAN = 0x400000"

text \<open>The calls of \<open>br_add_if\<close> that attach the device and may fail, in their order: the error and
  whether the device has been put into promiscuous mode by then.\<close>

definition attach_error :: "br_env \<Rightarrow> (errno \<times> bool) option" where
  "attach_error env =
     (case env_promiscuity env of Some e \<Rightarrow> Some (e, False) | None \<Rightarrow>
      case env_kobject env of Some e \<Rightarrow> Some (e, True) | None \<Rightarrow>
      case env_sysfs env of Some e \<Rightarrow> Some (e, True) | None \<Rightarrow>
      case env_set_master env of Some e \<Rightarrow> Some (e, True) | None \<Rightarrow>
      map_option (\<lambda>e. (e, True)) (env_rx_handler env))"

definition add_checks :: "net_device \<Rightarrow> result" where
  "add_checks dev =
     (if dev_loopback dev \<or> dev_type dev \<noteq> ARPHRD_ETHER \<or> dev_addr_len dev \<noteq> 6
         \<or> \<not> is_valid_ether_addr (dev_addr dev) then Some EINVAL
      else if dev_xmit_is_bridge dev then Some ELOOP
      else if and (dev_priv_flags dev) IFF_BRIDGE_PORT \<noteq> 0 then Some EBUSY
      else if and (dev_priv_flags dev) IFF_DONT_BRIDGE \<noteq> 0 then Some EOPNOTSUPP
      else None)"

text \<open>The rest of \<open>br_add_if\<close> once the device is attached.\<close>

definition join_port :: "br_env \<Rightarrow> net_device \<Rightarrow> net_bridge_port \<Rightarrow> net_bridge \<Rightarrow> (result \<times> net_bridge) option" where
  "join_port env dev p br = do {
     let p = p\<lparr>p_dev := dev\<lparr>dev_promisc := True, dev_priv_flags := or (dev_priv_flags dev) IFF_BRIDGE_PORT\<rparr>\<rparr>;
     let br = br\<lparr>b_port_list := p # b_port_list br\<rparr>;
     (changed, br) \<leftarrow> br_stp_recalculate_bridge_id br;
     br \<leftarrow> (if dev_up dev \<and> dev_carrier dev \<and> dev_up (b_dev br)
           then br_stp_enable_port (p_port_no p) br else Some br);
     let br = emit (Br_ifinfo_notify (p_port_no p)) br;
     let br = (if changed then emit (Call_netdevice_changeaddr (dev_ifindex (b_dev br))) br else br);
     let br = snd (dev_set_mtu (sint (br_min_mtu br)) br);
     (_, br) \<leftarrow> br_fdb_insert env (Some (p_port_no p)) (dev_addr dev) br;
     Some (None, br)
   }"

definition br_add_if :: "br_env \<Rightarrow> net_device \<Rightarrow> net_bridge \<Rightarrow> (result \<times> net_bridge) option" where
  "br_add_if env dev br =
     (case add_checks dev of
        Some err \<Rightarrow> Some (Some err, br)
      | None \<Rightarrow> do {
          p \<leftarrow> new_nbp env dev br;
          case p of
            Inl err \<Rightarrow> Some (Some err, br)
          | Inr p \<Rightarrow>
              let br = emit (Call_netdevice_join (dev_ifindex dev)) (br_stp_notify_state_port p br);
                  promisc = emit (Set_promiscuity (dev_ifindex dev) True) br
              in case attach_error env of
                   Some (err, False) \<Rightarrow> Some (Some err, br)
                 | Some (err, True) \<Rightarrow> Some (Some err, emit (Set_promiscuity (dev_ifindex dev) False) promisc)
                 | None \<Rightarrow> join_port env dev p promisc
        })"

text \<open>The flow paths that \<open>br_del_if\<close> deletes before the port.\<close>

definition flow_paths_deleted :: "net_device \<Rightarrow> net_bridge \<Rightarrow> br_effect list" where
  "flow_paths_deleted dev br =
     (if and (dev_priv_flags dev) IFF_BCM_VLAN \<noteq> 0
      then Br_flow_path_delete None (dev_ifindex dev)
        # map (\<lambda>p. Br_flow_path_delete (Some (dev_ifindex dev)) (dev_ifindex (p_dev p)))
            (filter (\<lambda>p. dev_ifindex (p_dev p) \<noteq> dev_ifindex dev \<and> and (dev_priv_flags (p_dev p)) IFF_BCM_VLAN \<noteq> 0)
              (b_port_list br))
      else [])"

definition br_del_if :: "br_env \<Rightarrow> net_device \<Rightarrow> net_bridge \<Rightarrow> (result \<times> net_bridge) option" where
  "br_del_if env dev br =
     (case port_by_ifindex (dev_ifindex dev) br of
        None \<Rightarrow> Some (Some EINVAL, br)
      | Some p \<Rightarrow> do {
          br \<leftarrow> del_nbp env (p_port_no p) (br\<lparr>b_out := b_out br @ flow_paths_deleted dev br\<rparr>);
          (changed, br) \<leftarrow> br_stp_recalculate_bridge_id br;
          Some (None, if changed then emit (Call_netdevice_changeaddr (dev_ifindex (b_dev br))) br else br)
        })"

text \<open>\<open>found\<close> is what the lookup of the name returns; it is this bridge's device when it is a bridge.\<close>

definition br_del_bridge :: "br_env \<Rightarrow> net_device option \<Rightarrow> net_bridge \<Rightarrow> (result \<times> net_bridge) option" where
  "br_del_bridge env found br =
     (case found of
        None \<Rightarrow> Some (Some ENXIO, br)
      | Some dev \<Rightarrow>
          if and (dev_priv_flags dev) IFF_EBRIDGE = 0 then Some (Some EPERM, br)
          else if dev_up dev then Some (Some EBUSY, br)
          else do { br \<leftarrow> br_dev_delete env br; Some (None, br) })"

section \<open>Device events\<close>

datatype netdev_event =
    NETDEV_UP | NETDEV_DOWN | NETDEV_GOING_DOWN | NETDEV_CHANGE | NETDEV_REGISTER | NETDEV_UNREGISTER
  | NETDEV_CHANGEMTU | NETDEV_CHANGEADDR | NETDEV_CHANGENAME | NETDEV_FEAT_CHANGE | NETDEV_PRE_TYPE_CHANGE

datatype notify = NOTIFY_DONE | NOTIFY_BAD | Notify_from_errno errno

definition device_changed :: "net_device \<Rightarrow> net_bridge \<Rightarrow> net_bridge" where
  "device_changed dev br = br\<lparr>b_port_list :=
     map (\<lambda>p. if dev_ifindex (p_dev p) = dev_ifindex dev then p\<lparr>p_dev := dev\<rparr> else p) (b_port_list br)\<rparr>"

definition port_event ::
  "br_env \<Rightarrow> netdev_event \<Rightarrow> net_device \<Rightarrow> u16 \<Rightarrow> net_bridge \<Rightarrow> (notify \<times> net_bridge) option" where
  "port_event env event dev n br =
     (case event of
        NETDEV_CHANGEMTU \<Rightarrow> Some (NOTIFY_DONE, snd (dev_set_mtu (sint (br_min_mtu br)) br))
      | NETDEV_CHANGEADDR \<Rightarrow> do {
          br \<leftarrow> br_fdb_changeaddr env n (dev_addr dev) br;
          (changed, br) \<leftarrow> br_stp_recalculate_bridge_id br;
          Some (NOTIFY_DONE, if changed then emit (Call_netdevice_changeaddr (dev_ifindex (b_dev br))) br else br)
        }
      | NETDEV_CHANGE \<Rightarrow> do { br \<leftarrow> br_port_carrier_check env n br; Some (NOTIFY_DONE, br) }
      | NETDEV_DOWN \<Rightarrow> do {
          br \<leftarrow> (if dev_up (b_dev br) then br_stp_disable_port env n br else Some br);
          Some (NOTIFY_DONE, br)
        }
      | NETDEV_UP \<Rightarrow> do {
          br \<leftarrow> (if dev_carrier dev \<and> dev_up (b_dev br) then br_stp_enable_port n br else Some br);
          Some (NOTIFY_DONE, br)
        }
      | NETDEV_UNREGISTER \<Rightarrow> do { (_, br) \<leftarrow> br_del_if env dev br; Some (NOTIFY_DONE, br) }
      | NETDEV_CHANGENAME \<Rightarrow>
          Some (case env_sysfs env of None \<Rightarrow> NOTIFY_DONE | Some e \<Rightarrow> Notify_from_errno e, br)
      | NETDEV_PRE_TYPE_CHANGE \<Rightarrow> Some (NOTIFY_BAD, br)
      | _ \<Rightarrow> Some (NOTIFY_DONE, br))"

definition br_device_event ::
  "br_env \<Rightarrow> netdev_event \<Rightarrow> net_device \<Rightarrow> net_bridge \<Rightarrow> (notify \<times> net_bridge) option" where
  "br_device_event env event dev br = do {
     let br = device_changed dev br;
     br \<leftarrow> (if event \<in> {NETDEV_DOWN, NETDEV_GOING_DOWN, NETDEV_CHANGE}
           then br_mcast_handle_netdevice_events env dev br else Some br);
     if and (dev_priv_flags dev) IFF_EBRIDGE \<noteq> 0 \<and> event = NETDEV_REGISTER then Some (NOTIFY_DONE, br)
     else case port_by_ifindex (dev_ifindex dev) br of
         None \<Rightarrow> Some (NOTIFY_DONE, br)
       | Some p \<Rightarrow> do {
           (r, br) \<leftarrow> port_event env event dev (p_port_no p) br;
           Some (r, if event \<in> {NETDEV_CHANGEADDR, NETDEV_UP, NETDEV_CHANGE, NETDEV_DOWN}
                    then emit (Br_ifinfo_notify (p_port_no p)) br else br)
         }
   }"

section \<open>The bridge device\<close>

definition br_dev_open :: "net_bridge \<Rightarrow> net_bridge option" where
  "br_dev_open br = br_stp_enable_bridge br"

definition br_dev_stop :: "br_env \<Rightarrow> net_bridge \<Rightarrow> net_bridge option" where
  "br_dev_stop env br = br_stp_disable_bridge env br"

definition br_set_mac_address :: "br_env \<Rightarrow> mac_addr \<Rightarrow> net_bridge \<Rightarrow> (result \<times> net_bridge) option" where
  "br_set_mac_address env addr br =
     (if \<not> is_valid_ether_addr addr then Some (Some EADDRNOTAVAIL, br)
      else do {
        br \<leftarrow> (if compare_ether_addr (dev_addr (b_dev br)) addr
              then do {
                br \<leftarrow> br_fdb_change_mac_address env addr (br\<lparr>b_dev := (b_dev br)\<lparr>dev_addr := addr\<rparr>\<rparr>);
                br_stp_change_bridge_id addr br
              }
              else Some br);
        Some (None, br\<lparr>b_set_mac_addr := True\<rparr>)
      })"

text \<open>
  The bridge that \<open>br_dev_setup\<close> makes of the zeroed memory \<open>alloc_netdev\<close> gives it; \<open>addr\<close> is the address
  \<open>eth_hw_addr_random\<close> draws, and the device gets its name and number when it is registered. The clock
  and the two hash salts are kernel globals.
\<close>

definition ether_setup :: "net_device \<Rightarrow> net_device" where
  "ether_setup dev = dev\<lparr>dev_type := ARPHRD_ETHER, dev_mtu := ETH_DATA_LEN, dev_addr_len := 6,
     dev_up := False, dev_loopback := False, dev_promisc := False\<rparr>"

definition br_dev_setup :: "nat \<Rightarrow> string \<Rightarrow> mac_addr \<Rightarrow> u32 \<Rightarrow> u32 \<Rightarrow> u32 \<Rightarrow> net_bridge" where
  "br_dev_setup ifindex name addr jiffies fdb_salt mc_salt =
     (let dev = ether_setup \<lparr>dev_ifindex = ifindex, dev_name = name, dev_addr = addr, dev_up = False,
                  dev_running = False, dev_carrier = True, dev_promisc = False, dev_priv_flags = 0, dev_mtu = 0,
                  dev_loopback = False, dev_type = 0, dev_addr_len = 0, dev_xmit_is_bridge = False,
                  dev_path_refcount = 0, dev_phy_type = 0\<rparr>;
          bridge_id = Bridge_id 0x80 0 (Mac 0 0 0 0 0 0)
      in \<lparr>b_port_list = [], b_dev = dev\<lparr>dev_xmit_is_bridge := True, dev_priv_flags := IFF_EBRIDGE\<rparr>,
          b_hash = (\<lambda>_. []), b_set_mac_addr = False, b_num_fdb_entries = 0,
          b_igmp_timer = None, b_igmp_proxy = False, b_igmp_snooping = 0, b_mc_hash = (\<lambda>_. []),
          b_igmp_delayed_skb = replicate 64 None, b_igmp_rate_limit = 0, b_igmp_rate_bucket = 0,
          b_igmp_rate_last_packet = 0, b_igmp_rate_rem_time = 0, b_group_fwd_mask = 0,
          b_designated_root = bridge_id, b_bridge_id = bridge_id, b_root_path_cost = 0,
          b_max_age = 20 * HZ, b_hello_time = 2 * HZ, b_forward_delay = 15 * HZ,
          b_bridge_max_age = 20 * HZ, b_ageing_time = 300 * HZ, b_bridge_hello_time = 2 * HZ,
          b_bridge_forward_delay = 15 * HZ, b_group_addr = Mac 0x01 0x80 0xc2 0 0 0,
          b_root_port = 0, b_stp_enabled = BR_NO_STP, b_topology_change = False,
          b_topology_change_detected = False, b_hello_timer = None, b_tcn_timer = None,
          b_topology_change_timer = None, b_gc_timer = None, b_jiffies = jiffies, b_cpu = 0,
          b_fdb_salt = fdb_salt, b_mc_salt = mc_salt, b_out = []\<rparr>)"

end
