(* ===== verification/Bridge_If_Inv.thy ===== *)
theory Bridge_If_Inv
  imports Bridge_If
begin

text \<open>
  The invariants of the whole bridge under the operations of theory \<open>Bridge_If\<close>: besides those of the
  three components, every port number fits the bitmap of \<open>find_portno\<close> and no device is a port
  twice.
\<close>

lemma tables_wf_cong:
  assumes "port_nos br' = port_nos br" "b_root_port br' = b_root_port br" "b_bridge_id br' = b_bridge_id br"
    "b_designated_root br' = b_designated_root br" "b_hash br' = b_hash br" "b_num_fdb_entries br' = b_num_fdb_entries br"
    "b_fdb_salt br' = b_fdb_salt br" "b_mc_hash br' = b_mc_hash br" "b_mc_salt br' = b_mc_salt br"
  shows "stp_wf br' = stp_wf br" "fdb_wf br' = fdb_wf br" "mc_wf br' = mc_wf br"
proof -
  have l: "fdb_lookup br' = fdb_lookup br" using assms by (intro fdb_lookup_cong) simp_all
  have t: "fdb_table br' = fdb_table br" using assms by (intro fdb_table_cong) simp_all
  have "entry_ok br' f = entry_ok br f" for f using assms(1) by (simp add: entry_ok_def split: option.split)
  then show "fdb_wf br' = fdb_wf br" using l t assms(6) by (simp add: fdb_wf_def)
  show "mc_wf br' = mc_wf br"
    using assms(1,8,9) by (simp add: mc_wf_def mc_entry_ok_def br_igmp_mc_fdb_hash_def)
  show "stp_wf br' = stp_wf br" using assms(1-4) by (simp add: stp_wf_def)
qed

lemma br_wf_cong:
  assumes "port_nos br' = port_nos br" "b_root_port br' = b_root_port br" "b_bridge_id br' = b_bridge_id br"
    "b_designated_root br' = b_designated_root br" "b_hash br' = b_hash br" "b_num_fdb_entries br' = b_num_fdb_entries br"
    "b_fdb_salt br' = b_fdb_salt br" "b_mc_hash br' = b_mc_hash br" "b_mc_salt br' = b_mc_salt br"
    "b_igmp_rate_limit br' = b_igmp_rate_limit br" "b_igmp_rate_bucket br' = b_igmp_rate_bucket br"
  shows "br_wf br' = br_wf br"
  using tables_wf_cong [OF assms(1-9)] rate_wf_cong [OF assms(10,11)] by (simp add: br_wf_def)

lemma br_wf_upds [simp]:
  "br_wf (br\<lparr>b_dev := d\<rparr>) = br_wf br" "br_wf (br\<lparr>b_set_mac_addr := x\<rparr>) = br_wf br"
  "br_wf (br\<lparr>b_out := fx\<rparr>) = br_wf br" "br_wf (emit e br) = br_wf br"
  "br_wf (br\<lparr>b_igmp_timer := t\<rparr>) = br_wf br" "br_wf (br\<lparr>b_gc_timer := t\<rparr>) = br_wf br"
  "br_wf (br\<lparr>b_igmp_delayed_skb := ds\<rparr>) = br_wf br" "br_wf (br\<lparr>b_jiffies := j\<rparr>) = br_wf br"
  "br_wf (br\<lparr>b_igmp_snooping := n\<rparr>) = br_wf br" "br_wf (br\<lparr>b_igmp_proxy := x\<rparr>) = br_wf br"
  "br_wf (br\<lparr>b_ageing_time := j\<rparr>) = br_wf br" "br_wf (br\<lparr>b_group_fwd_mask := m\<rparr>) = br_wf br"
  "br_wf (br\<lparr>b_group_addr := a\<rparr>) = br_wf br"
  by (rule br_wf_cong; simp add: port_nos_def emit_def)+

text \<open>The interface index of each port.\<close>

definition if_idxs :: "net_bridge \<Rightarrow> nat list" where
  "if_idxs br = map (dev_ifindex \<circ> p_dev) (b_port_list br)"

definition if_wf :: "net_bridge \<Rightarrow> bool" where
  "if_wf br \<longleftrightarrow> br_wf br \<and> (\<forall>n \<in> set (port_nos br). unat n < BR_MAX_PORTS) \<and> distinct (if_idxs br)"

lemma if_wf_cong: "br_wf br' \<Longrightarrow> port_nos br' = port_nos br \<Longrightarrow> if_idxs br' = if_idxs br \<Longrightarrow> if_wf br \<Longrightarrow> if_wf br'"
  by (simp add: if_wf_def)

lemma if_idxs_dev: "map p_dev (b_port_list br') = map p_dev (b_port_list br) \<Longrightarrow> if_idxs br' = if_idxs br"
  unfolding if_idxs_def by (metis map_map)

lemma if_wf_stp_kept: "if_wf br \<Longrightarrow> stp_kept br br' \<Longrightarrow> if_wf br'"
  using if_wf_cong [of br' br] stp_frameD(4,7) [of br br'] if_idxs_dev [of br' br] by (simp add: stp_kept_def)

lemma if_wf_fdb:
  assumes "if_wf br" "fdb_wf br'" "fdb_core br' = fdb_core br"
  shows "if_wf br'"
  using if_wf_cong [of br' br] assms br_wf_fdb_core [of br br'] fdb_core_eqD(1) [OF assms(3)]
    fdb_core_eq_derived(2) [OF assms(3)]
  by (simp add: if_wf_def if_idxs_def)

lemma if_wf_mc: "if_wf br \<Longrightarrow> mc_kept br br' \<Longrightarrow> if_wf br'"
  using if_wf_cong [of br' br] br_wf_mc_kept [of br br'] mc_core_eqD(1) [of br' br]
  by (simp add: if_wf_def mc_kept_def if_idxs_def port_nos_def)

lemma if_wf_off: "if_wf br \<Longrightarrow> off_result n dev br br' \<Longrightarrow> if_wf br'"
  using if_wf_cong [of br' br] if_idxs_dev [of br' br] by (simp add: off_result_def)

lemma if_wf_upds [simp]:
  "if_wf (br\<lparr>b_dev := d\<rparr>) = if_wf br" "if_wf (br\<lparr>b_set_mac_addr := x\<rparr>) = if_wf br"
  "if_wf (br\<lparr>b_out := fx\<rparr>) = if_wf br" "if_wf (emit e br) = if_wf br"
  "if_wf (br\<lparr>b_igmp_timer := t\<rparr>) = if_wf br" "if_wf (br\<lparr>b_gc_timer := t\<rparr>) = if_wf br"
  "if_wf (br\<lparr>b_igmp_delayed_skb := ds\<rparr>) = if_wf br" "if_wf (br\<lparr>b_jiffies := j\<rparr>) = if_wf br"
  "if_wf (br\<lparr>b_igmp_snooping := n\<rparr>) = if_wf br" "if_wf (br\<lparr>b_igmp_proxy := x\<rparr>) = if_wf br"
  "if_wf (br\<lparr>b_ageing_time := j\<rparr>) = if_wf br" "if_wf (br\<lparr>b_group_fwd_mask := m\<rparr>) = if_wf br"
  "if_wf (br\<lparr>b_group_addr := a\<rparr>) = if_wf br"
  by (simp_all add: if_wf_def if_idxs_def, simp_all add: port_nos_def)

lemma if_wf_mtu [simp]: "if_wf (snd (dev_set_mtu m br)) = if_wf br"
  by (simp add: dev_set_mtu_def br_change_mtu_def)

lemma if_wf_rate:
  assumes "if_wf br" "unat l \<le> 500" "unat b \<le> max 1 (unat l div 4)"
  shows "if_wf (br\<lparr>b_igmp_rate_limit := l, b_igmp_rate_bucket := b, b_igmp_rate_rem_time := r, b_igmp_rate_last_packet := t\<rparr>)"
    (is "if_wf ?br'")
proof -
  have "stp_wf ?br' = stp_wf br" "fdb_wf ?br' = fdb_wf br" "mc_wf ?br' = mc_wf br"
    by (rule tables_wf_cong; simp add: port_nos_def)+
  with assms have "br_wf ?br'" by (simp add: if_wf_def br_wf_def rate_wf_def)
  then show ?thesis by (rule if_wf_cong [OF _ _ _ assms(1)]) (simp_all add: port_nos_def if_idxs_def)
qed

section \<open>A new port\<close>

lemma find_upt_SomeD:
  "find P [0..<m] = Some i \<Longrightarrow> P i \<and> i < m \<and> (\<forall>j < i. \<not> P j)"
  by (auto simp: find_Some_iff)

text \<open>The number of a new port is the least that is free.\<close>

definition free_portno :: "net_bridge \<Rightarrow> nat \<Rightarrow> bool" where
  "free_portno br i \<longleftrightarrow> 0 < i \<and> i < BR_MAX_PORTS \<and> of_nat i \<notin> set (port_nos br)"

lemma unat_portno: "i < BR_MAX_PORTS \<Longrightarrow> unat (of_nat i :: u16) = i"
  by (simp add: BR_MAX_PORTS_def unsigned_of_nat take_bit_nat_eq_self)

lemma of_nat_portno_iff:
  assumes "i < BR_MAX_PORTS"
  shows "of_nat i \<in> set ns \<longleftrightarrow> i \<in> unat ` set (ns :: u16 list)"
proof -
  have "unat (of_nat i :: u16) = i" by (rule unat_portno [OF assms])
  then have "n = of_nat i \<longleftrightarrow> unat n = i" for n :: u16 by (auto simp: word_unat_eq_iff)
  then show ?thesis by (metis (no_types, lifting) image_iff)
qed

lemma find_portno_runs:
  assumes "if_wf br"
  shows "runs (find_portno env br) (\<lambda>r. case r of
      Inl e \<Rightarrow> if env_portno_alloc env then e = EXFULL \<and> (\<forall>i. \<not> free_portno br i) else e = ENOMEM
    | Inr i \<Rightarrow> env_portno_alloc env \<and> free_portno br i \<and> (\<forall>j < i. \<not> free_portno br j))"
proof -
  let ?P = "\<lambda>i. i \<notin> set (0 # map unat (port_nos br))"
  have P: "?P i \<longleftrightarrow> free_portno br i" if "i < BR_MAX_PORTS" for i
    using of_nat_portno_iff [OF that] that by (simp add: free_portno_def)
  have b: "list_all (\<lambda>n. unat n < BR_MAX_PORTS) (port_nos br)" using assms by (simp add: if_wf_def list_all_iff)
  show ?thesis
  proof (cases "find ?P [0..<BR_MAX_PORTS]")
    case None
    then have "\<not> free_portno br i" for i
      using P [of i] by (cases "i < BR_MAX_PORTS") (auto simp: find_None_iff free_portno_def)
    with None b show ?thesis by (simp add: find_portno_def)
  next
    case (Some i)
    then have "free_portno br i" "\<forall>j < i. \<not> free_portno br j"
      using find_upt_SomeD [OF Some] P by (auto, metis less_trans)
    with Some b show ?thesis by (simp add: find_portno_def)
  qed
qed

lemma new_nbp_runs:
  assumes "if_wf br"
  shows "runs (new_nbp env dev br) (\<lambda>r. case r of
      Inl e \<Rightarrow> if env_portno_alloc env \<and> (\<forall>i. \<not> free_portno br i) then e = EXFULL
               else e = ENOMEM \<and> \<not> (env_portno_alloc env \<and> env_port_alloc env)
    | Inr p \<Rightarrow> p_dev p = dev \<and> p_state p = BR_STATE_DISABLED \<and> env_portno_alloc env \<and> env_port_alloc env
        \<and> (\<exists>i. p_port_no p = of_nat i \<and> free_portno br i \<and> (\<forall>j < i. \<not> free_portno br j)))"
  unfolding new_nbp_def runs_bind
  by (rule runs_mono [OF find_portno_runs [OF assms]])
    (auto simp: init_port_def become_designated_def split: sum.splits if_splits)

text \<open>A port with a free number and a device of its own may be put in front.\<close>

lemma port_added_wf:
  assumes wf: "if_wf br" and n: "p_port_no p = of_nat i" "free_portno br i"
    and d: "dev_ifindex (p_dev p) \<notin> set (if_idxs br)"
  shows "if_wf (br\<lparr>b_port_list := p # b_port_list br\<rparr>)"
proof -
  let ?br = "br\<lparr>b_port_list := p # b_port_list br\<rparr>"
  have u: "unat (p_port_no p) = i" using n unat_portno [of i] by (simp add: free_portno_def)
  have nos: "port_nos ?br = p_port_no p # port_nos br" by (simp add: port_nos_def)
  have "p_port_no p \<noteq> 0" using u n(2) by (auto simp: free_portno_def)
  then have stp: "stp_wf ?br" using wf n nos by (auto simp: if_wf_def br_wf_def stp_wf_def free_portno_def)
  have l: "fdb_lookup ?br = fdb_lookup br" by (rule fdb_lookup_cong) simp_all
  have t: "fdb_table ?br = fdb_table br" by (rule fdb_table_cong) simp_all
  have "entry_ok ?br f" if "entry_ok br f" for f
    using that nos by (auto simp: entry_ok_def split: option.splits)
  then have fdb: "fdb_wf ?br" using wf l t by (auto simp: if_wf_def br_wf_def fdb_wf_def)
  have mc: "mc_wf ?br"
    using wf nos by (auto simp: if_wf_def br_wf_def mc_wf_def mc_entry_ok_def br_igmp_mc_fdb_hash_def)
  show ?thesis
    using stp fdb mc wf nos d u n(2) by (auto simp: if_wf_def br_wf_def if_idxs_def free_portno_def)
qed

text \<open>Steps that keep the invariant and what both tables say.\<close>

definition same_tables :: "net_bridge \<Rightarrow> net_bridge \<Rightarrow> bool" where
  "same_tables br br' \<longleftrightarrow> if_wf br' \<and> port_nos br' = port_nos br \<and> if_idxs br' = if_idxs br
     \<and> b_mc_hash br' = b_mc_hash br \<and> b_mc_salt br' = b_mc_salt br
     \<and> fdb_lookup br' = fdb_lookup br \<and> b_jiffies br' = b_jiffies br"

lemma same_tables_refl: "if_wf br \<Longrightarrow> same_tables br br"
  by (simp add: same_tables_def)

lemma same_tables_trans [trans]: "same_tables a b \<Longrightarrow> same_tables b c \<Longrightarrow> same_tables a c"
  by (simp add: same_tables_def)

lemma same_tables_stp_kept: "if_wf br \<Longrightarrow> stp_kept br br' \<Longrightarrow> same_tables br br'"
  using stp_frameD [of br br'] if_idxs_dev [of br' br] if_wf_stp_kept [of br br'] stp_frame_lookup [of br br']
  by (simp add: same_tables_def stp_kept_def)

lemma same_tables_step: "same_tables br br1 \<Longrightarrow> stp_kept br1 br2 \<Longrightarrow> same_tables br br2"
  using same_tables_trans [of br br1 br2] same_tables_stp_kept [of br1 br2] by (simp add: same_tables_def)

lemma same_tables_emit [simp]: "same_tables br (emit e br') = same_tables br br'"
proof -
  have "fdb_lookup (emit e br') = fdb_lookup br'" by (rule fdb_lookup_cong) simp_all
  then show ?thesis by (simp add: same_tables_def if_idxs_def) (simp add: emit_def)
qed

lemma same_tables_mtu [simp]: "same_tables br (snd (dev_set_mtu m br')) = same_tables br br'"
proof -
  have "fdb_lookup (br'\<lparr>b_dev := d\<rparr>) = fdb_lookup br'" for d by (rule fdb_lookup_cong) simp_all
  then have "same_tables br (br'\<lparr>b_dev := d\<rparr>) = same_tables br br'" for d
    by (simp add: same_tables_def if_idxs_def) (simp add: port_nos_def)
  then show ?thesis by (simp add: dev_set_mtu_def br_change_mtu_def)
qed

lemma recalculate_same:
  assumes "same_tables br0 br"
  shows "runs (br_stp_recalculate_bridge_id br) (\<lambda>(changed, br'). same_tables br0 br')"
proof -
  have "br_wf br" using assms by (simp add: same_tables_def if_wf_def)
  from br_stp_recalculate_bridge_id_kept [OF this] show ?thesis
    by (rule runs_mono) (auto intro: same_tables_step [OF assms])
qed

lemma enable_port_same:
  assumes "same_tables br0 br"
  shows "runs (br_stp_enable_port n br) (same_tables br0)"
proof -
  have "br_wf br" using assms by (simp add: same_tables_def if_wf_def)
  from br_stp_enable_port_kept [OF this] show ?thesis
    by (rule runs_mono) (rule same_tables_step [OF assms])
qed

text \<open>The bridge with a port more, whose address is in the forwarding database.\<close>

definition joined :: "br_env \<Rightarrow> u16 \<Rightarrow> net_device \<Rightarrow> net_bridge \<Rightarrow> net_bridge \<Rightarrow> bool" where
  "joined env n dev br br' \<longleftrightarrow> if_wf br' \<and> port_nos br' = n # port_nos br
     \<and> if_idxs br' = dev_ifindex dev # if_idxs br \<and> b_mc_hash br' = b_mc_hash br
     \<and> fdb_lookup br' = snd (spec_insert env (Some n) (dev_addr dev) br (fdb_lookup br))"

lemma spec_insert_cong: "b_jiffies br' = b_jiffies br \<Longrightarrow> spec_insert env s a br' m = spec_insert env s a br m"
  by (simp add: spec_insert_def can_create_def new_entry_def Let_def)

lemma joined_emit [simp]: "joined env n dev (emit e br) br' = joined env n dev br br'"
proof -
  have "fdb_lookup (emit e br) = fdb_lookup br" by (rule fdb_lookup_cong) simp_all
  then show ?thesis using spec_insert_cong [of "emit e br" br] by (simp add: joined_def if_idxs_def)
qed

lemma free_portno_emit [simp]: "free_portno (emit e br) i = free_portno br i"
  by (simp add: free_portno_def)

lemma if_idxs_emit [simp]: "if_idxs (emit e br) = if_idxs br"
  by (simp add: if_idxs_def)

lemma insert_joins:
  assumes "same_tables br0 br" and n: "n \<in> set (port_nos br)"
  shows "runs (br_fdb_insert env (Some n) a br) (\<lambda>(r, br'). if_wf br' \<and> port_nos br' = port_nos br0
    \<and> if_idxs br' = if_idxs br0 \<and> b_mc_hash br' = b_mc_hash br0
    \<and> fdb_lookup br' = snd (spec_insert env (Some n) a br0 (fdb_lookup br0)))"
proof -
  have wf: "if_wf br" using assms(1) by (simp add: same_tables_def)
  then have f: "fdb_wf br" by (simp add: if_wf_def br_wf_def)
  have j: "spec_insert env (Some n) a br = spec_insert env (Some n) a br0"
    using assms spec_insert_cong [of br br0] by (auto simp: same_tables_def fun_eq_iff)
  show ?thesis
    unfolding br_fdb_insert_def
  proof (rule runs_mono [OF fdb_insert_runs [OF f, of "Some n"]], use n in simp, simp)
    fix x
    assume x: "case x of (r, br') \<Rightarrow> r = fst (spec_insert env (Some n) a br (fdb_lookup br))
      \<and> fdb_becomes br (snd (spec_insert env (Some n) a br (fdb_lookup br))) br'"
    obtain r br' where eq: "x = (r, br')" by fastforce
    then have b: "fdb_becomes br (snd (spec_insert env (Some n) a br (fdb_lookup br))) br'" using x by simp
    have c: "fdb_core br' = fdb_core br" "fdb_wf br'"
      using b spec_insert_wf [OF f b] n by (simp_all add: fdb_becomes_def)
    show "case x of (r, br') \<Rightarrow> if_wf br' \<and> port_nos br' = port_nos br0
      \<and> if_idxs br' = if_idxs br0 \<and> b_mc_hash br' = b_mc_hash br0
      \<and> fdb_lookup br' = snd (spec_insert env (Some n) a br0 (fdb_lookup br0))"
      using assms(1) if_wf_fdb [OF wf c(2,1)] fdb_core_eqD(1) [OF c(1)] fdb_core_eq_derived(2) [OF c(1)]
        fdb_core_mc(1) [OF c(1)] fdb_becomes_core(3) [OF b] j
      by (simp add: eq same_tables_def if_idxs_def)
  qed
qed

lemma join_port_runs:
  assumes wf: "if_wf br" and n: "p_port_no p = of_nat i" "free_portno br i" and d: "dev_ifindex dev \<notin> set (if_idxs br)"
  shows "runs (join_port env dev p br) (\<lambda>(r, br'). r = None \<and> joined env (p_port_no p) dev br br')"
proof -
  let ?p = "p\<lparr>p_dev := dev\<lparr>dev_promisc := True, dev_priv_flags := or (dev_priv_flags dev) IFF_BRIDGE_PORT\<rparr>\<rparr>"
  let ?br0 = "br\<lparr>b_port_list := ?p # b_port_list br\<rparr>"
  have wf0: "if_wf ?br0" by (rule port_added_wf [OF wf, of ?p i]) (use n d in simp_all)
  have nos: "port_nos ?br0 = p_port_no p # port_nos br" by (simp add: port_nos_def)
  have idx: "if_idxs ?br0 = dev_ifindex dev # if_idxs br" by (simp add: if_idxs_def)
  have lk: "fdb_lookup ?br0 = fdb_lookup br" by (rule fdb_lookup_cong) simp_all
  have sp: "spec_insert env s a ?br0 m = spec_insert env s a br m" for s a m by (rule spec_insert_cong) simp
  have ins: "runs (Option.bind (br_fdb_insert env (Some (p_port_no p)) (dev_addr dev) br2) (\<lambda>(_, br'). Some (None, br')))
      (\<lambda>(r, br'). r = None \<and> joined env (p_port_no p) dev br br')" if "same_tables ?br0 br2" for br2
    unfolding runs_bind
    by (rule runs_mono [OF insert_joins [OF that]])
      (use that nos in \<open>auto simp: joined_def idx lk sp same_tables_def\<close>)
  have en: "runs (if dev_up dev \<and> dev_carrier dev \<and> dev_up (b_dev br1) then br_stp_enable_port (p_port_no p) br1 else Some br1)
      (same_tables ?br0)" if "same_tables ?br0 br1" for br1
    using enable_port_same [OF that] that by simp
  show ?thesis
    unfolding join_port_def Let_def runs_bind
  proof (rule runs_mono [OF recalculate_same [OF same_tables_refl [OF wf0]]], goal_cases)
    case (1 x)
    then obtain c br1 where x: "x = (c, br1)" "same_tables ?br0 br1" by (cases x) simp
    have no: "p_port_no ?p = p_port_no p" by simp
    show ?case
      unfolding x(1) prod.case runs_bind no
      by (rule runs_mono [OF en [OF x(2)]], rule ins [unfolded runs_bind]) simp
  qed
qed

lemma br_add_if_runs:
  assumes wf: "if_wf br"
    and flag: "dev_ifindex dev \<in> set (if_idxs br) \<Longrightarrow> and (dev_priv_flags dev) IFF_BRIDGE_PORT \<noteq> 0"
  shows "runs (br_add_if env dev br) (\<lambda>(r, br').
    if add_checks dev = None \<and> env_portno_alloc env \<and> env_port_alloc env \<and> attach_error env = None \<and> (\<exists>i. free_portno br i)
    then r = None \<and> (\<exists>i. free_portno br i \<and> (\<forall>j < i. \<not> free_portno br j) \<and> joined env (of_nat i) dev br br')
    else r \<noteq> None \<and> same_tables br br' \<and> b_port_list br' = b_port_list br)"
proof (cases "add_checks dev")
  case None
  then have d: "dev_ifindex dev \<notin> set (if_idxs br)"
    using flag by (auto simp: add_checks_def split: if_splits)
  have nt: "\<exists>b. br_stp_notify_state_port p br = (if b then emit e br else br)"
    if "e = Stp_state_changed (dev_name (p_dev p)) (Some (p_state p))" for p e
    unfolding that by (rule exI [of _ "b_stp_enabled br \<noteq> BR_NO_STP"]) (simp add: br_stp_notify_state_port_def)
  show ?thesis
    unfolding br_add_if_def None option.case runs_bind
  proof (rule runs_mono [OF new_nbp_runs [OF wf]], goal_cases)
    case (1 x)
    obtain b where b: "case x of Inl _ \<Rightarrow> True | Inr p \<Rightarrow>
        br_stp_notify_state_port p br = (if b then emit (Stp_state_changed (dev_name (p_dev p)) (Some (p_state p))) br else br)"
      using nt by (cases x) auto
    show ?case
    proof (cases x)
      case (Inl e)
      then show ?thesis using 1 same_tables_refl [OF wf] by (auto split: if_splits)
    next
      case (Inr p)
      then obtain i where i: "p_port_no p = of_nat i" "free_portno br i" "\<forall>j < i. \<not> free_portno br j"
        and ok: "env_portno_alloc env" "env_port_alloc env" using 1 by auto
      let ?br = "emit (Set_promiscuity (dev_ifindex dev) True) (emit (Call_netdevice_join (dev_ifindex dev)) (br_stp_notify_state_port p br))"
      have "runs (join_port env dev p ?br) (\<lambda>(r, br'). r = None \<and> joined env (of_nat i) dev br br')"
        using join_port_runs [of ?br p i dev env] wf i d b by (simp add: Inr split: if_splits)
      then have "runs (join_port env dev p ?br) (\<lambda>(r, br'). r = None
          \<and> (\<exists>i. free_portno br i \<and> (\<forall>j < i. \<not> free_portno br j) \<and> joined env (of_nat i) dev br br'))"
        by (rule runs_mono) (use i in auto)
      moreover have "Ex (free_portno br)" "\<not> (\<forall>x. \<not> free_portno br x)" using i(2) by blast+
      ultimately show ?thesis
        using Inr b ok same_tables_refl [OF wf]
        by (auto simp: Let_def None split: option.split prod.split bool.split if_splits)
    qed
  qed
next
  case (Some e)
  then show ?thesis using same_tables_refl [OF wf] by (simp add: br_add_if_def)
qed

section \<open>A port goes\<close>

lemma map_option_find_parallel2:
  "map f xs = map f ys \<Longrightarrow> map g xs = map g ys
    \<Longrightarrow> map_option f (find (\<lambda>x. P (f x) (g x)) xs) = map_option f (find (\<lambda>x. P (f x) (g x)) ys)"
  by (induction xs ys rule: list_induct2') auto

lemma port_deleted_cong:
  assumes "port_nos br' = port_nos br" "map p_dev (b_port_list br') = map p_dev (b_port_list br)"
  shows "port_deleted n k br' = port_deleted n k br"
proof -
  have o: "map_option p_port_no (other_port_with n a br') = map_option p_port_no (other_port_with n a br)" for a
    unfolding other_port_with_def
    using map_option_find_parallel2 [OF assms [unfolded port_nos_def], of "\<lambda>no d. no \<noteq> n \<and> \<not> compare_ether_addr (dev_addr d) a"] by simp
  have "map_option (\<lambda>op. f\<lparr>f_dst := Some (p_port_no op)\<rparr>) (other_port_with n a br')
      = map_option (\<lambda>op. f\<lparr>f_dst := Some (p_port_no op)\<rparr>) (other_port_with n a br)" for f :: net_bridge_fdb_entry and a
    using arg_cong [OF o [of a], of "map_option (\<lambda>x. f\<lparr>f_dst := Some x\<rparr>)"] by (simp add: option.map_comp comp_def)
  then show ?thesis by (simp add: port_deleted_def fun_eq_iff)
qed

text \<open>Emptying the database of dynamic entries first changes nothing.\<close>

lemma port_deleted_after_off:
  "entry_ok br f \<Longrightarrow> Option.bind (not_dynamic_on n f) (port_deleted n 1 br) = port_deleted n 1 br f"
  by (auto simp: not_dynamic_on_def port_deleted_def entry_ok_def)

lemma port_deleted_dst: "port_deleted n 1 br f = Some g \<Longrightarrow> f_dst g \<noteq> Some n"
  by (auto simp: port_deleted_def dest!: other_port_with_SomeD split: if_splits)

text \<open>What \<open>del_nbp\<close> has done before it unlinks the port.\<close>

definition emptied :: "u16 \<Rightarrow> net_device \<Rightarrow> net_bridge \<Rightarrow> net_bridge \<Rightarrow> bool" where
  "emptied n dev br br' \<longleftrightarrow> if_wf br' \<and> port_nos br' = port_nos br
     \<and> map p_dev (b_port_list br') = map p_dev (b_port_list br) \<and> b_root_port br' \<noteq> n
     \<and> fdb_lookup br' = (\<lambda>a. Option.bind (fdb_lookup br a) (port_deleted n 1 br))
     \<and> b_mc_hash br' = mc_flushed dev br"

lemma mc_flushed_filter:
  "dev_path_refcount dev = 0 \<Longrightarrow> mc_flushed dev br i = filter (\<lambda>e. mc_bydev dev br e = Some False) (b_mc_hash br i)"
proof -
  have "left (bydev_action dev True br) e = (if mc_bydev dev br e = Some False then Some e else None)" for e
    by (cases "mc_bydev dev br e") (auto simp: left_def bydev_action_def br_igmp_mc_fdb_del_entry_def)
  then have "List.map_filter (left (bydev_action dev True br)) es = filter (\<lambda>e. mc_bydev dev br e = Some False) es" for es
    by (induction es) (simp_all add: List.map_filter_simps)
  then show "dev_path_refcount dev = 0 \<Longrightarrow> ?thesis" by (simp add: mc_flushed_def)
qed

lemma mc_bydev_cong:
  assumes "port_nos br' = port_nos br" "map p_dev (b_port_list br') = map p_dev (b_port_list br)"
  shows "mc_bydev dev br' e = mc_bydev dev br e"
proof -
  have "mc_bydev dev br e = map_option (\<lambda>d. dev_ifindex d = dev_ifindex dev \<or> mc_from_dev e = dev_ifindex dev)
      (map_option p_dev (br_get_port br (mc_dst e)))" for br
    by (cases "br_get_port br (mc_dst e)") (simp_all add: mc_bydev_def)
  then show ?thesis
    using map_option_find_parallel [OF assms(1) [unfolded port_nos_def] assms(2)] by (simp add: br_get_port_def)
qed

lemma mc_flushed_twice:
  assumes "port_nos br' = port_nos br" "map p_dev (b_port_list br') = map p_dev (b_port_list br)"
    "b_mc_hash br' = mc_flushed dev br"
  shows "mc_flushed dev br' = mc_flushed dev br"
proof (cases "dev_path_refcount dev = 0")
  case True
  then show ?thesis
    using assms(3) mc_bydev_cong [OF assms(1,2)] by (simp add: fun_eq_iff mc_flushed_filter [OF True])
next
  case False
  then show ?thesis using assms(3) by (simp add: mc_flushed_def)
qed

lemma emptied_runs:
  assumes wf: "if_wf br" and p: "br_get_port br n = Some p"
  shows "runs (do {
     br \<leftarrow> br_stp_disable_port env n (emit (Set_promiscuity (dev_ifindex (p_dev p)) False) br);
     br \<leftarrow> br_fdb_delete_by_port env n 1 (emit (Br_ifinfo_notify_del n) br);
     br_mcast_handle_netdevice_events env (p_dev p) br }) (emptied n (p_dev p) br)"
proof -
  let ?e = "emit (Set_promiscuity (dev_ifindex (p_dev p)) False) br"
  have e: "br_wf ?e" "br_get_port ?e n = Some p" using wf p by (simp_all add: if_wf_def)
  have lk: "fdb_lookup ?e = fdb_lookup br" by (rule fdb_lookup_cong) simp_all
  have fl: "mc_flushed (p_dev p) ?e = mc_flushed (p_dev p) br" by (rule mc_flushed_cong) (simp_all, simp add: emit_def)
  show ?thesis
    unfolding runs_bind
  proof (rule runs_mono [OF br_stp_disable_port_runs [OF e(1,2)]])
    fix br1 assume o: "off_result n (p_dev p) ?e br1"
    let ?b1 = "emit (Br_ifinfo_notify_del n) br1"
    have wf1: "if_wf br1" using if_wf_off [OF _ o] wf by simp
    then have "br_wf ?b1" by (simp add: if_wf_def)
    then have f1: "fdb_wf ?b1" unfolding br_wf_def by simp
    show "runs (br_fdb_delete_by_port env n 1 ?b1)
      (\<lambda>a. runs (br_mcast_handle_netdevice_events env (p_dev p) a) (emptied n (p_dev p) br))"
    proof (rule runs_mono [OF br_fdb_delete_by_port_runs [OF f1]], elim conjE)
      fix br2
      assume 2: "fdb_wf br2" "fdb_becomes ?b1 (\<lambda>a. Option.bind (fdb_lookup ?b1 a) (port_deleted n 1 ?b1)) br2"
      then have c: "fdb_core br2 = fdb_core br1" by (simp add: fdb_becomes_def)
      have l1: "fdb_lookup ?b1 = fdb_lookup br1" by (rule fdb_lookup_cong) simp_all
      have pd: "port_deleted n 1 ?b1 = port_deleted n 1 br"
        using o by (intro port_deleted_cong) (simp_all add: off_result_def)
      have ok: "entry_ok br f" if "fdb_lookup br a = Some f" for a f
        using fdb_wf_map(2) [OF _ that] wf by (simp add: if_wf_def br_wf_def)
      have b1: "fdb_lookup br1 a = Option.bind (fdb_lookup br a) (not_dynamic_on n)" for a
        using o by (simp add: off_result_def lk)
      have "fdb_lookup br2 a = Option.bind (fdb_lookup br1 a) (port_deleted n 1 br)" for a
        using fdb_becomes_core(3) [OF 2(2)] unfolding l1 pd by simp
      then have l2: "fdb_lookup br2 a = Option.bind (fdb_lookup br a) (port_deleted n 1 br)" for a
        unfolding b1 using port_deleted_after_off [OF ok] by (cases "fdb_lookup br a") simp_all
      have mc2: "mc_wf br2" using wf1 fdb_core_mc_wf [OF c] by (simp add: if_wf_def br_wf_def)
      have fl2: "mc_flushed (p_dev p) br2 = mc_flushed (p_dev p) br"
        using o fdb_core_mc(1) [OF c] fdb_core_eqD(1) [OF c] fl
        by (intro mc_flushed_twice) (simp_all add: off_result_def port_nos_def)
      have wf2: "if_wf br2" by (rule if_wf_fdb [OF wf1 2(1) c])
      show "runs (br_mcast_handle_netdevice_events env (p_dev p) br2) (emptied n (p_dev p) br)"
      proof (rule runs_mono [OF br_mcast_handle_netdevice_events_runs [OF mc2]], elim conjE)
        fix br3 assume 3: "mc_kept br2 br3" "b_mc_hash br3 = mc_flushed (p_dev p) br2"
        then have c3: "mc_core br3 = mc_core br2" by (simp add: mc_kept_def)
        show "emptied n (p_dev p) br br3"
          using if_wf_mc [OF wf2 3(1)] mc_core_eqD(1,10) [OF c3] fdb_core_eqD(1,9) [OF c] o 3(2) fl2
            mc_core_fdb_wf(2) [OF c3] l2
          by (simp add: emptied_def off_result_def port_nos_def fun_eq_iff)
      qed
    qed
  qed
qed

definition no_group_on :: "u16 \<Rightarrow> net_bridge \<Rightarrow> bool" where
  "no_group_on n br \<longleftrightarrow> (\<forall>i. \<forall>e \<in> set (b_mc_hash br i). mc_dst e \<noteq> n)"

text \<open>The bridge without the port.\<close>

definition removed :: "u16 \<Rightarrow> net_device \<Rightarrow> net_bridge \<Rightarrow> net_bridge \<Rightarrow> bool" where
  "removed n dev br br' \<longleftrightarrow> if_wf br' \<and> port_nos br' = filter (\<lambda>m. m \<noteq> n) (port_nos br)
     \<and> map p_dev (b_port_list br') = map p_dev (filter (\<lambda>p. p_port_no p \<noteq> n) (b_port_list br))
     \<and> fdb_lookup br' = (\<lambda>a. Option.bind (fdb_lookup br a) (port_deleted n 1 br))
     \<and> b_mc_hash br' = mc_flushed dev br"

lemma map_filter_parallel:
  "map f xs = map f ys \<Longrightarrow> map g xs = map g ys
    \<Longrightarrow> map g (filter (\<lambda>x. P (f x)) xs) = map g (filter (\<lambda>x. P (f x)) ys)"
  by (induction xs ys rule: list_induct2') auto

lemma unlink_parts:
  assumes e: "emptied n dev br br1"
  defines "br2 \<equiv> br1\<lparr>b_port_list := filter (\<lambda>q. p_port_no q \<noteq> n) (b_port_list br1)\<rparr>"
  shows "stp_wf br2" "fdb_wf br2" "port_nos br2 = filter (\<lambda>m. m \<noteq> n) (port_nos br)"
    "map p_dev (b_port_list br2) = map p_dev (filter (\<lambda>p. p_port_no p \<noteq> n) (b_port_list br))"
    "fdb_lookup br2 = (\<lambda>a. Option.bind (fdb_lookup br a) (port_deleted n 1 br))" "b_mc_hash br2 = mc_flushed dev br"
proof -
  have wf: "if_wf br1" and nos1: "port_nos br1 = port_nos br"
    and l1: "fdb_lookup br1 = (\<lambda>a. Option.bind (fdb_lookup br a) (port_deleted n 1 br))"
    using e by (simp_all add: emptied_def)
  have nos: "port_nos br2 = filter (\<lambda>m. m \<noteq> n) (port_nos br1)" by (simp add: br2_def port_nos_def filter_map comp_def)
  have l: "fdb_lookup br2 = fdb_lookup br1" by (rule fdb_lookup_cong) (simp_all add: br2_def)
  have t: "fdb_table br2 = fdb_table br1" by (rule fdb_table_cong) (simp_all add: br2_def)
  have "entry_ok br2 f" if f: "fdb_lookup br1 a = Some f" for a f
  proof -
    have "entry_ok br1 f" using fdb_wf_map(2) [OF _ f] wf by (simp add: if_wf_def br_wf_def)
    moreover have "f_dst f \<noteq> Some n" using f l1 port_deleted_dst [of n br _ f] by (auto simp: bind_eq_Some_conv)
    ultimately show ?thesis using nos by (auto simp: entry_ok_def split: option.splits)
  qed
  moreover have fld: "b_num_fdb_entries br2 = b_num_fdb_entries br1" "b_root_port br2 = b_root_port br1"
      "b_bridge_id br2 = b_bridge_id br1" "b_designated_root br2 = b_designated_root br1"
    by (simp_all add: br2_def)
  ultimately show "fdb_wf br2" using wf l t by (simp add: if_wf_def br_wf_def fdb_wf_def)
  have "stp_wf br1" "b_root_port br1 \<noteq> n" using wf e by (simp_all add: if_wf_def br_wf_def emptied_def)
  then show "stp_wf br2" using nos fld by (simp add: stp_wf_def)
  show "map p_dev (b_port_list br2) = map p_dev (filter (\<lambda>p. p_port_no p \<noteq> n) (b_port_list br))"
    using map_filter_parallel [of p_port_no "b_port_list br1" "b_port_list br" p_dev "\<lambda>m. m \<noteq> n"] e
    by (simp add: emptied_def port_nos_def br2_def)
  show "port_nos br2 = filter (\<lambda>m. m \<noteq> n) (port_nos br)" using nos nos1 by simp
  show "fdb_lookup br2 = (\<lambda>a. Option.bind (fdb_lookup br a) (port_deleted n 1 br))" using l l1 by simp
  show "b_mc_hash br2 = mc_flushed dev br" using e by (simp add: emptied_def br2_def)
qed

lemma unlink_wf:
  assumes e: "emptied n dev br br1" and g: "no_group_on n br1"
  shows "removed n dev br (br1\<lparr>b_port_list := filter (\<lambda>q. p_port_no q \<noteq> n) (b_port_list br1)\<rparr>)"
proof -
  let ?br = "br1\<lparr>b_port_list := filter (\<lambda>q. p_port_no q \<noteq> n) (b_port_list br1)\<rparr>"
  note u = unlink_parts [OF e]
  have wf: "if_wf br1" and nos: "port_nos br1 = port_nos br" using e by (simp_all add: emptied_def)
  have "mc_wf ?br"
    using wf nos g u(3) by (auto simp: if_wf_def br_wf_def mc_wf_def mc_entry_ok_def br_igmp_mc_fdb_hash_def no_group_on_def)
  moreover have "distinct (if_idxs ?br)"
    using wf distinct_map_filter [of "dev_ifindex \<circ> p_dev" "b_port_list br1"] by (simp add: if_wf_def if_idxs_def)
  ultimately have "if_wf ?br" using u(1-3) wf nos by (simp add: if_wf_def br_wf_def)
  then show ?thesis using u by (simp add: removed_def)
qed

lemma no_group_on_flushed:
  assumes p: "br_get_port br n = Some p" and g: "dev_path_refcount (p_dev p) = 0 \<or> no_group_on n br"
    and e: "emptied n (p_dev p) br br1"
  shows "no_group_on n br1"
  using g e mc_flushed_port [OF p] unfolding no_group_on_def emptied_def mc_flushed_def
  by (auto split: if_splits)

lemma del_nbp_steps:
  assumes wf: "if_wf br" and p: "br_get_port br n = Some p"
  shows "runs (del_nbp env n br) (\<lambda>br'. \<exists>br1. emptied n (p_dev p) br br1
    \<and> br' = br1\<lparr>b_port_list := filter (\<lambda>q. p_port_no q \<noteq> n) (b_port_list br1)\<rparr>)"
proof -
  have "del_nbp env n br = Option.bind (do {
     br \<leftarrow> br_stp_disable_port env n (emit (Set_promiscuity (dev_ifindex (p_dev p)) False) br);
     br \<leftarrow> br_fdb_delete_by_port env n 1 (emit (Br_ifinfo_notify_del n) br);
     br_mcast_handle_netdevice_events env (p_dev p) br })
     (\<lambda>br. Some (br\<lparr>b_port_list := filter (\<lambda>q. p_port_no q \<noteq> n) (b_port_list br)\<rparr>))"
    by (simp add: del_nbp_def p)
  then show ?thesis
    using runs_mono [OF emptied_runs [OF wf p, where env = env], of "\<lambda>br1. \<exists>br2. emptied n (p_dev p) br br2
        \<and> br1\<lparr>b_port_list := filter (\<lambda>q. p_port_no q \<noteq> n) (b_port_list br1)\<rparr>
          = br2\<lparr>b_port_list := filter (\<lambda>q. p_port_no q \<noteq> n) (b_port_list br2)\<rparr>"]
    by auto
qed

lemma del_nbp_runs:
  assumes wf: "if_wf br" and p: "br_get_port br n = Some p"
    and g: "dev_path_refcount (p_dev p) = 0 \<or> no_group_on n br"
  shows "runs (del_nbp env n br) (removed n (p_dev p) br)"
  by (rule runs_mono [OF del_nbp_steps [OF wf p]]) (use unlink_wf no_group_on_flushed [OF p g] in blast)

lemma removed_out [simp]: "removed n dev (br\<lparr>b_out := fx\<rparr>) br' = removed n dev br br'"
proof -
  have "fdb_lookup (br\<lparr>b_out := fx\<rparr>) = fdb_lookup br" by (rule fdb_lookup_cong) simp_all
  moreover have "mc_flushed dev (br\<lparr>b_out := fx\<rparr>) = mc_flushed dev br" by (rule mc_flushed_cong) (simp_all add: port_nos_def)
  moreover have "port_deleted n 1 (br\<lparr>b_out := fx\<rparr>) = port_deleted n 1 br" by (rule port_deleted_cong) (simp_all add: port_nos_def)
  ultimately show ?thesis by (simp add: removed_def port_nos_def)
qed

lemma port_by_ifindex_deref:
  assumes "distinct (port_nos br)" "port_by_ifindex i br = Some p"
  shows "br_get_port br (p_port_no p) = Some p"
  using br_get_port_eq_iff [OF assms(1)] port_by_ifindex_SomeD [OF assms(2)] by simp

lemma br_del_if_runs:
  assumes wf: "if_wf br"
    and g: "\<And>p. port_by_ifindex (dev_ifindex dev) br = Some p \<Longrightarrow> dev_path_refcount (p_dev p) = 0 \<or> no_group_on (p_port_no p) br"
  shows "runs (br_del_if env dev br) (\<lambda>(r, br'). case port_by_ifindex (dev_ifindex dev) br of
      None \<Rightarrow> r = Some EINVAL \<and> br' = br
    | Some p \<Rightarrow> r = None \<and> (\<exists>br1. removed (p_port_no p) (p_dev p) br br1 \<and> same_tables br1 br'))"
proof (cases "port_by_ifindex (dev_ifindex dev) br")
  case (Some p)
  let ?br = "br\<lparr>b_out := b_out br @ flow_paths_deleted dev br\<rparr>"
  have "br_get_port br (p_port_no p) = Some p"
    using port_by_ifindex_deref [OF _ Some] wf by (simp add: if_wf_def br_wf_def stp_wf_def)
  then have p: "br_get_port ?br (p_port_no p) = Some p" by (simp add: br_get_port_def)
  have "runs (del_nbp env (p_port_no p) ?br) (removed (p_port_no p) (p_dev p) ?br)"
    by (rule del_nbp_runs [OF _ p]) (use wf g [OF Some] in \<open>simp_all add: no_group_on_def\<close>)
  then have d: "runs (del_nbp env (p_port_no p) ?br) (removed (p_port_no p) (p_dev p) br)" unfolding removed_out .
  show ?thesis
    unfolding br_del_if_def Some option.case runs_bind
  proof (rule runs_mono [OF d])
    fix br1 assume r: "removed (p_port_no p) (p_dev p) br br1"
    then have "same_tables br1 br1" by (simp add: same_tables_refl removed_def)
    then show "runs (br_stp_recalculate_bridge_id br1) (\<lambda>a. runs (case a of (changed, br) \<Rightarrow>
        Some (None, if changed then emit (Call_netdevice_changeaddr (dev_ifindex (b_dev br))) br else br))
      (\<lambda>(r, br'). r = None \<and> (\<exists>br1. removed (p_port_no p) (p_dev p) br br1 \<and> same_tables br1 br')))"
      by (rule runs_mono [OF recalculate_same]) (use r in auto)
  qed
qed (simp add: br_del_if_def)

text \<open>Deleting the bridge: nothing is left but the entries that belong to no port.\<close>

definition portless :: "net_bridge \<Rightarrow> mac_addr \<Rightarrow> net_bridge_fdb_entry option" where
  "portless br a = (case fdb_lookup br a of Some f \<Rightarrow> if f_dst f = None then Some f else None | None \<Rightarrow> None)"

lemma portless_removed: "removed n dev br br' \<Longrightarrow> portless br' = portless br"
  by (rule ext) (auto simp: removed_def portless_def port_deleted_def split: option.splits bind_splits if_splits)

lemma filter_not_in_Cons: "filter (\<lambda>m. m \<notin> set (pre @ [x])) xs = filter (\<lambda>m. m \<noteq> x) (filter (\<lambda>m. m \<notin> set pre) xs)"
  by (induction xs) auto

lemma del_all_ports_runs:
  assumes wf: "if_wf br" and leaf: "\<forall>p \<in> set (b_port_list br). dev_path_refcount (p_dev p) = 0"
  shows "runs (for_each (del_nbp env) (port_nos br) br) (\<lambda>br'. if_wf br' \<and> b_port_list br' = [] \<and> portless br' = portless br)"
proof -
  let ?I = "\<lambda>pre s. if_wf s \<and> port_nos s = filter (\<lambda>m. m \<notin> set pre) (port_nos br)
    \<and> (\<forall>d \<in> set (map p_dev (b_port_list s)). dev_path_refcount d = 0) \<and> portless s = portless br"
  have "runs (for_each (del_nbp env) (port_nos br) br) (?I (port_nos br))"
  proof (rule for_each_prefix [where I = ?I])
    fix pre n post s
    assume b: "port_nos br = pre @ n # post" and I: "?I pre s"
    have "distinct (port_nos br)" using wf by (simp add: if_wf_def br_wf_def stp_wf_def)
    then have "n \<notin> set pre" unfolding b by simp
    then have "n \<in> set (port_nos s)" using I by (simp add: b)
    then obtain p where p: "br_get_port s n = Some p" using br_get_port_ex by blast
    have l: "dev_path_refcount (p_dev p) = 0" using I br_get_port_SomeD [OF p] by auto
    show "runs (del_nbp env n s) (?I (pre @ [n]))"
    proof (rule runs_mono [OF del_nbp_runs [OF _ p]])
      show "if_wf s" "dev_path_refcount (p_dev p) = 0 \<or> no_group_on n s" using I l by simp_all
      fix s' assume r: "removed n (p_dev p) s s'"
      then show "?I (pre @ [n]) s'"
        using I portless_removed [OF r] unfolding filter_not_in_Cons removed_def by auto
    qed
  qed (use wf leaf in simp)
  then show ?thesis by (rule runs_mono) (simp add: port_nos_def)
qed

lemma br_dev_delete_runs:
  assumes wf: "if_wf br" and leaf: "\<forall>p \<in> set (b_port_list br). dev_path_refcount (p_dev p) = 0"
  shows "runs (br_dev_delete env br) (\<lambda>br'. if_wf br' \<and> b_port_list br' = [] \<and> fdb_lookup br' = portless br
    \<and> (\<forall>i. b_mc_hash br' i = []) \<and> b_igmp_timer br' = None \<and> b_gc_timer br' = None)"
proof -
  have all: "fdb_lookup s = portless s" if "if_wf s" "b_port_list s = []" for s
  proof
    fix a
    show "fdb_lookup s a = portless s a"
      using that fdb_wf_map(2) [of s a]
      by (auto simp: if_wf_def br_wf_def portless_def entry_ok_def port_nos_def split: option.splits)
  qed
  show ?thesis
    unfolding br_dev_delete_def runs_bind
  proof (rule runs_mono [OF del_all_ports_runs [OF wf leaf]], elim conjE)
    fix s assume s: "if_wf s" "b_port_list s = []" "portless s = portless br"
    then have "mc_wf s" by (simp add: if_wf_def br_wf_def)
    then show "runs (br_igmp_mc_fdb_cleanup s) (\<lambda>a. runs (Some (emit (Unregister_netdevice (dev_ifindex (b_dev a)))
        (a\<lparr>b_igmp_timer := del_timer (b_igmp_timer a), b_gc_timer := del_timer (b_gc_timer a)\<rparr>)))
      (\<lambda>br'. if_wf br' \<and> b_port_list br' = [] \<and> fdb_lookup br' = portless br
    \<and> (\<forall>i. b_mc_hash br' i = []) \<and> b_igmp_timer br' = None \<and> b_gc_timer br' = None))"
    proof (rule runs_mono [OF br_igmp_mc_fdb_cleanup_kept], elim conjE)
      fix s' assume k: "mc_kept s s'" "\<forall>i. b_mc_hash s' i = []"
      let ?s = "emit (Unregister_netdevice (dev_ifindex (b_dev s')))
        (s'\<lparr>b_igmp_timer := del_timer (b_igmp_timer s'), b_gc_timer := del_timer (b_gc_timer s')\<rparr>)"
      have c: "mc_core s' = mc_core s" using k by (simp add: mc_kept_def)
      have "fdb_lookup ?s = fdb_lookup s'" by (rule fdb_lookup_cong) simp_all
      then show "runs (Some ?s) (\<lambda>br'. if_wf br' \<and> b_port_list br' = [] \<and> fdb_lookup br' = portless br
          \<and> (\<forall>i. b_mc_hash br' i = []) \<and> b_igmp_timer br' = None \<and> b_gc_timer br' = None)"
        using s all [OF s(1,2)] if_wf_mc [OF s(1) k(1)] mc_core_eqD(1) [OF c] mc_core_fdb_wf(2) [OF c] k(2)
        by (simp add: del_timer_def) (simp add: emit_def)
    qed
  qed
qed

section \<open>Events and the bridge device\<close>

lemma device_changed_simps [simp]:
  "port_nos (device_changed dev br) = port_nos br" "if_idxs (device_changed dev br) = if_idxs br"
  "b_mc_hash (device_changed dev br) = b_mc_hash br"
  by (simp_all add: device_changed_def port_nos_def if_idxs_def comp_def)

lemma device_changed_wf [simp]: "if_wf (device_changed dev br) = if_wf br"
proof -
  have "br_wf (device_changed dev br) = br_wf br"
    by (rule br_wf_cong) (simp, simp_all add: device_changed_def)
  then show ?thesis by (simp add: if_wf_def)
qed

lemma find_map_device:
  "find (\<lambda>p. dev_ifindex (p_dev p) = i)
     (map (\<lambda>p. if dev_ifindex (p_dev p) = dev_ifindex dev then p\<lparr>p_dev := dev\<rparr> else p) ps)
   = map_option (\<lambda>p. if dev_ifindex (p_dev p) = dev_ifindex dev then p\<lparr>p_dev := dev\<rparr> else p)
       (find (\<lambda>p. dev_ifindex (p_dev p) = i) ps)"
  by (induction ps) auto

lemma port_by_ifindex_changed:
  "port_by_ifindex (dev_ifindex dev) (device_changed dev br)
     = map_option (\<lambda>p. p\<lparr>p_dev := dev\<rparr>) (port_by_ifindex (dev_ifindex dev) br)"
  using port_by_ifindex_SomeD [of "dev_ifindex dev" br]
  by (cases "port_by_ifindex (dev_ifindex dev) br")
    (auto simp: port_by_ifindex_def device_changed_def find_map_device)

lemma path_cost_same:
  assumes "if_wf br"
  shows "same_tables br (upd_port n (\<lambda>p. p\<lparr>p_path_cost := c\<rparr>) br)"
  using same_tables_stp_kept [OF assms stp_kept_upd_port] assms by (simp add: if_wf_def)

lemma disable_port_wf:
  assumes "if_wf br" "n \<in> set (port_nos br)"
  shows "runs (br_stp_disable_port env n br) if_wf"
proof -
  obtain p where p: "br_get_port br n = Some p" using br_get_port_ex [OF assms(2)] by blast
  show ?thesis
    by (rule runs_mono [OF br_stp_disable_port_runs [OF _ p]]) (use assms(1) if_wf_off [OF assms(1)] in \<open>auto simp: if_wf_def\<close>)
qed

lemma enable_port_wf: "if_wf br \<Longrightarrow> runs (br_stp_enable_port n br) if_wf"
  by (rule runs_mono [OF enable_port_same [OF same_tables_refl]]) (simp_all add: same_tables_def)

lemma recalculate_wf: "if_wf br \<Longrightarrow> runs (br_stp_recalculate_bridge_id br) (\<lambda>(changed, br'). if_wf br')"
  by (rule runs_mono [OF recalculate_same [OF same_tables_refl]]) (auto simp: same_tables_def)

lemma br_port_carrier_check_wf:
  assumes wf: "if_wf br" and n: "n \<in> set (port_nos br)"
  shows "runs (br_port_carrier_check env n br) if_wf"
proof -
  obtain p where p: "br_get_port br n = Some p" using br_get_port_ex [OF n] by blast
  have c: "if_wf (upd_port n (\<lambda>p. p\<lparr>p_path_cost := c\<rparr>) br)" for c
    using path_cost_same [OF wf] by (simp add: same_tables_def)
  have "n \<in> set (port_nos (upd_port n (\<lambda>p. p\<lparr>p_path_cost := c\<rparr>) br))" for c using n by simp
  then show ?thesis
    using p wf c enable_port_wf [OF c] enable_port_wf [OF wf] disable_port_wf [OF c] disable_port_wf [OF wf n]
    by (simp add: br_port_carrier_check_def Let_def)
qed

lemma br_fdb_changeaddr_if_wf:
  assumes wf: "if_wf br" and n: "n \<in> set (port_nos br)"
  shows "runs (br_fdb_changeaddr env n a br) if_wf"
proof -
  have "fdb_wf br" using wf by (simp add: if_wf_def br_wf_def)
  then show ?thesis by (rule runs_mono [OF br_fdb_changeaddr_wf [OF _ n]]) (simp add: if_wf_fdb [OF wf])
qed

lemma br_del_if_wf:
  assumes wf: "if_wf br"
    and g: "\<And>p. port_by_ifindex (dev_ifindex dev) br = Some p \<Longrightarrow> dev_path_refcount (p_dev p) = 0 \<or> no_group_on (p_port_no p) br"
  shows "runs (br_del_if env dev br) (\<lambda>(r, br'). if_wf br')"
  by (rule runs_mono [OF br_del_if_runs [OF wf g]]) (use wf in \<open>auto simp: same_tables_def split: option.splits\<close>)

lemma port_event_wf:
  assumes wf: "if_wf br" and n: "n \<in> set (port_nos br)"
    and g: "\<And>p. event = NETDEV_UNREGISTER \<Longrightarrow> port_by_ifindex (dev_ifindex dev) br = Some p
      \<Longrightarrow> dev_path_refcount (p_dev p) = 0 \<or> no_group_on (p_port_no p) br"
  shows "runs (port_event env event dev n br) (\<lambda>(r, br'). if_wf br')"
proof -
  have addr: "runs (Option.bind (br_fdb_changeaddr env n (dev_addr dev) br) (\<lambda>br.
      Option.bind (br_stp_recalculate_bridge_id br) (\<lambda>(changed, br). Some (NOTIFY_DONE,
        if changed then emit (Call_netdevice_changeaddr (dev_ifindex (b_dev br))) br else br))))
      (\<lambda>(r, br'). if_wf br')"
    unfolding runs_bind
    by (rule runs_mono [OF br_fdb_changeaddr_if_wf [OF wf n]], rule runs_mono [OF recalculate_wf]) auto
  have unreg: "runs (br_del_if env dev br) (\<lambda>(r, br'). if_wf br')" if "event = NETDEV_UNREGISTER"
    by (rule br_del_if_wf [OF wf g [OF that]])
  show ?thesis
    using wf addr br_port_carrier_check_wf [OF wf n, where env = env] disable_port_wf [OF wf n, where env = env]
      enable_port_wf [OF wf, of n] unreg
    by (cases event) (auto simp: port_event_def elim!: runs_mono)
qed

lemma br_device_event_wf:
  assumes wf: "if_wf br"
    and g: "event = NETDEV_UNREGISTER \<Longrightarrow> dev_path_refcount dev = 0
      \<or> (\<forall>p. port_by_ifindex (dev_ifindex dev) br = Some p \<longrightarrow> no_group_on (p_port_no p) br)"
  shows "runs (br_device_event env event dev br) (\<lambda>(r, br'). if_wf br')"
proof -
  let ?br = "device_changed dev br"
  have mc: "mc_wf ?br" "if_wf ?br" using wf device_changed_wf [of dev br] unfolding if_wf_def br_wf_def by simp_all
  have ev: "runs (if event \<in> {NETDEV_DOWN, NETDEV_GOING_DOWN, NETDEV_CHANGE}
      then br_mcast_handle_netdevice_events env dev ?br else Some ?br)
      (\<lambda>s. if_wf s \<and> port_nos s = port_nos br \<and> (event = NETDEV_UNREGISTER \<longrightarrow> s = ?br))"
    using mc runs_mono [OF br_mcast_handle_netdevice_events_kept [OF mc(1)], of "\<lambda>s. if_wf s \<and> port_nos s = port_nos br"]
      if_wf_mc [OF mc(2)] mc_core_derived(1) [of _ ?br]
    by (auto simp: mc_kept_def)
  have pe: "runs (port_event env event dev (p_port_no p) s) (\<lambda>(r, br'). if_wf br')"
    if s: "if_wf s" "port_nos s = port_nos br" "event = NETDEV_UNREGISTER \<longrightarrow> s = ?br"
      and p: "port_by_ifindex (dev_ifindex dev) s = Some p" for s p
  proof (rule port_event_wf [OF s(1)])
    show "p_port_no p \<in> set (port_nos s)" by (rule port_by_ifindex_nos [OF p])
    fix q assume u: "event = NETDEV_UNREGISTER" "port_by_ifindex (dev_ifindex dev) s = Some q"
    then show "dev_path_refcount (p_dev q) = 0 \<or> no_group_on (p_port_no q) s"
      using g [OF u(1)] s(3) by (auto simp: port_by_ifindex_changed no_group_on_def)
  qed
  show ?thesis
    unfolding br_device_event_def Let_def runs_bind
    by (rule runs_mono [OF ev]) (auto split: option.split intro!: runs_mono [OF pe])
qed

lemma br_set_mac_address_wf:
  assumes wf: "if_wf br" and a: "\<forall>f. fdb_lookup br addr = Some f \<longrightarrow> f_is_local f"
  shows "runs (br_set_mac_address env addr br) (\<lambda>(r, br'). if_wf br')"
proof -
  let ?br = "br\<lparr>b_dev := (b_dev br)\<lparr>dev_addr := addr\<rparr>\<rparr>"
  have wf0: "if_wf ?br" using wf by simp
  then have f: "fdb_wf ?br" unfolding if_wf_def br_wf_def by simp
  have l: "fdb_lookup ?br = fdb_lookup br" by (rule fdb_lookup_cong) simp_all
  have "runs (br_fdb_change_mac_address env addr ?br) if_wf"
    by (rule runs_mono [OF br_fdb_change_mac_address_wf [OF f]]) (use a l if_wf_fdb [OF wf0] in auto)
  moreover have "runs (br_stp_change_bridge_id addr s) if_wf" if "if_wf s" for s
    using that if_wf_stp_kept [OF that] by (intro runs_mono [OF br_stp_change_bridge_id_kept]) (auto simp: if_wf_def)
  ultimately have "runs (Option.bind (br_fdb_change_mac_address env addr ?br) (br_stp_change_bridge_id addr)) if_wf"
    unfolding runs_bind by (rule runs_mono)
  then show ?thesis using wf by (simp add: br_set_mac_address_def)
qed

lemma br_dev_open_wf:
  assumes "if_wf br"
  shows "runs (br_dev_open br) if_wf"
proof -
  have "br_wf br" using assms by (simp add: if_wf_def)
  then show ?thesis
    unfolding br_dev_open_def by (rule runs_mono [OF br_stp_enable_bridge_kept]) (rule if_wf_stp_kept [OF assms])
qed

lemma br_dev_stop_wf:
  assumes "if_wf br"
  shows "runs (br_dev_stop env br) if_wf"
proof -
  have "br_wf br" using assms by (simp add: if_wf_def)
  then show ?thesis
    unfolding br_dev_stop_def
    by (rule runs_mono [OF br_stp_disable_bridge_wf]) (elim conjE, rule if_wf_cong [OF _ _ if_idxs_dev assms])
qed

lemma br_dev_setup_wf: "if_wf (br_dev_setup i name a j fs ms)"
proof -
  let ?br = "br_dev_setup i name a j fs ms"
  have e: "b_hash ?br = (\<lambda>_. [])" "b_mc_hash ?br = (\<lambda>_. [])" "port_nos ?br = []" "if_idxs ?br = []" "b_num_fdb_entries ?br = 0"
    by (simp_all add: br_dev_setup_def Let_def port_nos_def if_idxs_def)
  have "all_entries ?br = []" by (simp add: all_entries_def e)
  then have t: "fdb_table ?br" by (simp add: fdb_table_def e)
  have l: "fdb_lookup ?br b = None" for b by (simp add: fdb_lookup_def fdb_find_def e)
  have "stp_wf ?br" unfolding stp_wf_def e by (simp add: br_dev_setup_def Let_def)
  moreover have "rate_wf ?br" by (simp add: rate_wf_def br_dev_setup_def Let_def)
  ultimately show ?thesis using t l by (simp add: if_wf_def br_wf_def fdb_wf_def mc_wf_def e BR_MAX_FDB_ENTRIES_def)
qed

end
