(* ===== verification/Bridge_If_Props.thy ===== *)
theory Bridge_If_Props
  imports Bridge_If_Inv
begin

text \<open>
  What the administration of ports and of the bridge device promises: the outcome of adding a port
  and of removing one, what is left when the bridge is deleted, and two places where the code
  leaves something behind.
\<close>

section \<open>Adding a port\<close>

lemma free_portno_iff:
  assumes "if_wf br"
  shows "(\<exists>i. free_portno br i) \<longleftrightarrow> length (b_port_list br) < 1023"
proof -
  let ?N = "unat ` set (port_nos br)"
  have d: "distinct (port_nos br)" "0 \<notin> set (port_nos br)" and b: "\<forall>n \<in> set (port_nos br). unat n < BR_MAX_PORTS"
    using assms by (simp_all add: if_wf_def br_wf_def stp_wf_def)
  have "0 \<notin> ?N" using d(2) by (auto simp: unat_eq_0)
  have sub: "?N \<subseteq> {1..<BR_MAX_PORTS}"
  proof
    fix i assume "i \<in> ?N"
    moreover from this have "i \<noteq> 0" using \<open>0 \<notin> ?N\<close> by metis
    ultimately show "i \<in> {1..<BR_MAX_PORTS}" using b by auto
  qed
  have "inj_on unat (set (port_nos br))" by (rule inj_onI) (simp add: word_unat_eq_iff)
  then have card: "card ?N = length (b_port_list br)"
    using d(1) by (simp add: card_image distinct_card) (simp add: port_nos_def)
  have "free_portno br i \<longleftrightarrow> i \<in> {1..<BR_MAX_PORTS} - ?N" for i
    using of_nat_portno_iff [of i "port_nos br"] by (auto simp: free_portno_def)
  then have "(\<exists>i. free_portno br i) \<longleftrightarrow> ?N \<noteq> {1..<BR_MAX_PORTS}" using sub by blast
  also have "\<dots> \<longleftrightarrow> card ?N \<noteq> card {1..<BR_MAX_PORTS}" using card_subset_eq [OF _ sub] by auto
  also have "\<dots> \<longleftrightarrow> card ?N < card {1..<BR_MAX_PORTS}" using card_mono [OF _ sub] by auto
  finally show ?thesis using card by (simp add: BR_MAX_PORTS_def)
qed

lemma spec_insert_local:
  assumes "is_valid_ether_addr a" "env_alloc env" "fdb_wf br" "b_num_fdb_entries br < BR_MAX_FDB_ENTRIES"
  shows "\<exists>f. snd (spec_insert env s a br (fdb_lookup br)) a = Some f \<and> f_is_local f"
proof -
  have "card (dom (fdb_lookup br) - {a}) \<le> card (dom (fdb_lookup br))"
    using fdb_wf_map(1) [OF assms(3)] by (intro card_mono) auto
  moreover have "int (card (dom (fdb_lookup br))) < BR_MAX_FDB_ENTRIES"
    using assms(3,4) fdb.count_card [of br] by (simp add: fdb_wf_def)
  ultimately have "int (card (dom ((fdb_lookup br)(a := None)))) < BR_MAX_FDB_ENTRIES" by simp
  then show ?thesis
    using assms(1,2) by (auto simp: spec_insert_def can_create_def Let_def split: option.splits)
qed

text \<open>C34: Adding a port either does nothing or gives the bridge one good port more. On a bridge in a
  consistent state \<open>br_add_if\<close> never faults. It succeeds exactly when the device may be bridged, the
  kernel attaches it and the bridge has less than 1023 ports; then the new port has the least free
  number, the bridge is consistent again and, unless the database is full or out of memory, the
  device's address is a local entry. Otherwise it returns an error and neither
  ports nor tables change.\<close>

theorem br_add_if_outcome:
  assumes wf: "if_wf br"
    and flag: "dev_ifindex dev \<in> set (if_idxs br) \<Longrightarrow> and (dev_priv_flags dev) IFF_BRIDGE_PORT \<noteq> 0"
  shows "runs (br_add_if env dev br) (\<lambda>(r, br').
    if_wf br' \<and> b_mc_hash br' = b_mc_hash br \<and>
    (if add_checks dev = None \<and> env_portno_alloc env \<and> env_port_alloc env \<and> attach_error env = None
        \<and> length (b_port_list br) < 1023
     then r = None
        \<and> (\<exists>i. 0 < i \<and> i < 1024 \<and> of_nat i \<notin> set (port_nos br) \<and> (\<forall>j. 0 < j \<and> j < i \<longrightarrow> of_nat j \<in> set (port_nos br))
             \<and> port_nos br' = of_nat i # port_nos br)
        \<and> (env_alloc env \<and> b_num_fdb_entries br < BR_MAX_FDB_ENTRIES
             \<longrightarrow> (\<exists>f. fdb_lookup br' (dev_addr dev) = Some f \<and> f_is_local f))
     else r \<noteq> None \<and> b_port_list br' = b_port_list br \<and> fdb_lookup br' = fdb_lookup br))"
proof -
  have f: "fdb_wf br" using wf by (simp add: if_wf_def br_wf_def)
  have v: "is_valid_ether_addr (dev_addr dev)" if "add_checks dev = None"
    using that by (simp add: add_checks_def split: if_splits)
  show ?thesis
  proof (rule runs_mono [OF br_add_if_runs [OF wf flag]], goal_cases)
    case 1
    then show ?case .
  next
    case (2 x)
    obtain r br' where x: "x = (r, br')" by fastforce
    note a = 2 [unfolded x prod.case]
    let ?ok = "add_checks dev = None \<and> env_portno_alloc env \<and> env_port_alloc env \<and> attach_error env = None"
    show ?case
    proof (cases "?ok \<and> (\<exists>i. free_portno br i)")
      case True
      then obtain i where i: "free_portno br i" "\<forall>j < i. \<not> free_portno br j" "joined env (of_nat i) dev br br'" "r = None"
        using a by auto
      have "of_nat j \<in> set (port_nos br)" if "0 < j" "j < i" for j
        using i(1,2) that by (auto simp: free_portno_def)
      then show ?thesis
        using True i spec_insert_local [OF v _ f] free_portno_iff [OF wf]
        by (auto simp: x joined_def free_portno_def [of br i] BR_MAX_PORTS_def)
    next
      case False
      then show ?thesis using a free_portno_iff [OF wf] by (auto simp: x same_tables_def)
    qed
  qed
qed

definition example_new_bridge :: net_bridge where
  "example_new_bridge = br_dev_setup 9 ''br0'' (Mac 2 0 0 0 0 9) 0 1 2"

lemma example_new_bridge_wf: "if_wf example_new_bridge"
  by (simp add: example_new_bridge_def br_dev_setup_wf)

theorem br_add_if_outcome_witness:
  "runs (br_add_if example_env (example_dev 1) example_new_bridge) (\<lambda>(r, br'). r = None \<and> port_nos br' = [1]
     \<and> (\<exists>f. fdb_lookup br' (Mac 0 0x10 0x20 0x30 0x40 1) = Some f \<and> f_is_local f))"
proof -
  have e: "port_nos example_new_bridge = []" "b_port_list example_new_bridge = []" "b_num_fdb_entries example_new_bridge = 0"
    "if_idxs example_new_bridge = []"
    by (simp_all add: example_new_bridge_def br_dev_setup_def port_nos_def if_idxs_def Let_def)
  have c: "add_checks (example_dev 1) = None" "attach_error example_env = None"
    "env_portno_alloc example_env" "env_port_alloc example_env" "env_alloc example_env"
    "dev_addr (example_dev 1) = Mac 0 0x10 0x20 0x30 0x40 1"
    by code_simp+
  have one: "of_nat i = (1 :: u16)" if "0 < i" "\<forall>j. j = 0 \<or> \<not> j < i" for i
  proof -
    have "\<not> 1 < i" using that(2) by (metis zero_neq_one)
    then have "i = 1" using that(1) by simp
    then show ?thesis by simp
  qed
  show ?thesis
    by (rule runs_mono [OF br_add_if_outcome [OF example_new_bridge_wf]])
      (auto simp: e c one BR_MAX_FDB_ENTRIES_def)
qed

section \<open>Removing a port\<close>

lemma removed_entries:
  assumes "removed n dev br br'"
  shows "fdb_lookup br' a = Some f \<Longrightarrow> f_dst f \<noteq> Some n"
    and "fdb_lookup br a = Some f \<Longrightarrow> f_dst f \<noteq> Some n \<Longrightarrow> fdb_lookup br' a = Some f"
    and "other_port_with n a br = Some q \<Longrightarrow> fdb_lookup br a = Some f \<Longrightarrow> f_dst f = Some n \<Longrightarrow> f_is_local f
      \<Longrightarrow> fdb_lookup br' a = Some (f\<lparr>f_dst := Some (p_port_no q)\<rparr>)"
proof -
  have l: "fdb_lookup br' a = Option.bind (fdb_lookup br a) (port_deleted n 1 br)" using assms by (simp add: removed_def)
  show "fdb_lookup br' a = Some f \<Longrightarrow> f_dst f \<noteq> Some n"
    using port_deleted_dst [of n br _ f] by (auto simp: l bind_eq_Some_conv)
  show "fdb_lookup br a = Some f \<Longrightarrow> f_dst f \<noteq> Some n \<Longrightarrow> fdb_lookup br' a = Some f"
    by (simp add: l port_deleted_def)
  show "other_port_with n a br = Some q \<Longrightarrow> fdb_lookup br a = Some f \<Longrightarrow> f_dst f = Some n \<Longrightarrow> f_is_local f
      \<Longrightarrow> fdb_lookup br' a = Some (f\<lparr>f_dst := Some (p_port_no q)\<rparr>)"
    using fdb_lookup_addr [of br a f] by (simp add: l port_deleted_def)
qed


lemma example_if_wf [simp]: "if_wf example_forwarding"
proof -
  have "if_idxs example_forwarding = [2, 1]" by code_simp
  then show ?thesis by (simp add: if_wf_def BR_MAX_PORTS_def)
qed


section \<open>A port with a device stacked on it\<close>

lemma for_each_faults:
  assumes "x \<in> set xs" "I s" "\<And>y s s'. y \<noteq> x \<Longrightarrow> I s \<Longrightarrow> f y s = Some s' \<Longrightarrow> I s'" "\<And>s. I s \<Longrightarrow> f x s = None"
  shows "for_each f xs s = None"
  using assms(1,2)
proof (induction xs arbitrary: s)
  case (Cons y ys)
  show ?case
  proof (cases "y = x \<or> f y s = None")
    case True
    then show ?thesis using assms(4) [OF Cons.prems(2)] by auto
  next
    case False
    then obtain s' where "f y s = Some s'" by auto
    with False Cons assms(3) [of y s s'] show ?thesis by simp
  qed
qed simp

lemma mc_sweep_faults:
  assumes e: "e \<in> set (b_mc_hash br i)" and f: "f e = None"
  shows "mc_sweep f br = None"
proof -
  have l: "mc_sweep_list f es = None" if "e \<in> set es" for es
    using that f by (induction es) (auto split: bind_splits)
  show ?thesis
    unfolding mc_sweep_def
  proof (rule for_each_faults [where x = i and I = "\<lambda>s. e \<in> set (b_mc_hash s i)"])
    show "i \<in> set buckets" by (simp add: set_buckets)
    show "mc_sweep_bucket f i s = None" if "e \<in> set (b_mc_hash s i)" for s
      using l [OF that] by (simp add: mc_sweep_bucket_def)
    show "e \<in> set (b_mc_hash s' i)" if "y \<noteq> i" "e \<in> set (b_mc_hash s i)" "mc_sweep_bucket f y s = Some s'" for y s s'
      using that by (auto simp: mc_sweep_bucket_def Let_def split: bind_splits prod.splits)
  qed (rule e)
qed

lemma recalculate_frame:
  assumes d: "distinct (port_nos br)" "0 \<notin> set (port_nos br)"
  shows "runs (br_stp_recalculate_bridge_id br) (\<lambda>(changed, br'). stp_frame br br')"
proof -
  have "runs (br_stp_change_bridge_id a br) (stp_frame br)" for a
  proof -
    have f: "stp_frame br (changed_addr a br)" by (rule changed_addr_frame)
    have "runs (reselect w (changed_addr a br)) (\<lambda>br'. stp_wf br' \<and> selected (changed_addr a br) br')" for w
      by (rule reselect_runs') (use d stp_frameD(4) [OF f] in simp_all)
    then show ?thesis
      unfolding br_stp_change_bridge_id_def
      by (rule runs_mono) (use stp_frame_trans [OF f stp_frame_selected] in blast)
  qed
  then show ?thesis by (simp add: br_stp_recalculate_bridge_id_def Let_def)
qed

text \<open>A group whose port is gone makes the next removal follow a stale pointer.\<close>

lemma dangling_faults:
  assumes e: "e \<in> set (b_mc_hash br i)" "mc_dst e \<notin> set (port_nos br)" and f: "fdb_wf br"
    and q: "br_get_port br m = Some q" and leaf: "dev_path_refcount (p_dev q) = 0"
  shows "br_stp_disable_port env m br = None"
proof -
  let ?b1 = "br_become_designated_port m br"
  have "stp_frame br ?b1" unfolding br_become_designated_port_def by (rule stp_frame_upd_port) simp
  moreover have "bridge_core (port_off m br) = bridge_core ?b1" by (simp add: port_off_def Let_def)
  ultimately have fr: "stp_frame br (port_off m br)" using stp_frame_trans [OF _ stp_frame_core] by blast
  have "fdb_wf (port_off m br)" using f stp_frame_wf [OF fr] by simp
  then have "runs (br_fdb_delete_by_port env m 0 (port_off m br)) (\<lambda>s. fdb_core s = fdb_core (port_off m br))"
    by (rule runs_mono [OF br_fdb_delete_by_port_runs]) (simp add: fdb_becomes_def)
  then obtain s where s: "br_fdb_delete_by_port env m 0 (port_off m br) = Some s" "fdb_core s = fdb_core (port_off m br)"
    by (auto simp: runs_iff_ex)
  have hash: "b_mc_hash s = b_mc_hash br" and nos: "port_nos s = port_nos br"
    using fdb_core_mc(1) [OF s(2)] fdb_core_eq_derived(2) [OF s(2)] stp_frameD(4,5) [OF fr] by simp_all
  have "bydev_action (p_dev q) True s e = None"
    using e(2) nos br_get_port_eq_None_iff [of s "mc_dst e"] by (simp add: bydev_action_def mc_bydev_def)
  then have "mc_sweep (bydev_action (p_dev q) True s) s = None"
    using mc_sweep_faults [of e s i] e(1) hash by simp
  then have "br_mcast_handle_netdevice_events env (p_dev q) s = None"
    using leaf by (simp add: br_mcast_handle_netdevice_events_def br_igmp_mc_fdb_update_bydev_def)
  then show ?thesis
    using q s(1) by (simp add: br_stp_disable_port_def port_off_def Let_def)
qed

lemma fdb_wf_emit [simp]: "fdb_wf (emit e br) = fdb_wf br"
  by (rule stp_frame_wf [OF stp_frame_core]) simp

lemma fdb_wf_out [simp]: "fdb_wf (br\<lparr>b_out := fx\<rparr>) = fdb_wf br"
  by (rule stp_frame_wf [OF stp_frame_core]) simp

lemma dangling_del_if_faults:
  assumes e: "e \<in> set (b_mc_hash br i)" "mc_dst e \<notin> set (port_nos br)" and f: "fdb_wf br" "distinct (port_nos br)"
    and q: "port_by_ifindex (dev_ifindex dev) br = Some q" and leaf: "dev_path_refcount (p_dev q) = 0"
  shows "br_del_if env dev br = None"
proof -
  let ?br = "br\<lparr>b_out := b_out br @ flow_paths_deleted dev br\<rparr>"
  let ?e = "emit (Set_promiscuity (dev_ifindex (p_dev q)) False) ?br"
  have q': "br_get_port ?br (p_port_no q) = Some q" using port_by_ifindex_deref [OF f(2) q] by (simp add: br_get_port_def)
  then have "br_stp_disable_port env (p_port_no q) ?e = None"
    by (intro dangling_faults [of e _ i]) (use e f leaf in \<open>simp_all add: port_nos_def\<close>)
  with q' show ?thesis by (simp add: br_del_if_def q del_nbp_def)
qed

lemma same_index:
  assumes "distinct (if_idxs br)" "p \<in> set (b_port_list br)" "q \<in> set (b_port_list br)"
    "dev_ifindex (p_dev p) = dev_ifindex (p_dev q)"
  shows "p = q"
  using assms inj_onD [of "dev_ifindex \<circ> p_dev" "set (b_port_list br)" p q] by (simp add: if_idxs_def distinct_map)

lemma removed_stacked:
  assumes wf: "if_wf br" and p: "port_by_ifindex (dev_ifindex dev) br = Some p"
    and stacked: "dev_path_refcount (p_dev p) \<noteq> 0"
  shows "runs (br_del_if env dev br) (\<lambda>(r, br'). r = None \<and> b_mc_hash br' = b_mc_hash br \<and> fdb_wf br'
    \<and> port_nos br' = filter (\<lambda>m. m \<noteq> p_port_no p) (port_nos br)
    \<and> map p_dev (b_port_list br') = map p_dev (filter (\<lambda>q. p_port_no q \<noteq> p_port_no p) (b_port_list br)))"
proof -
  let ?br = "br\<lparr>b_out := b_out br @ flow_paths_deleted dev br\<rparr>"
  have p': "br_get_port ?br (p_port_no p) = Some p"
    using port_by_ifindex_deref [OF _ p] wf by (simp add: if_wf_def br_wf_def stp_wf_def br_get_port_def)
  have wf': "if_wf ?br" using wf by simp
  show ?thesis
    unfolding br_del_if_def p option.case runs_bind
  proof (rule runs_mono [OF del_nbp_steps [OF wf' p']], goal_cases)
    case (1 s)
    then obtain br1 where e: "emptied (p_port_no p) (p_dev p) ?br br1"
      and s: "s = br1\<lparr>b_port_list := filter (\<lambda>q. p_port_no q \<noteq> p_port_no p) (b_port_list br1)\<rparr>" by blast
    note u = unlink_parts [OF e, folded s]
    have mc: "b_mc_hash s = b_mc_hash br" using u(6) stacked by (simp add: mc_flushed_def)
    have d: "distinct (port_nos s)" "0 \<notin> set (port_nos s)" using u(1) by (simp_all add: stp_wf_def)
    have nos: "port_nos ?br = port_nos br" by (simp add: port_nos_def)
    show ?case
    proof (rule runs_mono [OF recalculate_frame [OF d]], goal_cases)
      case (1 x)
      then obtain c b where x: "x = (c, b)" and fr: "stp_frame s b" by (cases x) simp
      show ?case
        using stp_frameD(4,5,7) [OF fr] stp_frame_wf [OF fr] mc u(2-4) nos by (simp add: x)
    qed
  qed
qed

text \<open>C36: Removing a port on which another device is stacked leaves its multicast groups behind with a
  pointer to the freed port. \<open>br_igmp_mc_fdb_update_bydev\<close> does nothing for such a device; the next
  removal of an ordinary port then reads the freed port when it walks the group table.\<close>

theorem removed_stacked_port_dangles:
  assumes wf: "if_wf br" and p: "port_by_ifindex (dev_ifindex dev) br = Some p"
    and stacked: "dev_path_refcount (p_dev p) \<noteq> 0"
    and e: "e \<in> set (b_mc_hash br i)" "mc_dst e = p_port_no p"
    and q: "port_by_ifindex (dev_ifindex dev2) br = Some q" "dev_path_refcount (p_dev q) = 0"
  shows "runs (br_del_if env dev br) (\<lambda>(r, br'). r = None \<and> e \<in> set (b_mc_hash br' i)
    \<and> mc_dst e \<notin> set (port_nos br') \<and> br_del_if env dev2 br' = None)"
proof (rule runs_mono [OF removed_stacked [OF wf p stacked]], clarify)
  fix br'
  assume 1: "b_mc_hash br' = b_mc_hash br" "fdb_wf br'" "port_nos br' = filter (\<lambda>m. m \<noteq> p_port_no p) (port_nos br)"
    "map p_dev (b_port_list br') = map p_dev (filter (\<lambda>q. p_port_no q \<noteq> p_port_no p) (b_port_list br))"
  have d: "distinct (port_nos br)" using wf by (simp add: if_wf_def br_wf_def stp_wf_def)
  have ne: "p_port_no q \<noteq> p_port_no p"
    using port_by_ifindex_deref [OF d p] port_by_ifindex_deref [OF d q(1)] stacked q(2) by auto
  have dangling: "e \<in> set (b_mc_hash br' i)" "mc_dst e \<notin> set (port_nos br')" using 1 e by auto
  have "p_dev q \<in> set (map p_dev (b_port_list br'))"
    unfolding 1(4) using port_by_ifindex_SomeD [OF q(1)] ne by auto
  then obtain q' where q': "port_by_ifindex (dev_ifindex dev2) br' = Some q'"
    using port_by_ifindex_SomeD [OF q(1)] find_None_iff [of "\<lambda>p. dev_ifindex (p_dev p) = dev_ifindex dev2" "b_port_list br'"]
    unfolding port_by_ifindex_def by (metis (mono_tags, lifting) imageE list.set_map option.exhaust)
  have "p_dev q' \<in> set (map p_dev (b_port_list br'))" using port_by_ifindex_SomeD [OF q'] by auto
  then obtain t where "t \<in> set (b_port_list br)" "p_dev t = p_dev q'" unfolding 1(4) by auto
  then have "p_dev q' = p_dev q"
    using same_index [of br t q] wf port_by_ifindex_SomeD [OF q(1)] port_by_ifindex_SomeD [OF q'] by (auto simp: if_wf_def)
  then have "br_del_if env dev2 br' = None"
    using dangling_del_if_faults [OF dangling 1(2) _ q'] d 1(3) q(2) by simp
  with dangling show "None = None \<and> e \<in> set (b_mc_hash br' i) \<and> mc_dst e \<notin> set (port_nos br') \<and> br_del_if env dev2 br' = None"
    by simp
qed

definition example_stacked :: net_bridge where
  "example_stacked = device_changed ((example_dev 1)\<lparr>dev_path_refcount := 1\<rparr>) (igmp_bridge [example_reporter 7 200000])"

lemma igmp_bridge_if_wf: "if_wf (igmp_bridge [example_reporter 7 200000])"
proof -
  let ?br = "igmp_bridge [example_reporter 7 200000]"
  have l: "fdb_lookup ?br = fdb_lookup example_forwarding" by (rule fdb_lookup_cong) (simp_all add: igmp_bridge_def)
  have t: "fdb_table ?br = fdb_table example_forwarding" by (rule fdb_table_cong) (simp_all add: igmp_bridge_def)
  have "fdb_wf ?br"
    using example_forwarding_simps(1) l t by (simp add: fdb_wf_def entry_ok_def) (simp add: igmp_bridge_def)
  moreover have "stp_wf ?br"
    using example_forwarding_simps(2) unfolding stp_wf_def igmp_bridge_simps(4) by (simp add: igmp_bridge_def)
  moreover have "if_idxs ?br = if_idxs example_forwarding" by (simp add: if_idxs_def igmp_bridge_def)
  moreover have "rate_wf ?br = rate_wf example_forwarding" by (rule rate_wf_cong) (simp_all add: igmp_bridge_def)
  ultimately show ?thesis using igmp_bridge_wf [of "[example_reporter 7 200000]"] example_if_wf by (simp add: if_wf_def br_wf_def)
qed

theorem removed_stacked_port_dangles_witness:
  "runs (br_del_if example_env (example_dev 1) example_stacked) (\<lambda>(r, br'). r = None
    \<and> mc_dst (example_group [example_reporter 7 200000]) \<notin> set (port_nos br') \<and> br_del_if example_env (example_dev 2) br' = None)"
proof -
  let ?p = "(example_port 1)\<lparr>p_state := BR_STATE_FORWARDING, p_dev := (example_dev 1)\<lparr>dev_path_refcount := 1\<rparr>\<rparr>"
  have l: "b_port_list example_stacked = [example_port 2, ?p]"
    by (simp add: example_stacked_def device_changed_def igmp_bridge_def example_forwarding_def upd_list_def
        example_bridge_def example_port_def example_dev_def)
  have p: "port_by_ifindex (dev_ifindex (example_dev 1)) example_stacked = Some ?p"
    and q: "port_by_ifindex (dev_ifindex (example_dev 2)) example_stacked = Some (example_port 2)"
    by (simp_all add: port_by_ifindex_def l example_port_def example_dev_def)
  have wf: "if_wf example_stacked" by (simp add: example_stacked_def igmp_bridge_if_wf)
  have e: "example_group [example_reporter 7 200000] \<in> set (b_mc_hash example_stacked (br_igmp_mc_fdb_hash example_forwarding 0x010101EF))"
    by (simp add: example_stacked_def)
  show ?thesis
    by (rule runs_mono [OF removed_stacked_port_dangles [OF wf p _ e _ q]])
      (auto simp: example_group_def new_mc_entry_def example_port_def example_dev_def)
qed

section \<open>Deleting the bridge\<close>



section \<open>Changing the address of the bridge\<close>

lemma fdb_insert_other:
  assumes "fdb_wf br" "s = None \<Longrightarrow> \<forall>f. fdb_lookup br a = Some f \<longrightarrow> f_is_local f" "\<And>n. s = Some n \<Longrightarrow> n \<in> set (port_nos br)" "b \<noteq> a"
  shows "runs (fdb_insert env s a br) (\<lambda>(r, br'). fdb_lookup br' b = fdb_lookup br b)"
  by (rule runs_mono [OF fdb_insert_runs [OF assms(1,3,2)]])
    (use assms(4) in \<open>auto simp: fdb_becomes_def spec_insert_def Let_def split: if_splits option.splits\<close>)

lemma change_mac_other:
  assumes wf: "fdb_wf br" and a: "dev_addr (b_dev br) = a" "\<forall>f. fdb_lookup br a = Some f \<longrightarrow> f_is_local f" and b: "b \<noteq> a"
  shows "runs (br_fdb_change_mac_address env a br) (\<lambda>br'. fdb_lookup br' b = fdb_lookup br b)"
proof -
  let ?Q = "\<lambda>s. fdb_wf s \<and> (\<forall>f. fdb_lookup s a = Some f \<longrightarrow> f_is_local f) \<and> fdb_lookup s b = fdb_lookup br b"
  have t: "fdb_table br" using wf by (simp add: fdb_wf_def)
  obtain g br1 where g: "br_fdb_get env a br = (g, br1)" by fastforce
  note bg = br_fdb_get_becomes [OF t, where env = env and a = a, unfolded g fst_conv snd_conv]
  have 1: "?Q br1"
    using br_fdb_get_wf(1) [OF wf, where env = env and a = a] fdb_becomes_core(3) [OF bg(2)] a(2) b g
    by (auto split: if_splits)
  have del: "runs (fdb_delete env h br1) ?Q" if h: "g = Some h" for h
  proof -
    have l: "fdb_lookup br1 (f_addr h) = Some h" "f_addr h = a"
      using h bg fdb_lookup_addr [of br a] by (auto simp: fdb_becomes_def bind_eq_Some_conv split: if_splits)
    have ok: "entry_ok br1 h" using fdb_wf_map(2) [OF _ l(1)] 1 by blast
    have t1: "fdb_table br1" using 1 by (simp add: fdb_wf_def)
    show ?thesis
      by (rule runs_mono [OF fdb_delete_runs [OF t1 _ ok]])
        (use 1 l b fdb_replace_wf [OF _ ok, of _ a] in \<open>auto simp: fdb_becomes_def\<close>)
  qed
  have ins: "runs (fdb_insert env None a s) (\<lambda>(r, br'). fdb_lookup br' b = fdb_lookup br b)" if "?Q s" for s
    using that b by (intro runs_mono [OF fdb_insert_other [of s None a b]]) auto
  have "runs (case g of None \<Rightarrow> Some br1 | Some f \<Rightarrow> if f_is_local f \<and> f_dst f = None then fdb_delete env f br1 else Some br1) ?Q"
    using 1 del by (simp split: option.split)
  then show ?thesis
    unfolding br_fdb_change_mac_address_def a(1) g Let_def prod.case runs_bind
    by (rule runs_mono) (rule runs_mono [OF ins], auto)
qed

text \<open>C38: The old address of the bridge stays local. \<open>br_set_mac_address\<close> stores the new address in the device
  before \<open>br_fdb_change_mac_address\<close> looks up the entry of the old one by that field; the entry of
  the old address is therefore not found, and the bridge keeps taking frames for it as its own.\<close>

theorem old_bridge_address_stays_local:
  assumes wf: "if_wf br" and f: "fdb_lookup br (dev_addr (b_dev br)) = Some f" "f_dst f = None" "f_is_local f"
    and a: "is_valid_ether_addr a" "a \<noteq> dev_addr (b_dev br)" "\<forall>f. fdb_lookup br a = Some f \<longrightarrow> f_is_local f"
  shows "runs (br_set_mac_address env a br) (\<lambda>(r, br'). r = None \<and> if_wf br' \<and> fdb_lookup br' (dev_addr (b_dev br)) = Some f)"
proof -
  let ?br = "br\<lparr>b_dev := (b_dev br)\<lparr>dev_addr := a\<rparr>\<rparr>" and ?old = "dev_addr (b_dev br)"
  let ?Q = "\<lambda>s. if_wf s \<and> fdb_lookup s ?old = Some f"
  have wf0: "if_wf ?br" using wf by simp
  then have fw: "fdb_wf ?br" unfolding if_wf_def br_wf_def by simp
  have l: "fdb_lookup ?br = fdb_lookup br" by (rule fdb_lookup_cong) simp_all
  have "runs (br_fdb_change_mac_address env a ?br) ?Q"
    using runs_conj [OF br_fdb_change_mac_address_wf [OF fw, of a env] change_mac_other [OF fw, of a ?old env]] a f if_wf_fdb [OF wf0]
    by (auto simp: l elim!: runs_mono)
  moreover have "runs (br_stp_change_bridge_id a s) ?Q" if s: "?Q s" for s
  proof (rule runs_mono [OF br_stp_change_bridge_id_kept], use s in \<open>simp add: if_wf_def\<close>, elim conjE)
    fix br' assume k: "stp_kept s br'"
    then have "fdb_lookup br' = fdb_lookup s" using stp_frame_lookup [of s br'] by (simp add: stp_kept_def)
    then show "?Q br'" using if_wf_stp_kept [OF _ k] s by simp
  qed
  ultimately have "runs (Option.bind (br_fdb_change_mac_address env a ?br) (br_stp_change_bridge_id a)) ?Q"
    unfolding runs_bind by (rule runs_mono)
  moreover have "fdb_lookup (s\<lparr>b_set_mac_addr := True\<rparr>) = fdb_lookup s" for s by (rule fdb_lookup_cong) simp_all
  ultimately show ?thesis using a by (simp add: br_set_mac_address_def)
qed

theorem old_bridge_address_stays_local_witness:
  "runs (br_set_mac_address example_env example_mac
       (fdb_link (new_entry example_forwarding None (dev_addr (b_dev example_forwarding)) True True) example_forwarding))
     (\<lambda>(r, br'). r = None \<and> (\<exists>f. fdb_lookup br' (dev_addr (b_dev example_forwarding)) = Some f \<and> f_is_local f))"
proof -
  let ?old = "dev_addr (b_dev example_forwarding)"
  let ?f = "new_entry example_forwarding None ?old True True"
  let ?br = "fdb_link ?f example_forwarding"
  have b: "fdb_becomes example_forwarding [?old \<mapsto> ?f] ?br"
    using fdb_link_becomes [of example_forwarding ?f] example_forwarding_simps(1) by (simp add: fdb_wf_def)
  have "fdb_wf ?br"
    by (rule fdb_becomes_wf [OF b]) (auto simp: entry_ok_def BR_MAX_FDB_ENTRIES_def split: if_splits)
  then have wf: "if_wf ?br" using if_wf_fdb [OF example_if_wf] b by (simp add: fdb_becomes_def)
  have d: "b_dev ?br = b_dev example_forwarding" by (simp add: fdb_link_def)
  have ne: "example_mac \<noteq> ?old" by code_simp
  note m = fdb_becomes_core(3) [OF b]
  show ?thesis
    by (rule runs_mono [OF old_bridge_address_stays_local [OF wf, of ?f]]) (use ne in \<open>auto simp: m d\<close>)
qed

end
