(* ===== verification/Netdev_Path.thy ===== *)
theory Netdev_Path
  imports Bridge_Types
begin

text \<open>
  Paths of stacked devices (\<open>net/core/dev.c\<close>, \<open>include/linux/netdevice.h\<close>): every device points to the
  one below it, and counts the devices that point to it. The bridge walks such a path down to the
  hardware. A walk is a loop that ends only when the path does, so it is a partial function whose
  value None means that it runs forever.
\<close>

record netdev_path =
  next_dev :: "nat option"
  path_refcount :: int

type_synonym paths = "nat \<Rightarrow> netdev_path"

definition netdev_path_is_linked :: "paths \<Rightarrow> nat \<Rightarrow> bool" where
  "netdev_path_is_linked s d \<longleftrightarrow> next_dev (s d) \<noteq> None"

definition netdev_path_is_leaf :: "paths \<Rightarrow> nat \<Rightarrow> bool" where
  "netdev_path_is_leaf s d \<longleftrightarrow> path_refcount (s d) = 0"

definition netdev_path_is_root :: "paths \<Rightarrow> nat \<Rightarrow> bool" where
  "netdev_path_is_root s d \<longleftrightarrow> next_dev (s d) = None"

definition add_ref :: "int \<Rightarrow> nat \<Rightarrow> paths \<Rightarrow> paths" where
  "add_ref k d s = s(d := (s d)\<lparr>path_refcount := path_refcount (s d) + k\<rparr>)"

definition set_next :: "nat \<Rightarrow> nat option \<Rightarrow> paths \<Rightarrow> paths" where
  "set_next d n s = s(d := (s d)\<lparr>next_dev := n\<rparr>)"

definition netdev_path_add :: "nat \<Rightarrow> nat \<Rightarrow> paths \<Rightarrow> result \<times> paths" where
  "netdev_path_add new nxt s =
     (if netdev_path_is_linked s new then (Some EBUSY, s)
      else (None, add_ref 1 nxt (set_next new (Some nxt) s)))"

definition netdev_path_remove :: "nat \<Rightarrow> paths \<Rightarrow> result \<times> paths" where
  "netdev_path_remove d s =
     (if \<not> netdev_path_is_linked s d then (None, s)
      else if \<not> netdev_path_is_leaf s d then (Some EBUSY, s)
      else case next_dev (s d) of
          None \<Rightarrow> (None, s)
        | Some n \<Rightarrow> (None, set_next d None (add_ref (- 1) n s)))"

text \<open>Walking down while \<open>go\<close> holds; \<open>nx\<close> is the device below.\<close>

partial_function (option) netdev_path_walk :: "('d \<Rightarrow> bool) \<Rightarrow> ('d \<Rightarrow> 'd option) \<Rightarrow> 'd \<Rightarrow> 'd option" where
  "netdev_path_walk go nx d =
     (case nx d of
        None \<Rightarrow> Some d
      | Some d' \<Rightarrow> if go d then netdev_path_walk go nx d' else Some d)"

definition netdev_path_get_root :: "('d \<Rightarrow> 'd option) \<Rightarrow> 'd \<Rightarrow> 'd option" where
  "netdev_path_get_root nx d = netdev_path_walk (\<lambda>_. True) nx d"

section \<open>When a walk ends\<close>

definition below :: "('d \<Rightarrow> 'd option) \<Rightarrow> ('d \<times> 'd) set" where
  "below nx = {(d, d'). nx d = Some d'}"

lemma walk_ends:
  assumes "wf ((below nx)\<inverse>)"
  shows "\<exists>r. netdev_path_walk go nx d = Some r \<and> (d, r) \<in> (below nx)\<^sup>* \<and> (nx r = None \<or> \<not> go r)"
  using assms
proof (induction d rule: wf_induct_rule)
  case (less d)
  show ?case
  proof (cases "nx d")
    case None
    then show ?thesis by (subst netdev_path_walk.simps) simp
  next
    case (Some d')
    then have e: "(d, d') \<in> below nx" by (simp add: below_def)
    show ?thesis
    proof (cases "go d")
      case True
      obtain r where r: "netdev_path_walk go nx d' = Some r" "(d', r) \<in> (below nx)\<^sup>*" "nx r = None \<or> \<not> go r"
        using less [of d'] e by auto
      moreover have "netdev_path_walk go nx d = netdev_path_walk go nx d'"
        by (subst netdev_path_walk.simps) (simp add: Some True)
      ultimately show ?thesis using converse_rtrancl_into_rtrancl [OF e] by auto
    next
      case False
      then have "netdev_path_walk go nx d = Some d" by (subst netdev_path_walk.simps) (simp add: Some)
      with False show ?thesis by auto
    qed
  qed
qed

text \<open>A walk that returns has reached the end of the path, or a device where the condition fails.\<close>

lemma walk_result:
  assumes "netdev_path_walk go nx d = Some r"
  shows "(d, r) \<in> (below nx)\<^sup>* \<and> (nx r = None \<or> \<not> go r)"
proof -
  let ?P = "\<lambda>go nx d r. (d, r) \<in> (below nx)\<^sup>* \<and> (nx r = None \<or> \<not> go r)"
  show ?thesis
  proof (rule netdev_path_walk.raw_induct [OF _ assms, where P = ?P], goal_cases)
    case (1 walk go nx d r)
    show ?case
    proof (cases "\<exists>d'. nx d = Some d' \<and> go d")
      case True
      then obtain d' where d': "nx d = Some d'" "go d" by blast
      then have "?P go nx d' r" using 1(1) [of go nx d' r] 1(2) by simp
      moreover have "(d, d') \<in> below nx" using d' by (simp add: below_def)
      ultimately show ?thesis using converse_rtrancl_into_rtrancl [of d d' "below nx" r] by simp
    next
      case False
      then show ?thesis using 1(2) by (auto split: option.splits if_splits)
    qed
  qed
qed

section \<open>Paths that end\<close>

text \<open>
  The states that \<open>netdev_path_add\<close> and \<open>netdev_path_remove\<close> lead to from unlinked devices when, as their
  comments say, a device is added above a path: nothing points to it yet.
\<close>

definition no_paths :: paths where
  "no_paths = (\<lambda>_. \<lparr>next_dev = None, path_refcount = 0\<rparr>)"

inductive path_reach :: "paths \<Rightarrow> bool" where
  none: "path_reach no_paths"
| add: "path_reach s \<Longrightarrow> netdev_path_is_leaf s new \<Longrightarrow> new \<noteq> nxt \<Longrightarrow> path_reach (snd (netdev_path_add new nxt s))"
| remove: "path_reach s \<Longrightarrow> path_reach (snd (netdev_path_remove d s))"

definition edges :: "paths \<Rightarrow> (nat \<times> nat) set" where
  "edges s = below (\<lambda>d. next_dev (s d))"

definition path_wf :: "paths \<Rightarrow> bool" where
  "path_wf s \<longleftrightarrow> finite (edges s) \<and> acyclic (edges s)
     \<and> (\<forall>d. path_refcount (s d) = int (card {x. (x, d) \<in> edges s}))"

lemma finite_above: "finite (edges s) \<Longrightarrow> finite {x. (x, d) \<in> edges s}"
  by (rule finite_subset [of _ "fst ` edges s"]) force+

lemma edges_simps:
  "edges (add_ref k d s) = edges s"
  "(x, y) \<in> edges (set_next d n s) \<longleftrightarrow> (if x = d then n = Some y else (x, y) \<in> edges s)"
  "(x, y) \<in> edges s \<longleftrightarrow> next_dev (s x) = Some y"
  by (auto simp: edges_def below_def add_ref_def set_next_def split: if_splits)

lemma add_wf:
  assumes wf: "path_wf s" and leaf: "netdev_path_is_leaf s new" and ne: "new \<noteq> nxt"
  shows "path_wf (snd (netdev_path_add new nxt s))"
proof (cases "netdev_path_is_linked s new")
  case False
  let ?s = "add_ref 1 nxt (set_next new (Some nxt) s)"
  have un: "(new, y) \<notin> edges s" for y using False by (simp add: edges_simps(3) netdev_path_is_linked_def)
  then have E: "edges ?s = insert (new, nxt) (edges s)"
    by (auto simp: edges_simps(1,2) set_eq_iff)
  have fin: "finite (edges s)" using wf by (simp add: path_wf_def)
  have none: "(x, new) \<notin> edges s" for x
    using wf leaf finite_above [OF fin, of new] by (auto simp: path_wf_def netdev_path_is_leaf_def)
  have "(nxt, new) \<notin> (edges s)\<^sup>*" using ne none by (auto elim: rtranclE)
  then have "acyclic (edges ?s)" using wf by (simp add: E path_wf_def acyclic_insert)
  moreover have "path_refcount (?s d) = int (card {x. (x, d) \<in> edges ?s})" for d
  proof (cases "d = nxt")
    case True
    then have "{x. (x, d) \<in> edges ?s} = insert new {x. (x, d) \<in> edges s}" by (auto simp: E)
    then show ?thesis
      using wf True un finite_above [OF fin, of d] by (simp add: path_wf_def add_ref_def set_next_def)
  next
    case False
    then have "{x. (x, d) \<in> edges ?s} = {x. (x, d) \<in> edges s}" by (auto simp: E)
    then show ?thesis using wf False by (simp add: path_wf_def add_ref_def set_next_def)
  qed
  ultimately show ?thesis using False fin by (simp add: path_wf_def netdev_path_add_def E)
qed (use wf in \<open>simp add: netdev_path_add_def\<close>)

lemma remove_wf:
  assumes wf: "path_wf s"
  shows "path_wf (snd (netdev_path_remove d s))"
proof (cases "netdev_path_is_linked s d \<and> netdev_path_is_leaf s d")
  case True
  then obtain n where n: "next_dev (s d) = Some n" by (auto simp: netdev_path_is_linked_def)
  let ?s = "set_next d None (add_ref (- 1) n s)"
  have E: "edges ?s = edges s - {(d, n)}" using n by (auto simp: edges_simps set_eq_iff add_ref_def set_next_def)
  have fin: "finite (edges s)" using wf by (simp add: path_wf_def)
  have "acyclic (edges ?s)" using wf acyclic_subset [of "edges s" "edges ?s"] by (simp add: E path_wf_def)
  moreover have "path_refcount (?s y) = int (card {x. (x, y) \<in> edges ?s})" for y
  proof (cases "y = n")
    case True
    let ?A = "{x. (x, y) \<in> edges s}"
    have "d \<in> ?A" using n True by (simp add: edges_simps)
    then have "card ?A = Suc (card (?A - {d}))" by (rule card.remove [OF finite_above [OF fin]])
    moreover have "{x. (x, y) \<in> edges ?s} = ?A - {d}" using True by (auto simp: E)
    moreover have "path_refcount (?s y) = path_refcount (s y) - 1" using True by (simp add: add_ref_def set_next_def)
    ultimately show ?thesis using wf by (simp add: path_wf_def)
  next
    case False
    then have "{x. (x, y) \<in> edges ?s} = {x. (x, y) \<in> edges s}" by (auto simp: E)
    moreover have "path_refcount (?s y) = path_refcount (s y)" using False by (simp add: add_ref_def set_next_def)
    ultimately show ?thesis using wf by (simp add: path_wf_def)
  qed
  ultimately show ?thesis using True n fin by (simp add: path_wf_def netdev_path_remove_def E)
next
  case False
  then show ?thesis using wf by (simp add: netdev_path_remove_def)
qed

lemma path_reach_wf: "path_reach s \<Longrightarrow> path_wf s"
proof (induction rule: path_reach.induct)
  case none
  have "edges no_paths = {}" by (auto simp: edges_simps no_paths_def)
  then show ?case by (simp add: path_wf_def acyclic_def) (simp add: no_paths_def)
qed (simp_all add: add_wf remove_wf)

text \<open>C39: Walking down a path ends. In every state that adding devices on top of paths and removing
  them leads to, the walk from any device returns, and what it returns is the bottom of a path.\<close>

theorem path_walk_returns:
  assumes "path_reach s"
  shows "\<exists>r. netdev_path_get_root (\<lambda>d. next_dev (s d)) d = Some r \<and> netdev_path_is_root s r"
proof -
  have "wf ((below (\<lambda>d. next_dev (s d)))\<inverse>)"
    using path_reach_wf [OF assms] finite_acyclic_wf_converse by (auto simp: path_wf_def edges_def)
  from walk_ends [OF this, of "\<lambda>_. True" d] show ?thesis
    by (auto simp: netdev_path_get_root_def netdev_path_is_root_def)
qed

theorem path_walk_returns_witness:
  "path_reach (snd (netdev_path_add 1 2 no_paths))
   \<and> (\<exists>r. netdev_path_get_root (\<lambda>d. next_dev (snd (netdev_path_add 1 2 no_paths) d)) 1 = Some r
        \<and> netdev_path_is_root (snd (netdev_path_add 1 2 no_paths)) r)"
proof -
  have "path_reach (snd (netdev_path_add 1 2 no_paths))"
    by (rule path_reach.add [OF path_reach.none]) (simp_all add: netdev_path_is_leaf_def no_paths_def)
  with path_walk_returns [OF this, of 1] show ?thesis by blast
qed

text \<open>Nothing checks that the device is on top: two calls make a loop that no walk leaves.\<close>

lemma unchecked_add_makes_a_loop:
  defines "s1 \<equiv> snd (netdev_path_add 1 2 no_paths)"
  defines "s2 \<equiv> snd (netdev_path_add 2 1 s1)"
  shows "fst (netdev_path_add 1 2 no_paths) = None" "fst (netdev_path_add 2 1 s1) = None"
    "netdev_path_get_root (\<lambda>d. next_dev (s2 d)) 1 = None"
proof -
  have nx: "next_dev (s2 d) = (if d = 1 then Some 2 else if d = 2 then Some 1 else None)" for d
    by (auto simp: s2_def s1_def netdev_path_add_def netdev_path_is_linked_def add_ref_def set_next_def no_paths_def)
  have "r = 1 \<or> r = 2" if "(1, r) \<in> (below (\<lambda>d. next_dev (s2 d)))\<^sup>*" for r
    using that by (induction rule: rtrancl_induct) (auto simp: below_def nx split: if_splits)
  then show "netdev_path_get_root (\<lambda>d. next_dev (s2 d)) 1 = None"
    using walk_result [of "\<lambda>_. True" "\<lambda>d. next_dev (s2 d)" 1]
    by (cases "netdev_path_get_root (\<lambda>d. next_dev (s2 d)) 1") (auto simp: netdev_path_get_root_def nx split: if_splits)
qed (simp_all add: s1_def netdev_path_add_def netdev_path_is_linked_def add_ref_def set_next_def no_paths_def)

end
