(* ===== verification/Forward.thy ===== *)
theory Forward
  imports Bridge_If_Props Netdev_Path
begin

text \<open>
  Sending frames out of ports (\<open>net/bridge/br_forward.c\<close>) and the header parser of \<open>br_igmp.c\<close> the
  decision uses. A header byte is read out of \<open>skb_data\<close>, the bytes from the network header on;
  reading behind them is a fault. A frame that leaves is an effect: handed to the device's
  queue, freed, or kept by the packet filter.
\<close>

section \<open>Headers\<close>

definition hdr8 :: "sk_buff \<Rightarrow> nat \<Rightarrow> u8 option" where
  "hdr8 skb i = (if i < length (skb_data skb) then Some (skb_data skb ! i) else None)"

definition hdr16 :: "sk_buff \<Rightarrow> nat \<Rightarrow> u16 option" where
  "hdr16 skb i = do { a \<leftarrow> hdr8 skb i; b \<leftarrow> hdr8 skb (i + 1); Some (load_le16 a b) }"

definition hdr32 :: "sk_buff \<Rightarrow> nat \<Rightarrow> u32 option" where
  "hdr32 skb i = do {
     lo \<leftarrow> hdr16 skb i; hi \<leftarrow> hdr16 skb (i + 2);
     Some (or (ucast lo) (push_bit 16 (ucast hi)))
   }"

definition htons :: "u16 \<Rightarrow> u16" where
  "htons x = or (push_bit 8 x) (drop_bit 8 x)"

definition ETH_P_IP :: u16 where "ETH_P_IP = 0x0800"
definition ETH_P_8021Q :: u16 where "ETH_P_8021Q = 0x8100"
definition ETH_P_PPP_SES :: u16 where "ETH_P_PPP_SES = 0x8864"
definition PPP_IP :: u16 where "PPP_IP = 0x21"
definition IPPROTO_IGMP :: u8 where "IPPROTO_IGMP = 2"
definition IPPROTO_UDP :: u8 where "IPPROTO_UDP = 17"
definition IGMP_HOST_MEMBERSHIP_QUERY :: u8 where "IGMP_HOST_MEMBERSHIP_QUERY = 0x11"

text \<open>The IGMP header behind the IP header at \<open>pip\<close>, when there is one.\<close>

definition igmp_hdr :: "sk_buff \<Rightarrow> nat \<Rightarrow> nat option option" where
  "igmp_hdr skb pip = do {
     protocol \<leftarrow> hdr8 skb (pip + 9);
     if protocol = IPPROTO_IGMP
     then do { b \<leftarrow> hdr8 skb pip; Some (Some (pip + unat (and b 0x0f) * 4)) }
     else Some None
   }"

text \<open>
  The offsets of the IP and the IGMP header of a multicast frame, and the value of \<open>*lanppp\<close> when
  it is set. In the tagged PPPoE case the source declares a second \<open>pppoe\<close>, so the outer one
  stays NULL, and compares the protocol without \<open>htons\<close>.
\<close>

definition br_igmp_get_ip_igmp_hdrs :: "sk_buff \<Rightarrow> (nat option \<times> nat option \<times> bool option) option" where
  "br_igmp_get_ip_igmp_hdrs skb = do {
     (pip, pppoe) \<leftarrow>
       (if skb_h_proto skb = ETH_P_IP then Some (Some 0, False)
        else if skb_h_proto skb = ETH_P_PPP_SES
        then do { t \<leftarrow> hdr16 skb 6; Some (if t = htons PPP_IP then Some 8 else None, True) }
        else if skb_h_proto skb = ETH_P_8021Q
        then do {
          encap \<leftarrow> hdr16 skb 2;
          if encap = htons ETH_P_IP then Some (Some 4, False)
          else if encap = htons ETH_P_PPP_SES
          then do { t \<leftarrow> hdr16 skb (4 + 6); Some (if t = PPP_IP then Some (4 + 8) else None, False) }
          else Some (None, False)
        }
        else Some (None, False));
     case pip of
       None \<Rightarrow> Some (None, None, None)
     | Some pip \<Rightarrow>
         if pppoe then do {
           daddr \<leftarrow> hdr32 skb (pip + 16);
           if and daddr (htonl 0xF0000000) = htonl 0xE0000000
           then do { pigmp \<leftarrow> igmp_hdr skb pip; Some (Some pip, pigmp, Some True) }
           else Some (None, None, None)
         }
         else if is_multicast_ether_addr (skb_dest skb) \<and> \<not> is_broadcast_ether_addr (skb_dest skb)
         then do { pigmp \<leftarrow> igmp_hdr skb pip; Some (Some pip, pigmp, Some False) }
         else Some (None, None, None)
   }"

section \<open>The decision\<close>

definition IFF_WANDEV :: u32 where "IFF_WANDEV = 0x200000"
definition IFF_HW_SWITCH :: u32 where "IFF_HW_SWITCH = 0x40000"
definition IFF_EXT_SWITCH :: u32 where "IFF_EXT_SWITCH = 0x80000"
definition BR_HAIRPIN_MODE :: u32 where "BR_HAIRPIN_MODE = 1"

definition dev_below :: "br_env \<Rightarrow> net_device \<Rightarrow> net_device option" where
  "dev_below env d = env_path env (dev_ifindex d)"

text \<open>The hooks of the isolation and the DNS modules.\<close>

definition hooks_refuse :: "br_env \<Rightarrow> sk_buff \<Rightarrow> bool" where
  "hooks_refuse env skb \<longleftrightarrow>
     (case env_wifi_iso_forward env of None \<Rightarrow> False | Some cb \<Rightarrow> cb skb)
     \<or> (case env_dns_hijack env of
          None \<Rightarrow> False
        | Some hook \<Rightarrow> skb_protocol skb = ETH_P_IP \<and> env_lan_ifname env (dev_name (skb_dev skb)) \<and> hook skb \<noteq> 0)"

text \<open>The checks on WAN devices and on devices above the same hardware.\<close>

definition wan_refuses :: "br_env \<Rightarrow> net_device \<Rightarrow> sk_buff \<Rightarrow> bool option" where
  "wan_refuses env dev skb =
     (if and (and (dev_priv_flags (skb_dev skb)) (dev_priv_flags dev)) IFF_WANDEV \<noteq> 0 then Some True
      else if and (dev_priv_flags (skb_dev skb)) IFF_WANDEV = 0 \<and> and (dev_priv_flags dev) IFF_WANDEV = 0
      then do {
        sdev \<leftarrow> netdev_path_get_root (dev_below env) (skb_dev skb);
        ddev \<leftarrow> netdev_path_get_root (dev_below env) dev;
        Some (dev_ifindex sdev = dev_ifindex ddev
          \<or> skb_pkt_type skb = PACKET_BROADCAST
            \<and> and (and (dev_priv_flags sdev) IFF_HW_SWITCH) (dev_priv_flags ddev) \<noteq> 0
            \<and> xor (and (dev_priv_flags sdev) IFF_EXT_SWITCH) (and (dev_priv_flags ddev) IFF_EXT_SWITCH) = 0)
      }
      else Some False)"

text \<open>The checks on IGMP messages.\<close>

definition igmp_refuses :: "net_bridge \<Rightarrow> net_device \<Rightarrow> sk_buff \<Rightarrow> bool option" where
  "igmp_refuses br dev skb = do {
     (_, pigmp, _) \<leftarrow> br_igmp_get_ip_igmp_hdrs skb;
     case pigmp of
       None \<Rightarrow> Some False
     | Some pigmp \<Rightarrow> do {
         type \<leftarrow> hdr8 skb pigmp;
         Some (if and (dev_priv_flags dev) IFF_WANDEV \<noteq> 0 then type = IGMP_HOST_MEMBERSHIP_QUERY
               else b_igmp_snooping br \<noteq> 0 \<and> type \<noteq> IGMP_HOST_MEMBERSHIP_QUERY)
       }
   }"

definition should_deliver :: "br_env \<Rightarrow> net_bridge \<Rightarrow> net_bridge_port \<Rightarrow> sk_buff \<Rightarrow> bool option" where
  "should_deliver env br p skb =
     (if hooks_refuse env skb then Some False
      else do {
        wan \<leftarrow> wan_refuses env (p_dev p) skb;
        if wan then Some False
        else do {
          igmp \<leftarrow> igmp_refuses br (p_dev p) skb;
          Some (\<not> igmp
            \<and> (and (p_flags p) BR_HAIRPIN_MODE \<noteq> 0 \<or> dev_ifindex (skb_dev skb) \<noteq> dev_ifindex (p_dev p))
            \<and> p_state p = BR_STATE_FORWARDING)
        }
      })"

section \<open>Sending\<close>

definition VLAN_HLEN :: u32 where "VLAN_HLEN = 4"

definition packet_length :: "sk_buff \<Rightarrow> u32" where
  "packet_length skb = of_nat (length (skb_data skb)) - (if skb_protocol skb = ETH_P_8021Q then VLAN_HLEN else 0)"

definition br_dev_queue_push_xmit :: "sk_buff \<Rightarrow> br_effect" where
  "br_dev_queue_push_xmit skb =
     (if packet_length skb > dev_mtu (skb_dev skb) \<and> \<not> skb_gso skb then Kfree_skb skb else Skb_queue_xmit skb)"

text \<open>\<open>NF_HOOK\<close>: the frame goes on when the filter accepts it.\<close>

definition nf_hook :: "br_env \<Rightarrow> nf_hook \<Rightarrow> sk_buff \<Rightarrow> br_effect \<Rightarrow> br_effect" where
  "nf_hook env hook skb okfn = (if env_nf env hook skb then okfn else Nf_consumed skb)"

definition br_forward_finish :: "br_env \<Rightarrow> sk_buff \<Rightarrow> br_effect" where
  "br_forward_finish env skb = nf_hook env NF_BR_POST_ROUTING skb (br_dev_queue_push_xmit skb)"

type_synonym packet_hook = "net_bridge_port \<Rightarrow> sk_buff \<Rightarrow> br_effect"

definition br_deliver_hook :: "br_env \<Rightarrow> packet_hook" where
  "br_deliver_hook env to skb =
     (let skb = skb\<lparr>skb_dev := p_dev to\<rparr> in nf_hook env NF_BR_LOCAL_OUT skb (br_forward_finish env skb))"

definition br_forward_hook :: "br_env \<Rightarrow> packet_hook" where
  "br_forward_hook env to skb =
     (if skb_lro skb then Kfree_skb skb
      else let skb = skb\<lparr>skb_dev := p_dev to\<rparr> in nf_hook env NF_BR_FORWARD skb (br_forward_finish env skb))"

definition deliver_clone :: "br_env \<Rightarrow> packet_hook \<Rightarrow> net_bridge_port \<Rightarrow> sk_buff \<Rightarrow> net_bridge \<Rightarrow> result \<times> net_bridge" where
  "deliver_clone env hook prev skb br =
     (if env_skb_clone env (p_port_no prev) then (None, emit (hook prev skb) br) else (Some ENOMEM, br))"

text \<open>\<open>to\<close> may be NULL here, and a pointer to a port that is there otherwise.\<close>

definition br_deliver :: "br_env \<Rightarrow> u16 option \<Rightarrow> sk_buff \<Rightarrow> net_bridge \<Rightarrow> net_bridge option" where
  "br_deliver env to skb br =
     (case to of
        None \<Rightarrow> Some (emit (Kfree_skb skb) br)
      | Some n \<Rightarrow> do {
          p \<leftarrow> br_get_port br n;
          ok \<leftarrow> should_deliver env br p skb;
          Some (emit (if ok then br_deliver_hook env p skb else Kfree_skb skb) br)
        })"

text \<open>\<open>skb0\<close> is whether the caller still needs the frame.\<close>

definition br_forward :: "br_env \<Rightarrow> u16 option \<Rightarrow> sk_buff \<Rightarrow> bool \<Rightarrow> net_bridge \<Rightarrow> net_bridge option" where
  "br_forward env to skb skb0 br = do {
     n \<leftarrow> to;
     p \<leftarrow> br_get_port br n;
     ok \<leftarrow> should_deliver env br p skb;
     Some (if ok
           then (if skb0 then snd (deliver_clone env (br_forward_hook env) p skb br)
                 else emit (br_forward_hook env p skb) br)
           else if skb0 then br else emit (Kfree_skb skb) br)
   }"

definition maybe_deliver ::
  "br_env \<Rightarrow> packet_hook \<Rightarrow> net_bridge_port option \<Rightarrow> net_bridge_port \<Rightarrow> sk_buff \<Rightarrow> net_bridge
     \<Rightarrow> ((errno + net_bridge_port option) \<times> net_bridge) option" where
  "maybe_deliver env hook prev p skb br = do {
     ok \<leftarrow> should_deliver env br p skb;
     Some (if \<not> ok then (Inr prev, br)
           else case prev of
               None \<Rightarrow> (Inr (Some p), br)
             | Some q \<Rightarrow>
                 (case deliver_clone env hook q skb br of
                    (Some err, br) \<Rightarrow> (Inl err, br)
                  | (None, br) \<Rightarrow> (Inr (Some p), br)))
   }"

primrec flood_ports ::
  "br_env \<Rightarrow> packet_hook \<Rightarrow> sk_buff \<Rightarrow> net_bridge_port list \<Rightarrow> net_bridge_port option \<Rightarrow> net_bridge
     \<Rightarrow> ((errno + net_bridge_port option) \<times> net_bridge) option" where
  "flood_ports env hook skb [] prev br = Some (Inr prev, br)"
| "flood_ports env hook skb (p # ps) prev br = do {
     (r, br) \<leftarrow> maybe_deliver env hook prev p skb br;
     case r of
       Inl err \<Rightarrow> Some (Inl err, br)
     | Inr prev \<Rightarrow> flood_ports env hook skb ps prev br
   }"

definition br_flood :: "br_env \<Rightarrow> sk_buff \<Rightarrow> bool \<Rightarrow> packet_hook \<Rightarrow> net_bridge \<Rightarrow> net_bridge option" where
  "br_flood env skb skb0 hook br = do {
     (r, br) \<leftarrow> flood_ports env hook skb (b_port_list br) None br;
     Some (case r of
         Inr (Some prev) \<Rightarrow>
           if skb0 then snd (deliver_clone env hook prev skb br) else emit (hook prev skb) br
       | _ \<Rightarrow> if skb0 then br else emit (Kfree_skb skb) br)
   }"

definition br_flood_deliver :: "br_env \<Rightarrow> sk_buff \<Rightarrow> net_bridge \<Rightarrow> net_bridge option" where
  "br_flood_deliver env skb br = br_flood env skb False (br_deliver_hook env) br"

definition br_flood_forward :: "br_env \<Rightarrow> sk_buff \<Rightarrow> bool \<Rightarrow> net_bridge \<Rightarrow> net_bridge option" where
  "br_flood_forward env skb skb2 br = br_flood env skb skb2 (br_forward_hook env) br"

end
