(* ===== verification/Forward_Props.thy ===== *)
theory Forward_Props
  imports Forward
begin

text \<open>
  When the decision to send is defined, what flooding sends, and where a frame never goes.
\<close>

section \<open>Reading headers\<close>

lemma hdr8_ex [simp]: "i < length (skb_data skb) \<Longrightarrow> hdr8 skb i = Some (skb_data skb ! i)"
  by (simp add: hdr8_def)

lemma hdr16_ex: "i + 1 < length (skb_data skb) \<Longrightarrow> hdr16 skb i \<noteq> None"
  by (simp add: hdr16_def)

lemma hdr32_ex: "i + 3 < length (skb_data skb) \<Longrightarrow> hdr32 skb i \<noteq> None"
  using hdr16_ex [of i skb] hdr16_ex [of "i + 2" skb] by (auto simp: hdr32_def split: bind_splits)

lemma unat_and_15: "unat (and (b :: u8) 0x0f) \<le> 15"
  using word_and_le1 [of b "0x0f"] by (simp add: word_le_nat_alt)

text \<open>The deepest byte the parser and its callers look at is the type of an IGMP message behind a VLAN
  tag, a PPPoE header and an IP header of maximal length.\<close>

lemma igmp_hdr_runs:
  assumes "pip + 61 \<le> length (skb_data skb)"
  shows "runs (igmp_hdr skb pip) (\<lambda>r. \<forall>i. r = Some i \<longrightarrow> i < length (skb_data skb))"
  using assms unat_and_15 [of "skb_data skb ! pip"] by (simp add: igmp_hdr_def)

definition hdrs_in_frame :: "sk_buff \<Rightarrow> bool" where
  "hdrs_in_frame skb \<longleftrightarrow> runs (br_igmp_get_ip_igmp_hdrs skb) (\<lambda>(pip, pigmp, _).
     (\<forall>i. pip = Some i \<longrightarrow> i + 30 \<le> length (skb_data skb)) \<and> (\<forall>i. pigmp = Some i \<longrightarrow> i < length (skb_data skb)))"

lemma long_frame_ok:
  assumes "73 \<le> length (skb_data skb)"
  shows "hdrs_in_frame skb"
proof -
  let ?Q = "\<lambda>(pip, pigmp, _ :: bool option).
     (\<forall>i. pip = Some i \<longrightarrow> i + 30 \<le> length (skb_data skb)) \<and> (\<forall>i. pigmp = Some i \<longrightarrow> i < length (skb_data skb))"
  have h16: "hdr16 skb 2 \<noteq> None" "hdr16 skb 6 \<noteq> None" "hdr16 skb 10 \<noteq> None"
    by (rule hdr16_ex, use assms in simp)+
  have ig: "runs (Option.bind (igmp_hdr skb pip) (\<lambda>pigmp. Some (Some pip, pigmp, b))) ?Q" if "pip \<le> 12" for pip b
    unfolding runs_bind by (rule runs_mono [OF igmp_hdr_runs]) (use assms that in auto)
  have h32: "hdr32 skb 24 \<noteq> None" by (rule hdr32_ex) (use assms in simp)
  show ?thesis
    unfolding hdrs_in_frame_def br_igmp_get_ip_igmp_hdrs_def
    using h16 h32 ig [of 0] ig [of 4] ig [of 8] ig [of 12] by auto
qed

section \<open>The decision\<close>

definition path_ends :: "br_env \<Rightarrow> net_device \<Rightarrow> bool" where
  "path_ends env d \<longleftrightarrow> netdev_path_get_root (dev_below env) d \<noteq> None"

lemma should_deliver_runs:
  assumes "hdrs_in_frame skb" "path_ends env (skb_dev skb)" "path_ends env (p_dev p)"
  shows "should_deliver env br p skb \<noteq> None"
proof -
  have "wan_refuses env (p_dev p) skb \<noteq> None"
    using assms(2,3) by (auto simp: wan_refuses_def path_ends_def)
  moreover have "igmp_refuses br (p_dev p) skb \<noteq> None"
    using assms(1) by (auto simp: igmp_refuses_def hdrs_in_frame_def runs_iff_ex split: option.splits)
  ultimately show ?thesis by (auto simp: should_deliver_def)
qed

lemma should_deliver_cong:
  assumes "b_igmp_snooping br' = b_igmp_snooping br"
  shows "should_deliver env br' = should_deliver env br"
proof -
  have eq: "igmp_refuses br' = igmp_refuses br" unfolding igmp_refuses_def assms ..
  show ?thesis unfolding should_deliver_def eq ..
qed

lemma should_deliver_out [simp]: "should_deliver env (br\<lparr>b_out := fx\<rparr>) = should_deliver env br"
  by (rule should_deliver_cong) simp

lemma should_deliver_emit [simp]: "should_deliver env (emit e br) = should_deliver env br"
  by (simp add: emit_def)

text \<open>A frame goes neither to a port that is not forwarding nor, without hairpin mode, back.\<close>

lemma should_deliver_only:
  "should_deliver env br p skb = Some True \<Longrightarrow> p_state p = BR_STATE_FORWARDING
    \<and> (and (p_flags p) BR_HAIRPIN_MODE \<noteq> 0 \<or> dev_ifindex (skb_dev skb) \<noteq> dev_ifindex (p_dev p))"
  by (auto simp: should_deliver_def split: if_splits bind_splits)

section \<open>Flooding\<close>

text \<open>What flooding to the ports \<open>ds\<close> sends. The last of them gets the frame itself and the others
  clones, in order; the first clone that fails ends it.\<close>

definition flood_sends :: "br_env \<Rightarrow> packet_hook \<Rightarrow> sk_buff \<Rightarrow> bool \<Rightarrow> net_bridge_port list \<Rightarrow> br_effect list" where
  "flood_sends env hook skb skb0 ds =
     (let ok = (\<lambda>p. env_skb_clone env (p_port_no p));
          drop = (if skb0 then [] else [Kfree_skb skb])
      in if ds = [] then drop
         else map (\<lambda>p. hook p skb) (takeWhile ok (butlast ds))
           @ (if list_all ok (butlast ds)
              then (if skb0 \<and> \<not> ok (last ds) then [] else [hook (last ds) skb]) else drop))"

definition emits :: "br_effect list \<Rightarrow> net_bridge \<Rightarrow> net_bridge" where
  "emits fx br = br\<lparr>b_out := b_out br @ fx\<rparr>"

lemma emits_simps [simp]: "emits [] br = br" "emits fy (emits fx br) = emits (fx @ fy) br"
  by (simp_all add: emits_def)

lemma emit_eq_emits: "emit e br = emits [e] br"
  by (simp add: emits_def emit_def)

lemma flood_ports_eq:
  assumes "\<forall>p \<in> set ps. should_deliver env br p skb \<noteq> None"
  shows "flood_ports env hook skb ps prev br =
    (let ds = (case prev of None \<Rightarrow> [] | Some q \<Rightarrow> [q]) @ filter (\<lambda>p. should_deliver env br p skb = Some True) ps;
         ok = (\<lambda>p. env_skb_clone env (p_port_no p))
     in Some (if ds = [] then Inr None else if list_all ok (butlast ds) then Inr (Some (last ds)) else Inl ENOMEM,
          emits (map (\<lambda>p. hook p skb) (takeWhile ok (butlast ds))) br))"
  using assms
proof (induction ps arbitrary: prev br)
  case Nil
  then show ?case by (cases prev) simp_all
next
  case (Cons p ps)
  have sd: "should_deliver env (emits fx br) q skb = should_deliver env br q skb" for fx q by (simp add: emits_def)
  obtain b where b: "should_deliver env br p skb = Some b" using Cons.prems by auto
  show ?case
  proof (cases "b \<and> prev \<noteq> None")
    case False
    then show ?thesis
      using b Cons by (cases prev) (auto simp: maybe_deliver_def Let_def)
  next
    case True
    then obtain q where q: "prev = Some q" "b" by auto
    show ?thesis
      using Cons.IH [of "emits [hook q skb] br" "Some p"] Cons.prems
      by (auto simp: b q maybe_deliver_def deliver_clone_def Let_def sd emit_eq_emits)
  qed
qed

text \<open>C40: Flooding gives every eligible port the frame once. The loop with its delayed clone
  (\<open>flood_ports\<close>, \<open>maybe_deliver\<close>) sends exactly one copy to each port that \<open>should_deliver\<close> allows, in the
  order of the port list, all of them clones but the last, which takes the frame itself unless
  the caller keeps it; a failing clone ends the flooding, and a frame that nobody took is freed
  once. Nothing of the bridge changes.\<close>

theorem br_flood_sends:
  assumes "\<forall>p \<in> set (b_port_list br). should_deliver env br p skb \<noteq> None"
  shows "br_flood env skb skb0 hook br
    = Some (br\<lparr>b_out := b_out br @ flood_sends env hook skb skb0
        (filter (\<lambda>p. should_deliver env br p skb = Some True) (b_port_list br))\<rparr>)"
  using flood_ports_eq [OF assms, of hook None]
  by (auto simp: br_flood_def flood_sends_def deliver_clone_def Let_def emits_def emit_def)

text \<open>An ARP request that came in on port 2 of the example bridge.\<close>

definition example_skb :: sk_buff where
  "example_skb = \<lparr>skb_dest = Mac 0xff 0xff 0xff 0xff 0xff 0xff, skb_source = example_mac, skb_h_proto = 0x0806,
     skb_protocol = 0x0806, skb_data = replicate 46 0, skb_pkt_type = PACKET_BROADCAST, skb_dev = example_dev 2,
     skb_gso = False, skb_lro = False\<rparr>"

lemma example_path [simp]: "netdev_path_get_root (dev_below example_env) d = Some d"
  unfolding netdev_path_get_root_def
  by (subst netdev_path_walk.simps) (simp add: dev_below_def example_env_def)

lemma example_should_deliver [simp]:
  "should_deliver example_env br p example_skb =
     Some (dev_priv_flags (p_dev p) = 0 \<and> dev_ifindex (p_dev p) \<noteq> 2 \<and> p_state p = BR_STATE_FORWARDING)"
  if "dev_priv_flags (p_dev p) = 0" "and (p_flags p) BR_HAIRPIN_MODE = 0"
  using that
  by (simp add: should_deliver_def hooks_refuse_def wan_refuses_def igmp_refuses_def br_igmp_get_ip_igmp_hdrs_def
      ETH_P_IP_def ETH_P_PPP_SES_def ETH_P_8021Q_def)
    (auto simp: example_env_def example_skb_def example_dev_def)

theorem br_flood_sends_witness:
  "br_flood example_env example_skb True (br_forward_hook example_env) example_forwarding
    = Some (example_forwarding\<lparr>b_out := b_out example_forwarding @
        flood_sends example_env (br_forward_hook example_env) example_skb True
          [(example_port 1)\<lparr>p_state := BR_STATE_FORWARDING\<rparr>]\<rparr>)"
proof -
  let ?p = "(example_port 1)\<lparr>p_state := BR_STATE_FORWARDING\<rparr>"
  have ps: "b_port_list example_forwarding = [example_port 2, ?p]"
    by (simp add: example_forwarding_def upd_port_def upd_list_def example_bridge_def) (simp add: example_port_def)
  have "dev_priv_flags (p_dev (example_port n)) = 0" "p_flags (example_port n) = 0" for n
    by (simp_all add: example_port_def example_dev_def)
  moreover have "p_state (example_port 2) = BR_STATE_BLOCKING" "dev_ifindex (p_dev (example_port 1)) = 1"
    by (simp_all add: example_port_def example_dev_def)
  ultimately show ?thesis
    using br_flood_sends [of example_forwarding example_env example_skb True "br_forward_hook example_env"]
    by (auto simp: ps)
qed

end
