(* ===== verification/Igmp_Forward.thy ===== *)
theory Igmp_Forward
  imports Forward_Props
begin

text \<open>
  Multicast frames under IGMP snooping (the frame side of \<open>net/bridge/br_igmp.c\<close>): IGMP messages go to
  the multicast daemon, which may hold them; data frames go to the ports with a membership. The
  \<open>dirty\<close> flag of a port marks, within one frame, that the port has had its copy.
\<close>

definition MCPD_IF_TYPE_BRIDGED :: nat where "MCPD_IF_TYPE_BRIDGED = 1"
definition MCPD_IF_TYPE_ROUTED :: nat where "MCPD_IF_TYPE_ROUTED = 2"
definition SNOOPING_BLOCKING_MODE :: nat where "SNOOPING_BLOCKING_MODE = 2"

section \<open>Messages\<close>

text \<open>The first free slot takes the frame; None when there is none.\<close>

fun place_pending ::
  "sk_buff \<times> u32 \<Rightarrow> (sk_buff \<times> u32) option list \<Rightarrow> (sk_buff \<times> u32) option list option" where
  "place_pending x [] = None"
| "place_pending x (None # ds) = Some (Some x # ds)"
| "place_pending x (Some d # ds) = map_option ((#) (Some d)) (place_pending x ds)"

text \<open>An IGMP message for the daemon; the status is whether the frame is to be held.\<close>

definition mcpd_process_skb :: "br_env \<Rightarrow> sk_buff \<Rightarrow> net_bridge \<Rightarrow> (int \<times> net_bridge) option" where
  "mcpd_process_skb env skb br =
     (if \<not> env_mcpd_pid env then Some (0, br)
      else do {
        (pip, pigmp, lanppp) \<leftarrow> br_igmp_get_ip_igmp_hdrs skb;
        case pigmp of
          None \<Rightarrow> Some (0, br)
        | Some _ \<Rightarrow> do {
            port \<leftarrow> port_by_ifindex (dev_ifindex (skb_dev skb)) br;
            if \<not> env_mcpd_alloc env then Some (0, br)
            else Some (if env_mcpd_admission env then 1 else 0,
              emit (Mcpd_pkt_info (p_port_no port) (lanppp = Some True) (env_mcpd_admission env)
                (drop (the pip) (skb_data skb))) br)
          }
      })"

definition igmp_message :: "br_env \<Rightarrow> sk_buff \<Rightarrow> nat \<Rightarrow> net_bridge \<Rightarrow> (int \<times> net_bridge) option" where
  "igmp_message env skb pigmp br =
     (if and (dev_priv_flags (skb_dev skb)) IFF_WANDEV \<noteq> 0
      then do {
        type \<leftarrow> hdr8 skb pigmp;
        Some (if type \<noteq> IGMP_HOST_MEMBERSHIP_QUERY then (1, emit (Kfree_skb skb) br) else (0, br))
      }
      else case port_by_ifindex (dev_ifindex (skb_dev skb)) br of
          None \<Rightarrow> Some (0, br)
        | Some _ \<Rightarrow> do {
            (status, br) \<leftarrow> mcpd_process_skb env skb br;
            Some (status,
              if status = 1
              then (case place_pending (skb, b_jiffies br + MCPD_NETLINK_SKB_TIMEOUT_MS) (b_igmp_delayed_skb br) of
                      None \<Rightarrow> br
                    | Some ds \<Rightarrow> br_igmp_set_timer (br\<lparr>b_igmp_delayed_skb := ds\<rparr>))
              else br)
          })"

section \<open>Data\<close>

text \<open>Whether the entry is for the group and the kind of traffic (\<open>continue\<close> otherwise).\<close>

definition mc_for_frame :: "net_bridge \<Rightarrow> bool \<Rightarrow> sk_buff \<Rightarrow> u32 \<Rightarrow> net_bridge_mc_fdb_entry \<Rightarrow> bool" where
  "mc_for_frame br is_routed skb daddr dst \<longleftrightarrow>
     mc_txGrp dst = daddr
     \<and> (if is_routed then mc_type dst = MCPD_IF_TYPE_ROUTED
        else mc_type dst = MCPD_IF_TYPE_BRIDGED
          \<and> (if and (dev_priv_flags (skb_dev skb)) IFF_WANDEV \<noteq> 0
             then mc_from_dev dst = dev_ifindex (skb_dev skb)
             else mc_from_dev dst = dev_ifindex (b_dev br)))"

text \<open>Whether the entry's filter lets the source through.\<close>

definition mc_source_wanted :: "u32 \<Rightarrow> net_bridge_mc_fdb_entry \<Rightarrow> bool" where
  "mc_source_wanted saddr dst \<longleftrightarrow>
     (case mc_filt_mode dst of
        MCAST_INCLUDE \<Rightarrow> saddr = mc_src dst
      | MCAST_EXCLUDE \<Rightarrow> mc_src dst = 0 \<or> saddr \<noteq> mc_src dst)"

definition mc_excluded :: "sk_buff \<Rightarrow> nat \<Rightarrow> net_bridge_mc_fdb_entry \<Rightarrow> bool option" where
  "mc_excluded skb pip dst =
     (if mc_excludePort dst \<noteq> -1
      then do {
        protocol \<leftarrow> hdr8 skb (pip + 9);
        if protocol = IPPROTO_UDP
        then do { dest \<leftarrow> hdr16 skb (pip + 20 + 2); Some (uint dest = mc_excludePort dst) }
        else Some False
      }
      else Some False)"

text \<open>The copy for the entry's port, unless it is dirty; False when the clone fails.\<close>

definition mc_copy :: "br_env \<Rightarrow> sk_buff \<Rightarrow> bool \<Rightarrow> u16 \<Rightarrow> net_bridge \<Rightarrow> (bool \<times> net_bridge) option" where
  "mc_copy env skb forward n br = do {
     p \<leftarrow> br_get_port br n;
     if p_dirty p then Some (True, upd_port n (\<lambda>p. p\<lparr>p_dirty := True\<rparr>) br)
     else if \<not> env_skb_clone env n then Some (False, br)
     else do {
       br \<leftarrow> (if forward then br_forward env (Some n) skb False br else br_deliver env (Some n) skb br);
       Some (True, upd_port n (\<lambda>p. p\<lparr>p_dirty := True\<rparr>) br)
     }
   }"

text \<open>The loop over the bucket: \<open>Inl r\<close> when the function returns \<open>r\<close> from within it, \<open>Inr status\<close>
  at its end.\<close>

primrec mc_forward_loop ::
  "br_env \<Rightarrow> sk_buff \<Rightarrow> bool \<Rightarrow> bool \<Rightarrow> nat \<Rightarrow> u32 \<Rightarrow> u32 \<Rightarrow> net_bridge_mc_fdb_entry list \<Rightarrow> int \<Rightarrow> net_bridge
     \<Rightarrow> ((int + int) \<times> net_bridge) option" where
  "mc_forward_loop env skb forward is_routed pip saddr daddr [] status br = Some (Inr status, br)"
| "mc_forward_loop env skb forward is_routed pip saddr daddr (dst # es) status br =
     (if \<not> mc_for_frame br is_routed skb daddr dst
      then mc_forward_loop env skb forward is_routed pip saddr daddr es status br
      else if mc_source_wanted saddr dst
      then do {
        excluded \<leftarrow> mc_excluded skb pip dst;
        if excluded then Some (Inl 1, emit (Kfree_skb skb) br)
        else do {
          (ok, br) \<leftarrow> mc_copy env skb forward (mc_dst dst) br;
          if ok then mc_forward_loop env skb forward is_routed pip saddr daddr es 1 br
          else Some (Inl 0, br)
        }
      }
      else mc_forward_loop env skb forward is_routed pip saddr daddr es
             (if mc_filt_mode dst = MCAST_EXCLUDE then 1 else status) br)"

definition clear_dirty :: "net_bridge \<Rightarrow> net_bridge" where
  "clear_dirty br = br\<lparr>b_port_list := map (\<lambda>p. p\<lparr>p_dirty := False\<rparr>) (b_port_list br)\<rparr>"

definition br_igmp_mc_forward ::
  "br_env \<Rightarrow> sk_buff \<Rightarrow> bool \<Rightarrow> bool \<Rightarrow> net_bridge \<Rightarrow> (int \<times> net_bridge) option" where
  "br_igmp_mc_forward env skb forward is_routed br = do {
     (pipmcast, pigmp, _) \<leftarrow> br_igmp_get_ip_igmp_hdrs skb;
     case pipmcast of
       None \<Rightarrow> Some (0, br)
     | Some pip \<Rightarrow>
         if pigmp \<noteq> None \<and> (b_igmp_proxy br \<or> b_igmp_snooping br \<noteq> 0 \<or> env_host_control env)
         then igmp_message env skb (the pigmp) br
         else do {
           daddr \<leftarrow> hdr32 skb (pip + 16);
           if \<not> br_igmp_control_filter (Some (skb_dest skb)) daddr then Some (0, br)
           else do {
             saddr \<leftarrow> hdr32 skb (pip + 12);
             (r, br) \<leftarrow> mc_forward_loop env skb forward is_routed pip saddr daddr
               (b_mc_hash br (br_igmp_mc_fdb_hash br daddr))
               (if b_igmp_snooping br = SNOOPING_BLOCKING_MODE then 1 else 0) br;
             Some (case r of
                 Inl r \<Rightarrow> (r, br)
               | Inr status \<Rightarrow>
                   (status, if status \<noteq> 0 then emit (Kfree_skb skb) (clear_dirty br) else br))
           }
         }
   }"

section \<open>The daemon's answer\<close>

text \<open>The daemon names the frame by its address, here the frame itself or None for NULL, which the
  source reports and then goes on: the search finds an empty slot.\<close>

primrec pending_index :: "sk_buff option \<Rightarrow> (sk_buff \<times> u32) option list \<Rightarrow> nat option" where
  "pending_index skb [] = None"
| "pending_index skb (d # ds) =
     (if map_option fst d = skb then Some 0 else map_option Suc (pending_index skb ds))"

definition br_igmp_process_admission ::
  "br_env \<Rightarrow> sk_buff option \<Rightarrow> bool \<Rightarrow> net_bridge \<Rightarrow> net_bridge option" where
  "br_igmp_process_admission env skb admitted br =
     (case pending_index skb (b_igmp_delayed_skb br) of
        None \<Rightarrow> Some br
      | Some i \<Rightarrow> do {
          br \<leftarrow> (if admitted then do { s \<leftarrow> skb; br_flood_forward env s False br }
                else Some (case skb of None \<Rightarrow> br | Some s \<Rightarrow> emit (Kfree_skb s) br));
          Some (br\<lparr>b_igmp_delayed_skb := (b_igmp_delayed_skb br)[i := None]\<rparr>)
        })"

end
