(* ===== verification/Input.thy ===== *)
theory Input
  imports Igmp_Forward
begin

text \<open>
  Frames that enter the bridge: from a port (\<open>net/bridge/br_input.c\<close>) and from the host
  (\<open>br_dev_xmit\<close> of \<open>br_device.c\<close>). \<open>env_mld_forward\<close> is the answer of MLD snooping for IPv6 multicast
  frames; the stock multicast snooping is not built, so its lookups find nothing. Dividing by
  zero is a fault.
\<close>

section \<open>The IGMP rate limit\<close>

text \<open>\<open>ktime_to_us\<close> of a difference of \<open>ktime_t\<close> values, stored in a \<open>u64\<close>.\<close>

definition ktime_us_delta :: "int \<Rightarrow> int \<Rightarrow> u64" where
  "ktime_us_delta t s = word_of_int ((t - s) sdiv 1000)"

definition igmp_burst_limit :: "net_bridge \<Rightarrow> u32" where
  "igmp_burst_limit br = (let l = drop_bit 2 (b_igmp_rate_limit br) in if l = 0 then 1 else l)"

definition igmp_refill :: "u64 \<Rightarrow> u32 \<Rightarrow> net_bridge \<Rightarrow> net_bridge option" where
  "igmp_refill diffUs usPerPacket br =
     (if diffUs > 1000000
      then Some (br\<lparr>b_igmp_rate_bucket := igmp_burst_limit br, b_igmp_rate_rem_time := 0\<rparr>)
      else if usPerPacket = 0 then None
      else let temp32 = ucast diffUs div usPerPacket;
               br = br\<lparr>b_igmp_rate_bucket := b_igmp_rate_bucket br + temp32\<rparr>
           in Some (if temp32 \<noteq> 0
                    then br\<lparr>b_igmp_rate_rem_time := ucast (diffUs - ucast (temp32 * usPerPacket))\<rparr> else br))"

definition igmp_clamp :: "net_bridge \<Rightarrow> net_bridge" where
  "igmp_clamp br =
     (if b_igmp_rate_bucket br > igmp_burst_limit br
      then br\<lparr>b_igmp_rate_bucket := igmp_burst_limit br, b_igmp_rate_rem_time := 0\<rparr> else br)"

text \<open>Whether the message is dropped.\<close>

definition igmp_rate_check :: "int \<Rightarrow> net_bridge \<Rightarrow> (bool \<times> net_bridge) option" where
  "igmp_rate_check curTime br =
     (if b_igmp_rate_limit br = 0 then Some (False, br)
      else do {
        br \<leftarrow> igmp_refill (ktime_us_delta curTime (b_igmp_rate_last_packet br) + ucast (b_igmp_rate_rem_time br))
               (1000000 div b_igmp_rate_limit br) br;
        let br = igmp_clamp br;
        Some (if b_igmp_rate_bucket br = 0 then (True, br)
              else (False, br\<lparr>b_igmp_rate_bucket := b_igmp_rate_bucket br - 1,
                     b_igmp_rate_last_packet := curTime\<rparr>))
      })"

section \<open>Frames for the host\<close>

definition br_pass_frame_up :: "br_env \<Rightarrow> sk_buff \<Rightarrow> net_bridge \<Rightarrow> net_bridge" where
  "br_pass_frame_up env skb br =
     (if (case env_wifi_iso_local env of None \<Rightarrow> False | Some cb \<Rightarrow> cb skb)
      then emit (Kfree_skb skb) br
      else let skb = skb\<lparr>skb_dev := b_dev br\<rparr>
           in emit (nf_hook env NF_BR_LOCAL_IN skb (Netif_receive_skb skb)) br)"

section \<open>Wireless packet chaining\<close>

definition BLOG_XTMPHY :: nat where "BLOG_XTMPHY = 0"
definition BLOG_ENETPHY :: nat where "BLOG_ENETPHY = 1"
definition BLOG_GPONPHY :: nat where "BLOG_GPONPHY = 2"
definition BLOG_EPONPHY :: nat where "BLOG_EPONPHY = 3"
definition BLOG_WLANPHY :: nat where "BLOG_WLANPHY = 5"

definition pktc_hot :: "br_env \<Rightarrow> net_bridge_fdb_entry \<Rightarrow> net_device \<Rightarrow> net_device \<Rightarrow> net_bridge \<Rightarrow> net_bridge option" where
  "pktc_hot env dst src_dev dst_dev br =
     (let srcPhyType = dev_phy_type src_dev;
          dstPhyType = dev_phy_type dst_dev;
          from_wl_to_switch = (srcPhyType = BLOG_WLANPHY \<and> dstPhyType = BLOG_ENETPHY);
          from_switch_to_wl = (\<not> from_wl_to_switch
            \<and> (srcPhyType = BLOG_ENETPHY \<or> srcPhyType = BLOG_XTMPHY \<or> srcPhyType = BLOG_EPONPHY \<or> srcPhyType = BLOG_GPONPHY)
            \<and> dstPhyType = BLOG_WLANPHY \<and> env_wl_pktc env \<and> env_pktc_tx env)
      in do {
        root \<leftarrow> (if from_wl_to_switch
                then netdev_path_walk (\<lambda>d. and (dev_priv_flags d) IFF_BCM_VLAN \<noteq> 0) (dev_below env) dst_dev
                else Some dst_dev);
        Some (if (from_wl_to_switch \<or> from_switch_to_wl) \<and> and (dev_priv_flags dst_dev) IFF_WANDEV = 0
                 \<and> dev_below env root = None
              then (let br = (if from_wl_to_switch \<and> env_dhd_pktc env
                              then emit (Pktc_update_brc_hot (f_addr dst) (dev_ifindex root)) br else br)
                    in if env_wl_pktc env then emit (Pktc_update_brc_hot (f_addr dst) (dev_ifindex root)) br else br)
              else br)
      })"

text \<open>The block under \<open>PKTC\<close>: the port of a source address that is in the database is read.\<close>

definition pktc_update :: "br_env \<Rightarrow> net_bridge_fdb_entry \<Rightarrow> mac_addr \<Rightarrow> net_bridge \<Rightarrow> net_bridge option" where
  "pktc_update env dst source br = do {
     n \<leftarrow> f_dst dst;
     dp \<leftarrow> br_get_port br n;
     case br_fdb_get env source br of
       (None, br) \<Rightarrow> Some br
     | (Some src, br) \<Rightarrow> do {
         m \<leftarrow> f_dst src;
         sp \<leftarrow> br_get_port br m;
         pktc_hot env dst (p_dev sp) (p_dev dp) br
       }
   }"

section \<open>Bridging a frame\<close>

definition ETHER_TYPE_BRCM :: u16 where "ETHER_TYPE_BRCM = 0x886c"

text \<open>A unicast frame.\<close>

definition forward_unicast :: "br_env \<Rightarrow> sk_buff \<Rightarrow> net_bridge \<Rightarrow> net_bridge option" where
  "forward_unicast env skb br =
     (let (dst, br) = br_fdb_get env (skb_dest skb) br;
          (_, br) = br_fdb_get env (skb_source skb) br
      in case dst of
           None \<Rightarrow> do {
             br \<leftarrow> br_flood_forward env skb (dev_promisc (b_dev br)) br;
             Some (if dev_promisc (b_dev br) then br_pass_frame_up env skb br else br)
           }
         | Some dst \<Rightarrow>
             if f_is_local dst then Some (br_pass_frame_up env skb br)
             else do {
               br \<leftarrow> pktc_update env dst (skb_source skb) br;
               br \<leftarrow> br_forward env (f_dst dst) skb (dev_promisc (b_dev br))
                      (fdb_store (f_addr dst) (\<lambda>f. f\<lparr>f_used := b_jiffies br\<rparr>) br);
               Some (if dev_promisc (b_dev br) then br_pass_frame_up env skb br else br)
             })"

text \<open>Whether multicast snooping took the frame.\<close>

definition snoop_frame :: "br_env \<Rightarrow> sk_buff \<Rightarrow> bool \<Rightarrow> bool \<Rightarrow> net_bridge \<Rightarrow> (bool \<times> net_bridge) option" where
  "snoop_frame env skb forward is_routed br =
     (if env_mld_forward env skb then Some (True, br)
      else do {
        (pipmcast, _, _) \<leftarrow> br_igmp_get_ip_igmp_hdrs skb;
        if pipmcast \<noteq> None
        then do { (status, br) \<leftarrow> br_igmp_mc_forward env skb forward is_routed br; Some (status \<noteq> 0, br) }
        else Some (False, br)
      })"

definition br_handle_frame_finish :: "br_env \<Rightarrow> sk_buff \<Rightarrow> net_bridge \<Rightarrow> net_bridge option" where
  "br_handle_frame_finish env skb br =
     (case port_by_ifindex (dev_ifindex (skb_dev skb)) br of
        None \<Rightarrow> Some (emit (Kfree_skb skb) br)
      | Some p \<Rightarrow>
          if p_state p = BR_STATE_DISABLED then Some (emit (Kfree_skb skb) br)
          else do {
            (_, pigmp, _) \<leftarrow> br_igmp_get_ip_igmp_hdrs skb;
            (limited, br) \<leftarrow> (if pigmp \<noteq> None then igmp_rate_check (env_ktime env) br else Some (False, br));
            if limited then Some (emit (Kfree_skb skb) br)
            else do {
              br \<leftarrow> br_fdb_update env (p_port_no p) (skb_source skb) br;
              p \<leftarrow> br_get_port br (p_port_no p);
              if p_state p = BR_STATE_LEARNING \<and> skb_protocol skb \<noteq> ETHER_TYPE_BRCM
              then Some (emit (Kfree_skb skb) br)
              else do {
                (consumed, br) \<leftarrow> snoop_frame env skb True False br;
                if consumed then Some br
                else if is_broadcast_ether_addr (skb_dest skb) \<or> is_multicast_ether_addr (skb_dest skb)
                then do { br \<leftarrow> br_flood_forward env skb True br; Some (br_pass_frame_up env skb br) }
                else forward_unicast env skb br
              }
            }
          })"

definition br_handle_local_finish :: "br_env \<Rightarrow> sk_buff \<Rightarrow> net_bridge \<Rightarrow> net_bridge option" where
  "br_handle_local_finish env skb br = do {
     p \<leftarrow> port_by_ifindex (dev_ifindex (skb_dev skb)) br;
     br_fdb_update env (p_port_no p) (skb_source skb) br
   }"

section \<open>The receive handler\<close>

fun is_link_local :: "mac_addr \<Rightarrow> bool" where
  "is_link_local (Mac a b c d e f) \<longleftrightarrow>
     or (or (xor (load_le16 a b) (load_le16 0x01 0x80)) (xor (load_le16 c d) (load_le16 0xc2 0x00)))
        (and (xor (load_le16 e f) (load_le16 0x00 0x00)) (htons 0xfff0)) = 0"

fun mac_last :: "mac_addr \<Rightarrow> u8" where
  "mac_last (Mac a b c d e f) = f"

datatype rx_handler_result = RX_HANDLER_CONSUMED | RX_HANDLER_ANOTHER | RX_HANDLER_EXACT | RX_HANDLER_PASS

type_synonym rx_result = "(rx_handler_result \<times> sk_buff \<times> net_bridge) option"

text \<open>\<open>NF_HOOK\<close> in front of \<open>br_handle_frame_finish\<close>.\<close>

definition nf_pre_routing :: "br_env \<Rightarrow> sk_buff \<Rightarrow> net_bridge \<Rightarrow> net_bridge option" where
  "nf_pre_routing env skb br =
     (if env_nf env NF_BR_PRE_ROUTING skb then br_handle_frame_finish env skb br
      else Some (emit (Nf_consumed skb) br))"

text \<open>From the label \<open>forward\<close> on.\<close>

definition handle_forward :: "br_env \<Rightarrow> net_bridge_port \<Rightarrow> sk_buff \<Rightarrow> net_bridge \<Rightarrow> rx_result" where
  "handle_forward env p skb br =
     (let consumed = (\<lambda>m. map_option (\<lambda>br. (RX_HANDLER_CONSUMED, skb, br)) m)
      in if skb_protocol skb = ETHER_TYPE_BRCM \<and> p_state p \<noteq> BR_STATE_FORWARDING
         then consumed (nf_pre_routing env skb br)
         else if p_state p = BR_STATE_FORWARDING \<or> p_state p = BR_STATE_LEARNING
         then let (route, skb) = (if p_state p = BR_STATE_FORWARDING
                                  then (case env_route_hook env of None \<Rightarrow> (False, skb) | Some rhook \<Rightarrow> rhook skb)
                                  else (False, skb))
              in if route then Some (RX_HANDLER_PASS, skb, br)
                 else let skb = (if \<not> compare_ether_addr (dev_addr (b_dev br)) (skb_dest skb)
                                 then skb\<lparr>skb_pkt_type := PACKET_HOST\<rparr> else skb)
                      in map_option (\<lambda>br. (RX_HANDLER_CONSUMED, skb, br)) (nf_pre_routing env skb br)
         else Some (RX_HANDLER_CONSUMED, skb, emit (Kfree_skb skb) br))"

definition handle_local :: "br_env \<Rightarrow> sk_buff \<Rightarrow> net_bridge \<Rightarrow> rx_result" where
  "handle_local env skb br =
     (if env_nf env NF_BR_LOCAL_IN skb
      then map_option (\<lambda>br. (RX_HANDLER_PASS, skb, br)) (br_handle_local_finish env skb br)
      else Some (RX_HANDLER_CONSUMED, skb, emit (Nf_consumed skb) br))"

definition br_handle_frame :: "br_env \<Rightarrow> sk_buff \<Rightarrow> net_bridge \<Rightarrow> rx_result" where
  "br_handle_frame env skb br =
     (if skb_pkt_type skb = PACKET_LOOPBACK then Some (RX_HANDLER_PASS, skb, br)
      else if \<not> is_valid_ether_addr (skb_source skb) \<or> \<not> env_skb_share env
      then Some (RX_HANDLER_CONSUMED, skb, emit (Kfree_skb skb) br)
      else do {
        p \<leftarrow> port_by_ifindex (dev_ifindex (skb_dev skb)) br;
        if is_link_local (skb_dest skb)
        then let n = mac_last (skb_dest skb)
             in if n = 0
                then (if b_stp_enabled br = BR_NO_STP then handle_forward env p skb br else handle_local env skb br)
                else if n = 1 then Some (RX_HANDLER_CONSUMED, skb, emit (Kfree_skb skb) br)
                else if and (b_group_fwd_mask br) (push_bit (unat n) 1) \<noteq> 0 then handle_forward env p skb br
                else handle_local env skb br
        else handle_forward env p skb br
      })"

section \<open>Frames from the host\<close>

definition br_dev_xmit :: "br_env \<Rightarrow> sk_buff \<Rightarrow> net_bridge \<Rightarrow> net_bridge option" where
  "br_dev_xmit env skb br = do {
     (consumed, br) \<leftarrow> snoop_frame env skb False True br;
     if consumed then Some br
     else if is_broadcast_ether_addr (skb_dest skb) \<or> is_multicast_ether_addr (skb_dest skb)
     then br_flood_deliver env skb br
     else case br_fdb_get env (skb_dest skb) br of
         (None, br) \<Rightarrow> br_flood_deliver env skb br
       | (Some dst, br) \<Rightarrow> do {
           br \<leftarrow> (if env_wl_pktc env
                 then do {
                   n \<leftarrow> f_dst dst; p \<leftarrow> br_get_port br n;
                   Some (if dev_phy_type (p_dev p) = BLOG_WLANPHY \<and> env_pktc_tx env
                         then emit (Pktc_update_brc_hot (f_addr dst) (dev_ifindex (p_dev p))) br else br)
                 }
                 else Some br);
           br_deliver env (f_dst dst) skb br
         }
   }"

end
