(* ===== verification/Igmp_Rate.thy ===== *)
theory Igmp_Rate
  imports Input
begin

text \<open>
  The limit on IGMP messages: a bucket of tokens, filled by the time that passes. The proof is an
  amortised one. The credit of a bridge is the time its tokens and its remainder stand for; it
  grows by at most the time that passes, and a message that goes through costs the gap between
  two messages.
\<close>

section \<open>Credit\<close>

definition rate_gap :: "net_bridge \<Rightarrow> nat" where
  "rate_gap br = 1000000 div unat (b_igmp_rate_limit br)"

definition rate_credit :: "net_bridge \<Rightarrow> nat" where
  "rate_credit br = unat (b_igmp_rate_bucket br) * rate_gap br + unat (b_igmp_rate_rem_time br)"

definition rate_ok :: "net_bridge \<Rightarrow> bool" where
  "rate_ok br \<longleftrightarrow> unat (b_igmp_rate_limit br) \<le> 1000000 \<and> b_igmp_rate_bucket br \<le> igmp_burst_limit br"

lemma unat_burst: "unat (igmp_burst_limit br) = max 1 (unat (b_igmp_rate_limit br) div 4)"
proof -
  have "unat (drop_bit 2 (b_igmp_rate_limit br)) = unat (b_igmp_rate_limit br) div 4"
    by (simp add: drop_bit_eq_div unat_div)
  then show ?thesis by (auto simp: igmp_burst_limit_def Let_def unat_eq_0 [symmetric] simp del: unat_eq_0)
qed

lemma burst_gap: "unat (igmp_burst_limit br) * rate_gap br \<le> 1000000" if "b_igmp_rate_limit br \<noteq> 0"
proof -
  have l: "0 < unat (b_igmp_rate_limit br)" using that by (simp add: unat_gt_0)
  have "unat (igmp_burst_limit br) \<le> unat (b_igmp_rate_limit br)" using l by (simp add: unat_burst)
  then have "unat (igmp_burst_limit br) * rate_gap br \<le> unat (b_igmp_rate_limit br) * rate_gap br" by simp
  also have "\<dots> \<le> 1000000" by (simp add: rate_gap_def)
  finally show ?thesis .
qed

lemma unat_elapsed:
  assumes "0 \<le> s" "s \<le> t" "t < 2 ^ 63"
  shows "unat (ktime_us_delta t s + ucast (r :: u32)) = nat ((t - s) div 1000) + unat r"
proof -
  have b: "(t - s) div 1000 < 2 ^ 63 div 1000 + 1" "0 \<le> (t - s) div 1000" using assms by simp_all
  have sd: "(t - s) sdiv 1000 = (t - s) div 1000" using assms by (simp add: signed_divide_int_def sgn_if)
  have k: "unat (ktime_us_delta t s) = nat ((t - s) div 1000)"
    using b by (simp add: ktime_us_delta_def sd unsigned_of_int take_bit_int_eq_self)
  have "unat r < 2 ^ 32" using unsigned_less [of r] by simp
  moreover from this have r: "unat (ucast r :: u64) = unat r" by (simp add: unsigned_ucast_eq take_bit_nat_eq_self)
  ultimately show ?thesis using b k r by (subst unat_add_lem [THEN iffD1]) auto
qed


lemma rate_gap_pos: "rate_ok br \<Longrightarrow> b_igmp_rate_limit br \<noteq> 0 \<Longrightarrow> 0 < rate_gap br"
  by (simp add: rate_gap_def rate_ok_def div_greater_zero_iff unat_gt_0)

text \<open>What adding the tokens for \<open>d\<close> microseconds does, in natural numbers.\<close>

definition refilled :: "nat \<Rightarrow> net_bridge \<Rightarrow> net_bridge \<Rightarrow> bool" where
  "refilled d br br' \<longleftrightarrow>
     b_igmp_rate_limit br' = b_igmp_rate_limit br \<and> b_igmp_rate_last_packet br' = b_igmp_rate_last_packet br
     \<and> (if d > 1000000 then b_igmp_rate_bucket br' = igmp_burst_limit br \<and> b_igmp_rate_rem_time br' = 0
        else unat (b_igmp_rate_bucket br') = unat (b_igmp_rate_bucket br) + d div rate_gap br
          \<and> unat (b_igmp_rate_rem_time br') = (if d < rate_gap br then unat (b_igmp_rate_rem_time br) else d mod rate_gap br))"

lemma igmp_refill_runs:
  assumes ok: "rate_ok br" "b_igmp_rate_limit br \<noteq> 0"
  shows "runs (igmp_refill diffUs (1000000 div b_igmp_rate_limit br) br) (refilled (unat diffUs) br)"
proof -
  let ?U = "1000000 div b_igmp_rate_limit br" and ?d = "unat diffUs" and ?t = "ucast diffUs div (1000000 div b_igmp_rate_limit br) :: u32"
  have l: "0 < unat (b_igmp_rate_limit br)" "unat (b_igmp_rate_limit br) \<le> 1000000"
    using ok by (simp_all add: unat_gt_0 rate_ok_def)
  have U: "unat ?U = rate_gap br" by (simp add: rate_gap_def unat_div)
  have U0: "0 < rate_gap br" "rate_gap br \<le> 1000000" using rate_gap_pos [OF ok] by (simp_all add: rate_gap_def)
  have big: "diffUs > 1000000 \<longleftrightarrow> ?d > 1000000" by (simp add: word_less_nat_alt)
  show ?thesis
  proof (cases "?d > 1000000")
    case True
    then show ?thesis using big by (simp add: igmp_refill_def refilled_def)
  next
    case False
    then have d: "unat (ucast diffUs :: u32) = ?d" by (simp add: unsigned_ucast_eq take_bit_nat_eq_self)
    have t: "unat ?t = ?d div rate_gap br" by (simp add: unat_div d rate_gap_def)
    have b: "unat (b_igmp_rate_bucket br) \<le> 1000000"
      using ok(1) l(2) by (simp add: rate_ok_def word_le_nat_alt unat_burst)
    have tU: "unat ?t * rate_gap br \<le> ?d" unfolding t by simp
    have t': "unat ?t \<le> ?d" using tU U0(1) t by simp
    have m: "unat (?t * ?U) = unat ?t * rate_gap br"
      using tU False by (simp add: unat_mult_lem [THEN iffD1] U)
    have s: "unat (b_igmp_rate_bucket br + ?t) = unat (b_igmp_rate_bucket br) + unat ?t"
      using b t' False by (subst unat_add_lem [THEN iffD1]) auto
    have mu: "unat (ucast (?t * ?U) :: u64) = unat ?t * rate_gap br"
      using m tU False by (simp add: unsigned_ucast_eq take_bit_nat_eq_self)
    have dm: "?d - ?d div rate_gap br * rate_gap br = ?d mod rate_gap br" by (simp add: minus_div_mult_eq_mod)
    have "unat (diffUs - ucast (?t * ?U)) = ?d mod rate_gap br"
      using mu tU dm by (subst unat_sub) (simp_all add: word_le_nat_alt t)
    moreover have "?d mod rate_gap br \<le> 1000000" using U0 by (meson le_trans mod_less_divisor less_imp_le)
    ultimately have r: "unat (ucast (diffUs - ucast (?t * ?U)) :: u32) = ?d mod rate_gap br"
      by (simp add: unsigned_ucast_eq take_bit_nat_eq_self)
    have t0: "?t = 0 \<longleftrightarrow> ?d < rate_gap br" using t U0 by (simp add: unat_eq_0 [symmetric] div_eq_0_iff)
    have "?U \<noteq> 0" using U U0 by (simp add: unat_gt_0 [symmetric])
    then show ?thesis
      using False big r t0 s t unfolding igmp_refill_def Let_def by (auto simp: refilled_def)
  qed
qed


lemma same_limit:
  "b_igmp_rate_limit br' = b_igmp_rate_limit br \<Longrightarrow> igmp_burst_limit br' = igmp_burst_limit br \<and> rate_gap br' = rate_gap br"
  by (simp add: igmp_burst_limit_def rate_gap_def)

lemma igmp_clamp_fields [simp]:
  "b_igmp_rate_limit (igmp_clamp br) = b_igmp_rate_limit br" "rate_gap (igmp_clamp br) = rate_gap br"
  "b_igmp_rate_last_packet (igmp_clamp br) = b_igmp_rate_last_packet br" "igmp_burst_limit (igmp_clamp br) = igmp_burst_limit br"
  "b_igmp_rate_bucket (igmp_clamp br) \<le> igmp_burst_limit br"
  by (simp_all add: igmp_clamp_def rate_gap_def igmp_burst_limit_def not_less)

text \<open>Neither filling nor clamping makes credit: it grows by the time that passed at most.\<close>

lemma clamp_credit:
  assumes f: "refilled d br br1" and l: "b_igmp_rate_limit br \<noteq> 0" and d: "unat (b_igmp_rate_rem_time br) \<le> d"
  shows "rate_credit (igmp_clamp br1) \<le> unat (b_igmp_rate_bucket br) * rate_gap br + d"
proof -
  let ?B = "unat (igmp_burst_limit br)" and ?b = "unat (b_igmp_rate_bucket br)" and ?U = "rate_gap br"
  have same: "igmp_burst_limit br1 = igmp_burst_limit br" "rate_gap br1 = ?U"
    using same_limit [of br1 br] f by (simp_all add: refilled_def)
  show ?thesis
  proof (cases "b_igmp_rate_bucket br1 > igmp_burst_limit br \<or> d > 1000000")
    case True
    then have "rate_credit (igmp_clamp br1) = ?B * ?U"
      using f same by (auto simp: rate_credit_def igmp_clamp_def refilled_def rate_gap_def)
    moreover have "?B * ?U \<le> ?b * ?U + d"
    proof (cases "d > 1000000")
      case True
      then show ?thesis using burst_gap [OF l] by simp
    next
      case False
      then have "?B \<le> ?b + d div ?U" using True f by (simp add: word_less_nat_alt refilled_def)
      then have "?B * ?U \<le> (?b + d div ?U) * ?U" by (rule mult_le_mono1)
      also have "\<dots> \<le> ?b * ?U + d" by (simp add: add_mult_distrib)
      finally show ?thesis .
    qed
    ultimately show ?thesis by simp
  next
    case False
    then have "rate_credit (igmp_clamp br1) = (?b + d div ?U) * ?U
        + (if d < ?U then unat (b_igmp_rate_rem_time br) else d mod ?U)"
      using f same by (simp add: rate_credit_def igmp_clamp_def refilled_def)
    then show ?thesis using d by (simp add: add_mult_distrib)
  qed
qed

lemma rate_credit_cong:
  "b_igmp_rate_bucket br' = b_igmp_rate_bucket br \<Longrightarrow> b_igmp_rate_rem_time br' = b_igmp_rate_rem_time br
    \<Longrightarrow> b_igmp_rate_limit br' = b_igmp_rate_limit br \<Longrightarrow> rate_credit br' = rate_credit br"
  by (simp add: rate_credit_def rate_gap_def)

definition rate_step :: "int \<Rightarrow> net_bridge \<Rightarrow> bool \<Rightarrow> net_bridge \<Rightarrow> bool" where
  "rate_step t br dropped br' \<longleftrightarrow> rate_ok br' \<and> b_igmp_rate_limit br' = b_igmp_rate_limit br
     \<and> (if dropped then b_igmp_rate_last_packet br' = b_igmp_rate_last_packet br \<and> rate_credit br' = rate_credit br
        else b_igmp_rate_last_packet br' = t
          \<and> rate_credit br' + rate_gap br \<le> rate_credit br + nat ((t - b_igmp_rate_last_packet br) div 1000))"

definition rate_take :: "int \<Rightarrow> net_bridge \<Rightarrow> net_bridge" where
  "rate_take t br = br\<lparr>b_igmp_rate_bucket := b_igmp_rate_bucket br - 1, b_igmp_rate_last_packet := t\<rparr>"

lemma rate_take:
  assumes "b_igmp_rate_bucket br \<noteq> 0" "b_igmp_rate_bucket br \<le> igmp_burst_limit br" "unat (b_igmp_rate_limit br) \<le> 1000000"
  shows "rate_credit (rate_take t br) + rate_gap br = rate_credit br" "rate_ok (rate_take t br)"
proof -
  have u: "unat (b_igmp_rate_bucket br - 1) = unat (b_igmp_rate_bucket br) - 1" "0 < unat (b_igmp_rate_bucket br)"
    using assms by (simp_all add: unat_minus_one unat_gt_0)
  then show "rate_credit (rate_take t br) + rate_gap br = rate_credit br"
    by (cases "unat (b_igmp_rate_bucket br)") (simp_all add: rate_take_def rate_credit_def rate_gap_def)
  show "rate_ok (rate_take t br)"
    using u assms by (simp add: rate_ok_def rate_take_def igmp_burst_limit_def word_le_nat_alt Let_def)
qed

lemma igmp_rate_check_runs:
  assumes ok: "rate_ok br" "b_igmp_rate_limit br \<noteq> 0"
    and t: "0 \<le> b_igmp_rate_last_packet br" "b_igmp_rate_last_packet br \<le> t" "t < 2 ^ 63"
  shows "runs (igmp_rate_check t br) (\<lambda>(dropped, br'). rate_step t br dropped br')"
proof -
  let ?d = "ktime_us_delta t (b_igmp_rate_last_packet br) + ucast (b_igmp_rate_rem_time br)"
  have d: "unat ?d = nat ((t - b_igmp_rate_last_packet br) div 1000) + unat (b_igmp_rate_rem_time br)"
    by (rule unat_elapsed [OF t])
  show ?thesis
    unfolding igmp_rate_check_def
  proof (simp add: ok(2), rule runs_mono [OF igmp_refill_runs [OF ok, of ?d]], goal_cases)
    case (1 br1)
    have lim: "b_igmp_rate_limit br1 = b_igmp_rate_limit br" "b_igmp_rate_last_packet br1 = b_igmp_rate_last_packet br"
      "unat (b_igmp_rate_limit br) \<le> 1000000" using 1 ok(1) by (simp_all add: rate_ok_def refilled_def)
    have same: "igmp_burst_limit br1 = igmp_burst_limit br" "rate_gap br1 = rate_gap br"
      using same_limit [OF lim(1)] by simp_all
    show ?case
    proof (cases "b_igmp_rate_bucket (igmp_clamp br1) = 0")
      case True
      have "unat (igmp_burst_limit br) \<noteq> 0" by (simp add: unat_burst)
      with True have z: "igmp_clamp br1 = br1" "unat (b_igmp_rate_bucket br1) = 0" "\<not> unat ?d > 1000000"
        using 1 same by (auto simp: igmp_clamp_def refilled_def split: if_splits)
      then have "unat (b_igmp_rate_bucket br) = 0" "unat ?d < rate_gap br"
        using 1 rate_gap_pos [OF ok] by (simp_all add: refilled_def div_eq_0_iff)
      then have "b_igmp_rate_bucket br1 = b_igmp_rate_bucket br" "b_igmp_rate_rem_time br1 = b_igmp_rate_rem_time br"
        using 1 z by (simp_all add: refilled_def word_unat_eq_iff)
      then show ?thesis
        using z True ok(1) lim same rate_credit_cong [of br1 br] by (auto simp: rate_step_def rate_ok_def Let_def)
    next
      case False
      then have "rate_credit (rate_take t (igmp_clamp br1)) + rate_gap br = rate_credit (igmp_clamp br1)"
          "rate_ok (rate_take t (igmp_clamp br1))"
        using rate_take [of "igmp_clamp br1" t] igmp_clamp_fields(5) [of br1] same lim by simp_all
      with False clamp_credit [OF 1 ok(2)] d same lim show ?thesis
        by (auto simp: rate_step_def rate_take_def rate_credit_def [of br] Let_def)
    qed
  qed
qed


text \<open>The messages of a sequence of arrival times that pass, and the state afterwards.\<close>

primrec igmp_rate_run :: "int list \<Rightarrow> net_bridge \<Rightarrow> (nat \<times> net_bridge) option" where
  "igmp_rate_run [] br = Some (0, br)"
| "igmp_rate_run (t # ts) br = do {
     (dropped, br) \<leftarrow> igmp_rate_check t br;
     (k, br) \<leftarrow> igmp_rate_run ts br;
     Some (if dropped then k else Suc k, br)
   }"

lemma igmp_rate_run_credit:
  assumes "rate_ok br" "b_igmp_rate_limit br \<noteq> 0" "0 \<le> b_igmp_rate_last_packet br"
    "sorted (b_igmp_rate_last_packet br # ts)" "\<forall>t \<in> set ts. t < 2 ^ 63"
  shows "runs (igmp_rate_run ts br) (\<lambda>(k, br'). k * rate_gap br + rate_credit br'
        \<le> rate_credit br + nat ((last (b_igmp_rate_last_packet br # ts) - b_igmp_rate_last_packet br) div 1000))"
  using assms
proof (induction ts arbitrary: br)
  case Nil
  then show ?case by simp
next
  case (Cons t ts)
  let ?s = "b_igmp_rate_last_packet br" and ?l = "last (t # ts)"
  have t: "?s \<le> t" "t < 2 ^ 63" "sorted (?s # ts)" "sorted (t # ts)" using Cons.prems by auto
  have tl: "t \<le> ?l" using t(4) by (cases ts) auto
  note step = igmp_rate_check_runs [OF Cons.prems(1-3) t(1,2)]
  show ?case
    unfolding igmp_rate_run.simps runs_bind
  proof (rule runs_mono [OF step], goal_cases)
    case (1 x)
    obtain dropped br1 where x: "x = (dropped, br1)" by (cases x)
    have st: "rate_step t br dropped br1" using 1 by (simp add: x)
    let ?s1 = "b_igmp_rate_last_packet br1"
    have s1: "?s1 = (if dropped then ?s else t)" "rate_gap br1 = rate_gap br" "b_igmp_rate_limit br1 \<noteq> 0" "rate_ok br1"
      using st same_limit [of br1 br] Cons.prems(2) by (auto simp: rate_step_def)
    have "runs (igmp_rate_run ts br1) (\<lambda>(k, br'). k * rate_gap br1 + rate_credit br'
        \<le> rate_credit br1 + nat ((last (?s1 # ts) - ?s1) div 1000))"
      using s1 t Cons.prems by (intro Cons.IH) auto
    then show ?case unfolding x prod.case runs_bind
    proof (rule runs_mono, goal_cases)
      case (1 y)
      obtain k br2 where y: "y = (k, br2)" by (cases y)
      have k: "k * rate_gap br + rate_credit br2 \<le> rate_credit br1 + nat ((last (?s1 # ts) - ?s1) div 1000)"
        using 1 s1(2) by (simp add: y)
      have "last (?s1 # ts) \<le> ?l" using t(1) s1(1) by (cases ts) auto
      then have m: "nat ((last (?s1 # ts) - ?s1) div 1000) \<le> nat ((?l - ?s1) div 1000)"
        by (simp add: nat_mono zdiv_mono1)
      note m = order_trans [OF k add_left_mono [OF m]]
      have a: "nat ((?l - t) div 1000) + nat ((t - ?s) div 1000) \<le> nat ((?l - ?s) div 1000)"
        using t(1) tl by (simp add: nat_add_distrib [symmetric])
      have "(if dropped then k else Suc k) * rate_gap br + rate_credit br2 \<le> rate_credit br + nat ((?l - ?s) div 1000)"
      proof (cases dropped)
        case True
        then have "rate_credit br1 = rate_credit br" "?s1 = ?s" using st by (simp_all add: rate_step_def)
        with True m show ?thesis by (simp only: if_True)
      next
        case False
        then have "rate_credit br1 + rate_gap br \<le> rate_credit br + nat ((t - ?s) div 1000)" "?s1 = t"
          using st by (simp_all add: rate_step_def)
        with m a have "k * rate_gap br + rate_gap br + rate_credit br2 \<le> rate_credit br + nat ((?l - ?s) div 1000)"
          by (simp only:)
        with False show ?thesis by (simp only: if_False mult_Suc add.commute add.left_commute)
      qed
      then show ?case by (simp add: y)
    qed
  qed
qed

section \<open>Nothing else changes\<close>

definition rate_core :: "net_bridge \<Rightarrow> net_bridge" where
  "rate_core br = br\<lparr>b_igmp_rate_bucket := 0, b_igmp_rate_rem_time := 0, b_igmp_rate_last_packet := 0\<rparr>"

definition rate_only :: "net_bridge \<Rightarrow> net_bridge \<Rightarrow> bool" where
  "rate_only br br' \<longleftrightarrow> rate_core br' = rate_core br"

lemma rate_only_refl: "rate_only br br"
  by (simp add: rate_only_def)

lemma rate_only_upds:
  assumes "rate_only br br'"
  shows "rate_only br (br'\<lparr>b_igmp_rate_bucket := b\<rparr>)" "rate_only br (br'\<lparr>b_igmp_rate_rem_time := r\<rparr>)"
    "rate_only br (br'\<lparr>b_igmp_rate_last_packet := t\<rparr>)"
  using assms by (simp_all add: rate_only_def rate_core_def)

lemma rate_onlyD:
  assumes "rate_only br br'"
  shows "br' = br\<lparr>b_igmp_rate_limit := b_igmp_rate_limit br', b_igmp_rate_bucket := b_igmp_rate_bucket br',
     b_igmp_rate_rem_time := b_igmp_rate_rem_time br', b_igmp_rate_last_packet := b_igmp_rate_last_packet br'\<rparr>"
proof -
  let ?put = "\<lambda>s. s\<lparr>b_igmp_rate_limit := b_igmp_rate_limit br', b_igmp_rate_bucket := b_igmp_rate_bucket br',
     b_igmp_rate_rem_time := b_igmp_rate_rem_time br', b_igmp_rate_last_packet := b_igmp_rate_last_packet br'\<rparr>"
  have "?put (rate_core br') = ?put (rate_core br)" using assms by (simp only: rate_only_def)
  then show ?thesis by (simp add: rate_core_def)
qed

lemma igmp_refill_only: "igmp_refill d u br = Some br' \<Longrightarrow> rate_only br br'"
  using rate_only_refl [of br]
  by (auto simp: igmp_refill_def Let_def intro!: rate_only_upds split: if_splits)

lemma igmp_rate_check_only: "igmp_rate_check t br = Some (dropped, br') \<Longrightarrow> rate_only br br'"
  using rate_only_refl [of br] igmp_refill_only [of _ _ br]
  by (auto simp: igmp_rate_check_def igmp_clamp_def Let_def bind_eq_Some_conv intro!: rate_only_upds split: if_splits)

lemma rate_wf_ok: "rate_wf br \<Longrightarrow> rate_ok br"
  by (simp add: rate_wf_def rate_ok_def word_le_nat_alt unat_burst)

text \<open>With a limit the ioctl accepts, the check neither divides by zero nor overfills the bucket, whatever
  the clock says.\<close>

lemma igmp_rate_check_wf:
  assumes "rate_wf br"
  shows "runs (igmp_rate_check t br) (\<lambda>(dropped, br'). rate_wf br')"
proof (cases "b_igmp_rate_limit br = 0")
  case True
  then show ?thesis using assms by (simp add: igmp_rate_check_def)
next
  case False
  show ?thesis
    unfolding igmp_rate_check_def
  proof (simp add: False, rule runs_mono [OF igmp_refill_runs [OF rate_wf_ok [OF assms] False]], goal_cases)
    case (1 br1)
    have l: "b_igmp_rate_limit br1 = b_igmp_rate_limit br" using 1 by (simp add: refilled_def)
    have "b_igmp_rate_bucket (igmp_clamp br1) \<le> igmp_burst_limit br1" by simp
    then have b: "unat (b_igmp_rate_bucket (igmp_clamp br1)) \<le> max 1 (unat (b_igmp_rate_limit br) div 4)"
      unfolding word_le_nat_alt unat_burst l .
    then have "rate_wf (igmp_clamp br1)" using assms l by (simp add: rate_wf_def)
    moreover have "rate_wf ((igmp_clamp br1)\<lparr>b_igmp_rate_bucket := b_igmp_rate_bucket (igmp_clamp br1) - 1, b_igmp_rate_last_packet := t\<rparr>)"
      if "b_igmp_rate_bucket (igmp_clamp br1) \<noteq> 0"
      using b assms l that by (simp add: rate_wf_def unat_minus_one)
    ultimately show ?case by (simp add: Let_def)
  qed
qed

section \<open>The bound\<close>

text \<open>C11: Over any sequence of arrivals, the rate limit lets through no more IGMP messages than the
  tokens that were there and those the time since brought: with \<open>k\<close> messages through, \<open>k\<close> times
  the gap of \<open>1000000 div limit\<close> microseconds is at most the credit at the start and the time from
  the last message that went through before to the last arrival. The 32-bit and 64-bit
  arithmetic does not wrap and nothing is divided by zero as long as the limit is one the ioctl
  accepts and the clock has not run backwards.\<close>

theorem igmp_rate_bound:
  assumes "rate_wf br" "b_igmp_rate_limit br \<noteq> 0" "0 \<le> b_igmp_rate_last_packet br"
    "sorted (b_igmp_rate_last_packet br # ts)" "\<forall>t \<in> set ts. t < 2 ^ 63"
  shows "runs (igmp_rate_run ts br) (\<lambda>(k, br').
      k * (1000000 div unat (b_igmp_rate_limit br))
    \<le> unat (b_igmp_rate_bucket br) * (1000000 div unat (b_igmp_rate_limit br)) + unat (b_igmp_rate_rem_time br)
      + nat ((last (b_igmp_rate_last_packet br # ts) - b_igmp_rate_last_packet br) div 1000))"
  by (rule runs_mono [OF igmp_rate_run_credit [OF rate_wf_ok [OF assms(1)] assms(2-5)]])
    (auto simp: rate_gap_def rate_credit_def)

text \<open>Ten messages within a millisecond against a limit of eight per second: only the two tokens of
  the burst and none more.\<close>

theorem igmp_rate_bound_witness:
  "runs (igmp_rate_run (replicate 10 1000000) (example_bridge\<lparr>b_igmp_rate_limit := 8, b_igmp_rate_bucket := 2\<rparr>)) (\<lambda>(k, br').
      k * 125000 \<le> 251000)"
  by (rule runs_mono [OF igmp_rate_bound]) (auto simp: rate_wf_def example_bridge_def)

end
