(* ===== verification/Input_Inv.thy ===== *)
theory Input_Inv
  imports Igmp_Rate
begin

text \<open>
  A frame that enters the bridge keeps its invariants and does not fault, whatever path it takes.
  The conditions are those the code relies on: the header fields the snooping code reads are in
  the frame, device paths end, and the source address is not one of the bridge device itself.
\<close>

section \<open>What a frame leaves as it is\<close>

text \<open>An address whose entry, if there is one, names a port.\<close>

definition ported :: "net_bridge \<Rightarrow> mac_addr \<Rightarrow> bool" where
  "ported br a \<longleftrightarrow> (\<forall>f. fdb_lookup br a = Some f \<longrightarrow> f_dst f \<noteq> None)"

definition frame_kept :: "net_bridge \<Rightarrow> net_bridge \<Rightarrow> bool" where
  "frame_kept br br' \<longleftrightarrow> if_wf br' \<and> port_nos br' = port_nos br
     \<and> map p_dev (b_port_list br') = map p_dev (b_port_list br) \<and> (\<forall>a. ported br a \<longrightarrow> ported br' a)"

lemma frame_kept_refl: "if_wf br \<Longrightarrow> frame_kept br br"
  by (simp add: frame_kept_def)

lemma frame_kept_trans [trans]: "frame_kept a b \<Longrightarrow> frame_kept b c \<Longrightarrow> frame_kept a c"
  by (simp add: frame_kept_def)

lemma frame_kept_wf: "frame_kept br br' \<Longrightarrow> if_wf br'"
  by (simp add: frame_kept_def)

lemma frame_kept_cong:
  assumes "if_wf br" "port_nos br' = port_nos br" "map p_dev (b_port_list br') = map p_dev (b_port_list br)"
    "fdb_lookup br' = fdb_lookup br" "br_wf br'"
  shows "frame_kept br br'"
  using assms if_wf_cong [OF assms(5,2) if_idxs_dev [OF assms(3)] assms(1)] by (simp add: frame_kept_def ported_def)

lemma ported_cong: "b_hash br' = b_hash br \<Longrightarrow> b_fdb_salt br' = b_fdb_salt br \<Longrightarrow> ported br' a = ported br a"
  using fdb_lookup_cong [of br' br] by (simp add: ported_def)

lemma ported_upds [simp]:
  "ported (br\<lparr>b_out := fx\<rparr>) a = ported br a" "ported (emit e br) a = ported br a"
  "ported (br\<lparr>b_igmp_delayed_skb := ds\<rparr>) a = ported br a" "ported (br\<lparr>b_igmp_timer := t\<rparr>) a = ported br a"
  by (rule ported_cong; simp)+

lemma frame_kept_upds [simp]:
  "frame_kept br (br'\<lparr>b_out := fx\<rparr>) = frame_kept br br'" "frame_kept br (emit e br') = frame_kept br br'"
  "frame_kept br (br'\<lparr>b_igmp_delayed_skb := ds\<rparr>) = frame_kept br br'"
  "frame_kept br (br'\<lparr>b_igmp_timer := t\<rparr>) = frame_kept br br'"
  by (simp_all add: frame_kept_def, simp_all add: port_nos_def)

lemma frame_kept_set_timer [simp]: "frame_kept br (br_igmp_set_timer br') = frame_kept br br'"
  by (simp add: br_igmp_set_timer_def Let_def split: prod.split)

lemma frame_kept_ports:
  assumes "if_wf br" "map p_port_no ps = port_nos br" "map p_dev ps = map p_dev (b_port_list br)"
  shows "frame_kept br (br\<lparr>b_port_list := ps\<rparr>)"
proof (rule frame_kept_cong [OF assms(1)])
  show n: "port_nos (br\<lparr>b_port_list := ps\<rparr>) = port_nos br" using assms(2) by (simp add: port_nos_def)
  show "br_wf (br\<lparr>b_port_list := ps\<rparr>)" using assms(1) n br_wf_cong [of "br\<lparr>b_port_list := ps\<rparr>" br] by (simp add: if_wf_def)
qed (use assms(3) in \<open>auto intro: fdb_lookup_cong\<close>)

lemma frame_kept_dirty:
  assumes "frame_kept br br'"
  shows "frame_kept br (upd_port n (\<lambda>p. p\<lparr>p_dirty := d\<rparr>) br')" "frame_kept br (clear_dirty br')"
proof -
  have w: "if_wf br'" using assms by (rule frame_kept_wf)
  show "frame_kept br (upd_port n (\<lambda>p. p\<lparr>p_dirty := d\<rparr>) br')"
    unfolding upd_port_def by (rule frame_kept_trans [OF assms frame_kept_ports [OF w]]) (simp_all add: port_nos_def)
  show "frame_kept br (clear_dirty br')"
    unfolding clear_dirty_def by (rule frame_kept_trans [OF assms frame_kept_ports [OF w]]) (simp_all add: port_nos_def comp_def)
qed

lemma frame_kept_fdb:
  assumes "if_wf br" "fdb_wf br'" "fdb_core br' = fdb_core br" "\<And>a. ported br a \<Longrightarrow> ported br' a"
  shows "frame_kept br br'"
  using assms if_wf_fdb [OF assms(1-3)] fdb_core_eqD(1) [OF assms(3)] by (simp add: frame_kept_def port_nos_def)

lemma br_fdb_get_kept:
  assumes "if_wf br"
  shows "frame_kept br (snd (br_fdb_get env a br))"
proof -
  have f: "fdb_wf br" "fdb_table br" using assms by (simp_all add: if_wf_def br_wf_def fdb_wf_def)
  have "fdb_lookup (snd (br_fdb_get env a br)) = (fdb_lookup br)(a := map_option (blog_refresh env) (fdb_lookup br a))"
    using br_fdb_get_becomes(2) [OF f(2)] by (simp add: fdb_becomes_def)
  moreover have "f_dst (blog_refresh env f) = f_dst f" for f by (simp add: blog_refresh_def split: option.split)
  ultimately show ?thesis
    using br_fdb_get_wf [OF f(1)] by (intro frame_kept_fdb [OF assms]) (auto simp: ported_def)
qed

lemma br_fdb_get_entry:
  assumes "if_wf br" "fst (br_fdb_get env a br) = Some f"
  shows "f_addr f = a" "f_dst f = None \<Longrightarrow> f_is_local f" "f_dst f = Some n \<Longrightarrow> n \<in> set (port_nos br)"
    "ported br a \<Longrightarrow> f_dst f \<noteq> None"
proof -
  have w: "fdb_wf br" "fdb_table br" using assms by (simp_all add: if_wf_def br_wf_def fdb_wf_def)
  obtain g where g: "fdb_lookup br a = Some g" "f = blog_refresh env g"
    using assms(2) br_fdb_get_becomes(1) [OF w(2), of env a] by (auto simp: bind_eq_Some_conv split: if_splits)
  have s: "f_dst f = f_dst g" "f_is_local f = f_is_local g" "f_addr f = f_addr g"
    by (simp_all add: g(2) blog_refresh_def split: option.split)
  have ok: "entry_ok br g" using w(1) g(1) by (simp add: fdb_wf_def)
  show "f_addr f = a" using s fdb_lookup_addr [OF g(1)] by simp
  show "f_dst f = None \<Longrightarrow> f_is_local f" "f_dst f = Some n \<Longrightarrow> n \<in> set (port_nos br)"
    using ok s by (auto simp: entry_ok_def)
  show "ported br a \<Longrightarrow> f_dst f \<noteq> None" using s g(1) by (simp add: ported_def)
qed

lemma br_fdb_update_kept:
  assumes wf: "if_wf br" and n: "n \<in> set (port_nos br)"
  shows "runs (br_fdb_update env n a br) (frame_kept br)"
proof -
  have w: "fdb_wf br" "stp_wf br" "br_wf br" using wf by (simp_all add: if_wf_def br_wf_def)
  obtain p where p: "br_get_port br n = Some p" using br_get_port_ex [OF n] by blast
  let ?learns = "p_state p = BR_STATE_LEARNING \<or> p_state p = BR_STATE_FORWARDING"
  consider "hold_time br = 0 \<or> \<not> ?learns"
    | f where "hold_time br \<noteq> 0" ?learns "fdb_lookup br a = Some f" "f_is_local f"
    | "hold_time br \<noteq> 0" ?learns "\<forall>f. fdb_lookup br a = Some f \<longrightarrow> \<not> f_is_local f"
    by blast
  then show ?thesis
  proof cases
    case 1
    then show ?thesis using frame_kept_refl [OF wf] p by (auto simp: br_fdb_update_def)
  next
    case 2
    have keep: "frame_kept br br'" if c: "bridge_core br' = bridge_core br" for br'
      using br_wf_core [OF w(3) c] stp_frameD(4,7) [OF stp_frame_core [OF c]] stp_frame_lookup [OF stp_frame_core [OF c]]
      by (intro frame_kept_cong [OF wf]) simp_all
    have "runs (br_make_blocking n br) (frame_kept br)"
      by (rule runs_mono [OF br_make_blocking_runs [OF w(2) n]]) (simp add: keep)
    then have "runs (fdb_local_source env n br) (frame_kept br)"
      using frame_kept_refl [OF wf] p by (auto simp: fdb_local_source_def br_loopback_detected_def)
    with 2 p show ?thesis by (auto simp: br_fdb_update_def fdb_find_rcu_lookup)
  next
    case 3
    show ?thesis
    proof (rule runs_mono [OF br_fdb_update_runs [OF w(1) p 3(2,1,3)]])
      fix br' assume b: "fdb_becomes br (spec_learn env n a br (fdb_lookup br)) br'"
      then have "ported br c \<Longrightarrow> ported br' c" for c
        by (auto simp: fdb_becomes_def ported_def spec_learn_def new_entry_def split: option.splits if_splits)
      then show "frame_kept br br'"
        using spec_learn_wf [OF w(1) b n] b by (intro frame_kept_fdb [OF wf]) (simp_all add: fdb_becomes_def)
    qed
  qed
qed

section \<open>Sending\<close>

definition frame_ok :: "br_env \<Rightarrow> sk_buff \<Rightarrow> net_bridge \<Rightarrow> bool" where
  "frame_ok env skb br \<longleftrightarrow> hdrs_in_frame skb \<and> path_ends env (skb_dev skb)
     \<and> (\<forall>d \<in> p_dev ` set (b_port_list br). path_ends env d)"

lemma frame_ok_kept: "frame_kept br br' \<Longrightarrow> frame_ok env skb br' = frame_ok env skb br"
  unfolding frame_ok_def frame_kept_def by (metis list.set_map)

lemma frame_ok_delivers: "frame_ok env skb br \<Longrightarrow> p \<in> set (b_port_list br) \<Longrightarrow> should_deliver env br p skb \<noteq> None"
  by (rule should_deliver_runs) (simp_all add: frame_ok_def)

lemma deliver_clone_kept: "frame_kept br br' \<Longrightarrow> frame_kept br (snd (deliver_clone env hook p skb br'))"
  by (simp add: deliver_clone_def)

lemma port_delivers:
  assumes "frame_ok env skb br" "n \<in> set (port_nos br)"
  shows "\<exists>p ok. br_get_port br n = Some p \<and> should_deliver env br p skb = Some ok"
proof -
  obtain p where p: "br_get_port br n = Some p" using br_get_port_ex [OF assms(2)] by blast
  then show ?thesis using frame_ok_delivers [OF assms(1)] br_get_port_SomeD [OF p] by blast
qed

lemma br_forward_kept:
  assumes "if_wf br" "frame_ok env skb br" "n \<in> set (port_nos br)"
  shows "runs (br_forward env (Some n) skb skb0 br) (frame_kept br)"
  using port_delivers [OF assms(2,3)] frame_kept_refl [OF assms(1)]
  by (auto simp: br_forward_def deliver_clone_kept)

lemma br_deliver_kept:
  assumes "if_wf br" "frame_ok env skb br" "\<And>n. to = Some n \<Longrightarrow> n \<in> set (port_nos br)"
  shows "runs (br_deliver env to skb br) (frame_kept br)"
proof (cases to)
  case (Some n)
  obtain p ok where "br_get_port br n = Some p" "should_deliver env br p skb = Some ok"
    using port_delivers [OF assms(2) assms(3) [OF Some]] by blast
  then show ?thesis using frame_kept_refl [OF assms(1)] by (simp add: br_deliver_def Some)
qed (simp add: br_deliver_def frame_kept_refl [OF assms(1)])

lemma br_flood_kept:
  assumes "if_wf br" "frame_ok env skb br"
  shows "runs (br_flood env skb skb0 hook br) (frame_kept br)"
  using flood_ports_eq [of "b_port_list br" env br skb hook None] frame_ok_delivers [OF assms(2)] frame_kept_refl [OF assms(1)]
  by (auto simp: br_flood_def Let_def emits_def deliver_clone_kept)

section \<open>Multicast snooping\<close>

lemma mc_copy_kept:
  assumes "if_wf br" "frame_ok env skb br" "n \<in> set (port_nos br)"
  shows "runs (mc_copy env skb forward n br) (\<lambda>(ok, br'). frame_kept br br')"
proof -
  obtain p where p: "br_get_port br n = Some p" using br_get_port_ex [OF assms(3)] by blast
  have "runs (if forward then br_forward env (Some n) skb False br else br_deliver env (Some n) skb br)
      (\<lambda>br'. frame_kept br (upd_port n (\<lambda>p. p\<lparr>p_dirty := True\<rparr>) br'))"
    using br_forward_kept [OF assms, of False] br_deliver_kept [OF assms(1,2), of "Some n"] assms(3)
    by (auto elim!: runs_mono intro: frame_kept_dirty)
  then show ?thesis
    using p frame_kept_refl [OF assms(1)] frame_kept_dirty(1) [OF frame_kept_refl [OF assms(1)]]
    unfolding mc_copy_def by auto
qed

lemma mc_excluded_ex: "pip + 30 \<le> length (skb_data skb) \<Longrightarrow> mc_excluded skb pip e \<noteq> None"
  by (auto simp: mc_excluded_def hdr16_def)

lemma mc_forward_loop_kept:
  assumes k: "frame_kept br0 br" and ok: "frame_ok env skb br0" and pip: "pip + 30 \<le> length (skb_data skb)"
    and es: "\<forall>e \<in> set es. mc_dst e \<in> set (port_nos br0)"
  shows "runs (mc_forward_loop env skb forward is_routed pip saddr daddr es status br) (\<lambda>(r, br'). frame_kept br0 br')"
  using k es
proof (induction es arbitrary: status br)
  case Nil
  then show ?case by simp
next
  case (Cons e es)
  have ok': "frame_ok env skb br" "if_wf br" "mc_dst e \<in> set (port_nos br)"
    using Cons.prems ok frame_ok_kept by (auto simp: frame_kept_def)
  obtain x where x: "mc_excluded skb pip e = Some x" using mc_excluded_ex [OF pip, of e] by auto
  have "runs (Option.bind (mc_copy env skb forward (mc_dst e) br) (\<lambda>(ok, br).
      if ok then mc_forward_loop env skb forward is_routed pip saddr daddr es 1 br else Some (Inl 0, br)))
    (\<lambda>(r, br'). frame_kept br0 br')"
    unfolding runs_bind
  proof (rule runs_mono [OF mc_copy_kept [OF ok'(2,1,3)]], goal_cases)
    case (1 y)
    then show ?case using frame_kept_trans [OF Cons.prems(1)] Cons.IH Cons.prems(2) by (cases y) auto
  qed
  then show ?case using Cons x by auto
qed

lemma hdrs_ok:
  assumes "hdrs_in_frame skb"
  obtains pip pigmp lanppp where "br_igmp_get_ip_igmp_hdrs skb = Some (pip, pigmp, lanppp)"
    "\<forall>i. pip = Some i \<longrightarrow> i + 30 \<le> length (skb_data skb)" "\<forall>i. pigmp = Some i \<longrightarrow> i < length (skb_data skb)"
  using assms by (auto simp: hdrs_in_frame_def runs_iff_ex)

lemma igmp_message_kept:
  assumes "if_wf br" "hdrs_in_frame skb" "i < length (skb_data skb)"
  shows "runs (igmp_message env skb i br) (\<lambda>(r, br'). frame_kept br br')"
proof -
  obtain pip pigmp lanppp where h: "br_igmp_get_ip_igmp_hdrs skb = Some (pip, pigmp, lanppp)" using hdrs_ok [OF assms(2)] .
  have "runs (mcpd_process_skb env skb br) (\<lambda>(r, br'). frame_kept br br')"
    if "port_by_ifindex (dev_ifindex (skb_dev skb)) br = Some p" for p
    using frame_kept_refl [OF assms(1)] by (simp add: mcpd_process_skb_def h that split: option.split)
  then show ?thesis
    using assms(3) frame_kept_refl [OF assms(1)]
    by (auto simp: igmp_message_def elim!: runs_mono split: option.splits)
qed

lemma br_igmp_mc_forward_kept:
  assumes wf: "if_wf br" and ok: "frame_ok env skb br"
  shows "runs (br_igmp_mc_forward env skb forward is_routed br) (\<lambda>(r, br'). frame_kept br br')"
proof -
  have h: "hdrs_in_frame skb" using ok by (simp add: frame_ok_def)
  obtain pip pigmp lanppp where hd: "br_igmp_get_ip_igmp_hdrs skb = Some (pip, pigmp, lanppp)"
    "\<forall>i. pip = Some i \<longrightarrow> i + 30 \<le> length (skb_data skb)" "\<forall>i. pigmp = Some i \<longrightarrow> i < length (skb_data skb)"
    by (rule hdrs_ok [OF h])
  note refl = frame_kept_refl [OF wf]
  show ?thesis
  proof (cases pip)
    case None
    then show ?thesis by (simp add: br_igmp_mc_forward_def hd(1) refl)
  next
    case (Some i)
    obtain d where d: "hdr32 skb (i + 16) = Some d" using hdr32_ex [of "i + 16" skb] hd(2) [rule_format, OF Some] by auto
    obtain s where s: "hdr32 skb (i + 12) = Some s" using hdr32_ex [of "i + 12" skb] hd(2) [rule_format, OF Some] by auto
    have es: "\<forall>e \<in> set (b_mc_hash br j). mc_dst e \<in> set (port_nos br)" for j
      using wf by (simp add: if_wf_def br_wf_def mc_wf_def mc_entry_ok_def)
    note loop = mc_forward_loop_kept [OF refl ok hd(2) [rule_format, OF Some] es]
    have m: "pigmp = Some j \<Longrightarrow> runs (igmp_message env skb j br) (\<lambda>(r, br'). frame_kept br br')" for j
      by (rule igmp_message_kept [OF wf h hd(3) [rule_format]])
    have "runs (Option.bind (mc_forward_loop env skb forward is_routed i s d (b_mc_hash br j) st br) (\<lambda>(r, br).
        Some (case r of Inl r \<Rightarrow> (r, br)
          | Inr status \<Rightarrow> (status, if status \<noteq> 0 then emit (Kfree_skb skb) (clear_dirty br) else br))))
        (\<lambda>(r, br'). frame_kept br br')" for j st
      unfolding runs_bind by (rule runs_mono [OF loop]) (auto intro: frame_kept_dirty split: sum.split)
    then show ?thesis using m refl by (auto simp: br_igmp_mc_forward_def hd(1) Some d s)
  qed
qed

lemma br_igmp_process_admission_kept:
  assumes wf: "if_wf br" and ok: "\<And>s. skb = Some s \<Longrightarrow> frame_ok env s br" and n: "skb = None \<Longrightarrow> \<not> admitted"
  shows "runs (br_igmp_process_admission env skb admitted br) (frame_kept br)"
proof (cases skb)
  case None
  then show ?thesis using n frame_kept_refl [OF wf] by (simp add: br_igmp_process_admission_def split: option.split)
next
  case (Some s)
  have "runs (br_flood_forward env s False br) (frame_kept br)"
    using br_flood_kept [OF wf ok [OF Some]] by (simp add: br_flood_forward_def)
  then show ?thesis
    using frame_kept_refl [OF wf]
    by (auto simp: br_igmp_process_admission_def Some elim!: runs_mono split: option.split)
qed

section \<open>A frame from a port\<close>

lemma igmp_rate_check_kept:
  assumes "if_wf br"
  shows "runs (igmp_rate_check t br) (\<lambda>(dropped, br'). frame_kept br br')"
proof -
  have "rate_wf br" using assms by (simp add: if_wf_def br_wf_def)
  then obtain d br' where r: "igmp_rate_check t br = Some (d, br')" "rate_wf br'"
    using igmp_rate_check_wf [of br t] by (auto simp: runs_iff_ex)
  note eq = rate_onlyD [OF igmp_rate_check_only [OF r(1)]]
  have "if_wf br'" using r(2) by (subst eq) (rule if_wf_rate [OF assms], simp_all add: rate_wf_def)
  moreover have "port_nos br' = port_nos br" "b_port_list br' = b_port_list br" "ported br' a = ported br a" for a
    by (subst eq, simp add: port_nos_def, subst eq, simp, subst eq, rule ported_cong, simp_all)
  ultimately show ?thesis by (simp add: r(1) frame_kept_def)
qed

lemma br_pass_frame_up_kept [simp]: "frame_kept br (br_pass_frame_up env skb br') = frame_kept br br'"
  by (simp add: br_pass_frame_up_def Let_def)

text \<open>A walk that stops earlier ends when the walk to the root does.\<close>

lemma walk_ends_early:
  assumes "netdev_path_walk (\<lambda>_. True) nx d = Some r"
  shows "netdev_path_walk go nx d \<noteq> None"
proof (rule netdev_path_walk.raw_induct [OF _ assms, where P = "\<lambda>g nx d r. (\<forall>x. g x) \<longrightarrow> netdev_path_walk go nx d \<noteq> None", THEN mp], goal_cases)
  case (1 walk g nx d r)
  show ?case
    using 1(1) [of g nx _ r] 1(2) by (subst netdev_path_walk.simps) (auto split: option.splits if_splits)
qed simp

lemma pktc_hot_kept:
  assumes "if_wf br" "path_ends env dst_dev"
  shows "runs (pktc_hot env dst src_dev dst_dev br) (frame_kept br)"
proof -
  obtain root where "netdev_path_walk (\<lambda>d. and (dev_priv_flags d) IFF_BCM_VLAN \<noteq> 0) (dev_below env) dst_dev = Some root"
    using assms(2) walk_ends_early [of "dev_below env" dst_dev] by (auto simp: path_ends_def netdev_path_get_root_def)
  then show ?thesis using frame_kept_refl [OF assms(1)] by (simp add: pktc_hot_def Let_def)
qed

lemma pktc_update_kept:
  assumes wf: "if_wf br" and ok: "frame_ok env skb br" and src: "ported br source"
    and n: "f_dst dst = Some n" "n \<in> set (port_nos br)"
  shows "runs (pktc_update env dst source br) (frame_kept br)"
proof -
  obtain dp where dp: "br_get_port br n = Some dp" using br_get_port_ex [OF n(2)] by blast
  have path: "path_ends env (p_dev dp)" using ok br_get_port_SomeD [OF dp] by (simp add: frame_ok_def)
  obtain s br1 where g: "br_fdb_get env source br = (s, br1)" by fastforce
  have k: "frame_kept br br1" using br_fdb_get_kept [OF wf, of env source] g by simp
  show ?thesis
  proof (cases s)
    case None
    then show ?thesis using k by (simp add: pktc_update_def n(1) dp g)
  next
    case (Some f)
    then obtain m where m: "f_dst f = Some m" "m \<in> set (port_nos br1)"
      using br_fdb_get_entry(3,4) [OF wf, of env source f] src g k by (auto simp: frame_kept_def)
    obtain sp where sp: "br_get_port br1 m = Some sp" using br_get_port_ex [OF m(2)] by blast
    have "runs (pktc_hot env dst (p_dev sp) (p_dev dp) br1) (frame_kept br)"
      by (rule runs_mono [OF pktc_hot_kept [OF frame_kept_wf [OF k] path]]) (rule frame_kept_trans [OF k])
    then show ?thesis by (simp add: pktc_update_def n(1) dp g Some m(1) sp)
  qed
qed

lemma fdb_used_kept:
  assumes wf: "if_wf br"
  shows "frame_kept br (fdb_store a (\<lambda>f. f\<lparr>f_used := t\<rparr>) br)"
proof -
  let ?g = "\<lambda>f. f\<lparr>f_used := t\<rparr>"
  have w: "fdb_wf br" "fdb_table br" using wf by (simp_all add: if_wf_def br_wf_def fdb_wf_def)
  have b: "fdb_becomes br ((fdb_lookup br)(a := map_option ?g (fdb_lookup br a))) (fdb_store a ?g br)"
    using fdb.store [OF w(2), of a ?g] fdb_lookup_addr [of br a] by (simp add: fdb_becomes_def)
  have ok: "entry_ok br f \<Longrightarrow> entry_ok br (?g f)" for f by (auto simp: entry_ok_def split: option.splits)
  have "fdb_wf (fdb_store a ?g br)"
    by (rule fdb_becomes_shrink [OF w(1) b]) (use w(1) ok in \<open>auto simp: fdb_wf_def split: if_splits\<close>)
  moreover have "ported br c \<Longrightarrow> ported (fdb_store a ?g br) c" for c
    using b by (auto simp: fdb_becomes_def ported_def)
  ultimately show ?thesis using b by (intro frame_kept_fdb [OF wf]) (simp_all add: fdb_becomes_def)
qed

text \<open>What the receive path relies on.\<close>

definition frame_in_ok :: "br_env \<Rightarrow> sk_buff \<Rightarrow> net_bridge \<Rightarrow> bool" where
  "frame_in_ok env skb br \<longleftrightarrow> frame_ok env skb br \<and> ported br (skb_source skb)"

lemma frame_in_ok_kept: "frame_kept br br' \<Longrightarrow> frame_in_ok env skb br \<Longrightarrow> frame_in_ok env skb br'"
  using frame_ok_kept [of br br'] by (simp add: frame_in_ok_def frame_kept_def)

lemma forward_known_kept:
  assumes k: "frame_kept br br3" and ok: "frame_in_ok env skb br" and n: "n \<in> set (port_nos br)"
  shows "runs (br_forward env (Some n) skb skb0 (fdb_store a (\<lambda>f. f\<lparr>f_used := t\<rparr>) br3)) (frame_kept br)"
proof -
  let ?br = "fdb_store a (\<lambda>f. f\<lparr>f_used := t\<rparr>) br3"
  have k': "frame_kept br ?br" by (rule frame_kept_trans [OF k fdb_used_kept [OF frame_kept_wf [OF k]]])
  have "frame_ok env skb ?br" using frame_in_ok_kept [OF k' ok] by (simp add: frame_in_ok_def)
  moreover have "n \<in> set (port_nos ?br)" using n k' by (simp add: frame_kept_def)
  ultimately have "runs (br_forward env (Some n) skb skb0 ?br) (frame_kept ?br)"
    by (rule br_forward_kept [OF frame_kept_wf [OF k']])
  then show ?thesis by (rule runs_mono) (rule frame_kept_trans [OF k'])
qed

lemma forward_unicast_kept:
  assumes wf: "if_wf br" and ok: "frame_in_ok env skb br"
  shows "runs (forward_unicast env skb br) (frame_kept br)"
proof -
  obtain dst br1 where g1: "br_fdb_get env (skb_dest skb) br = (dst, br1)" by fastforce
  obtain src br2 where g2: "br_fdb_get env (skb_source skb) br1 = (src, br2)" by fastforce
  have k1: "frame_kept br br1" using br_fdb_get_kept [OF wf, of env "skb_dest skb"] g1 by simp
  have "frame_kept br1 br2" using br_fdb_get_kept [OF frame_kept_wf [OF k1], of env "skb_source skb"] g2 by simp
  with k1 have k2: "frame_kept br br2" by (rule frame_kept_trans)
  note wf2 = frame_kept_wf [OF k2] and ok2 = frame_in_ok_kept [OF k2 ok]
  show ?thesis
  proof (cases dst)
    case None
    have "frame_ok env skb br2" using ok2 by (simp add: frame_in_ok_def)
    then have "runs (br_flood env skb s hook br2) (frame_kept br)" for s hook
      by (rule runs_mono [OF br_flood_kept [OF wf2]]) (rule frame_kept_trans [OF k2])
    then show ?thesis by (simp add: forward_unicast_def br_flood_forward_def g1 g2 None)
  next
    case (Some f)
    show ?thesis
    proof (cases "f_is_local f")
      case True
      then show ?thesis using k2 by (simp add: forward_unicast_def g1 g2 Some)
    next
      case False
      then obtain n where n: "f_dst f = Some n" "n \<in> set (port_nos br)"
        using br_fdb_get_entry(2,3) [OF wf, of env "skb_dest skb" f] g1 Some by fastforce
      have n2: "n \<in> set (port_nos br2)" using n(2) k2 by (simp add: frame_kept_def)
      have "frame_ok env skb br2" "ported br2 (skb_source skb)" using ok2 by (simp_all add: frame_in_ok_def)
      then have "runs (pktc_update env f (skb_source skb) br2) (frame_kept br)"
        by (rule runs_mono [OF pktc_update_kept [OF wf2 _ _ n(1) n2]]) (rule frame_kept_trans [OF k2])
      then have "runs (pktc_update env f (skb_source skb) br2) (\<lambda>br3.
          runs (br_forward env (Some n) skb (dev_promisc (b_dev br3)) (fdb_store (f_addr f) (\<lambda>f. f\<lparr>f_used := b_jiffies br3\<rparr>) br3))
            (frame_kept br))"
        by (rule runs_mono) (rule forward_known_kept [OF _ ok n(2)])
      then show ?thesis by (simp add: forward_unicast_def g1 g2 Some False n(1))
    qed
  qed
qed

lemma snoop_frame_kept:
  assumes "if_wf br" "frame_ok env skb br"
  shows "runs (snoop_frame env skb forward is_routed br) (\<lambda>(r, br'). frame_kept br br')"
proof -
  have "hdrs_in_frame skb" using assms(2) by (simp add: frame_ok_def)
  then obtain pip pigmp lanppp where h: "br_igmp_get_ip_igmp_hdrs skb = Some (pip, pigmp, lanppp)"
    by (rule hdrs_ok)
  show ?thesis
    using br_igmp_mc_forward_kept [OF assms, of forward is_routed] frame_kept_refl [OF assms(1)]
    by (auto simp: snoop_frame_def h elim!: runs_mono)
qed

lemma port_by_ifindex_kept:
  assumes "frame_kept br br'" "port_by_ifindex i br = Some p"
  shows "p_port_no p \<in> set (port_nos br)" "p_port_no p \<in> set (port_nos br')"
  using assms port_by_ifindex_SomeD [OF assms(2)] by (auto simp: frame_kept_def port_nos_def)

lemma br_flood_forward_kept:
  assumes "frame_kept br br'" "frame_ok env skb br"
  shows "runs (br_flood_forward env skb skb0 br') (frame_kept br)" "runs (br_flood_deliver env skb br') (frame_kept br)"
proof -
  have "frame_ok env skb br'" using assms frame_ok_kept by simp
  then have f: "runs (br_flood env skb s hook br') (frame_kept br)" for s hook
    by (rule runs_mono [OF br_flood_kept [OF frame_kept_wf [OF assms(1)]]]) (rule frame_kept_trans [OF assms(1)])
  show "runs (br_flood_forward env skb skb0 br') (frame_kept br)" "runs (br_flood_deliver env skb br') (frame_kept br)"
    by (simp_all only: br_flood_forward_def br_flood_deliver_def f)
qed

text \<open>What happens to a frame once its source is learned and the port lets data through.\<close>

lemma learned_frame_kept:
  assumes k: "frame_kept br br2" and ok: "frame_in_ok env skb br"
  shows "runs (do {
      (consumed, br) \<leftarrow> snoop_frame env skb True False br2;
      if consumed then Some br
      else if is_broadcast_ether_addr (skb_dest skb) \<or> is_multicast_ether_addr (skb_dest skb)
      then do { br \<leftarrow> br_flood_forward env skb True br; Some (br_pass_frame_up env skb br) }
      else forward_unicast env skb br }) (frame_kept br)"
  unfolding runs_bind
proof (rule runs_mono [OF snoop_frame_kept [OF frame_kept_wf [OF k]]], goal_cases)
  case 1
  then show ?case using frame_in_ok_kept [OF k ok] by (simp add: frame_in_ok_def)
next
  case (2 x)
  obtain c br3 where x: "x = (c, br3)" by (cases x)
  have k3: "frame_kept br br3" using frame_kept_trans [OF k] 2 by (simp add: x)
  have "frame_ok env skb br" using ok by (simp add: frame_in_ok_def)
  note br_flood_forward_kept(1) [OF k3 this, of True]
  moreover have "runs (forward_unicast env skb br3) (frame_kept br)"
    by (rule runs_mono [OF forward_unicast_kept [OF frame_kept_wf [OF k3] frame_in_ok_kept [OF k3 ok]]])
      (rule frame_kept_trans [OF k3])
  ultimately show ?case using k3 by (simp add: x)
qed

lemma br_handle_frame_finish_kept:
  assumes wf: "if_wf br" and ok: "frame_in_ok env skb br"
  shows "runs (br_handle_frame_finish env skb br) (frame_kept br)"
proof (cases "port_by_ifindex (dev_ifindex (skb_dev skb)) br")
  case None
  then show ?thesis using frame_kept_refl [OF wf] by (simp add: br_handle_frame_finish_def)
next
  case (Some p)
  note refl = frame_kept_refl [OF wf]
  have "hdrs_in_frame skb" using ok by (simp add: frame_in_ok_def frame_ok_def)
  then obtain pip pigmp lanppp where h: "br_igmp_get_ip_igmp_hdrs skb = Some (pip, pigmp, lanppp)" by (rule hdrs_ok)
  have learn: "runs (do {
      br \<leftarrow> br_fdb_update env (p_port_no p) (skb_source skb) br1;
      p \<leftarrow> br_get_port br (p_port_no p);
      if p_state p = BR_STATE_LEARNING \<and> skb_protocol skb \<noteq> ETHER_TYPE_BRCM then Some (emit (Kfree_skb skb) br)
      else do {
        (consumed, br) \<leftarrow> snoop_frame env skb True False br;
        if consumed then Some br
        else if is_broadcast_ether_addr (skb_dest skb) \<or> is_multicast_ether_addr (skb_dest skb)
        then do { br \<leftarrow> br_flood_forward env skb True br; Some (br_pass_frame_up env skb br) }
        else forward_unicast env skb br } }) (frame_kept br)" if k: "frame_kept br br1" for br1
    unfolding runs_bind [of "br_fdb_update env (p_port_no p) (skb_source skb) br1"]
  proof (rule runs_mono [OF br_fdb_update_kept [OF frame_kept_wf [OF k] port_by_ifindex_kept(2) [OF k Some]]], goal_cases)
    case (1 br2)
    have k2: "frame_kept br br2" by (rule frame_kept_trans [OF k 1])
    obtain q where "br_get_port br2 (p_port_no p) = Some q" using br_get_port_ex [OF port_by_ifindex_kept(2) [OF k2 Some]] by blast
    then show ?case using learned_frame_kept [OF k2 ok] k2 by simp
  qed
  show ?thesis
    unfolding br_handle_frame_finish_def Some h
    using learn [OF refl] refl igmp_rate_check_kept [OF wf, of "env_ktime env"] learn
    by (auto elim!: runs_mono)
qed

section \<open>The receive handler\<close>

text \<open>The route hook may rewrite the frame, and has to leave one the bridge can read.\<close>

definition route_hook_ok :: "br_env \<Rightarrow> sk_buff \<Rightarrow> net_bridge \<Rightarrow> bool" where
  "route_hook_ok env skb br \<longleftrightarrow>
     (\<forall>rhook. env_route_hook env = Some rhook \<longrightarrow> frame_in_ok env (snd (rhook skb)) br)"

lemma get_hdrs_pkt_type: "br_igmp_get_ip_igmp_hdrs (skb\<lparr>skb_pkt_type := t\<rparr>) = br_igmp_get_ip_igmp_hdrs skb"
proof -
  have h8: "hdr8 (skb\<lparr>skb_pkt_type := t\<rparr>) = hdr8 skb" by (simp add: hdr8_def fun_eq_iff)
  have h: "hdr16 (skb\<lparr>skb_pkt_type := t\<rparr>) = hdr16 skb" "igmp_hdr (skb\<lparr>skb_pkt_type := t\<rparr>) = igmp_hdr skb"
    by (simp_all only: hdr16_def igmp_hdr_def h8 fun_eq_iff simp_thms)
  then have h32: "hdr32 (skb\<lparr>skb_pkt_type := t\<rparr>) = hdr32 skb" by (simp add: hdr32_def fun_eq_iff)
  have "skb_dest (skb\<lparr>skb_pkt_type := t\<rparr>) = skb_dest skb" "skb_h_proto (skb\<lparr>skb_pkt_type := t\<rparr>) = skb_h_proto skb"
    by simp_all
  then show ?thesis unfolding br_igmp_get_ip_igmp_hdrs_def h h32 by (simp only:)
qed

lemma frame_in_ok_pkt_type [simp]: "frame_in_ok env (skb\<lparr>skb_pkt_type := t\<rparr>) br = frame_in_ok env skb br"
  by (simp add: frame_in_ok_def frame_ok_def hdrs_in_frame_def get_hdrs_pkt_type)

lemma runs_map: "runs (map_option f m) Q \<longleftrightarrow> runs m (\<lambda>a. Q (f a))"
  by (cases m) simp_all

lemma nf_pre_routing_kept:
  assumes "if_wf br" "frame_in_ok env skb br"
  shows "runs (nf_pre_routing env skb br) (frame_kept br)"
  using br_handle_frame_finish_kept [OF assms] frame_kept_refl [OF assms(1)] by (simp add: nf_pre_routing_def)

lemma handle_forward_kept:
  assumes wf: "if_wf br" and ok: "frame_in_ok env skb br" "route_hook_ok env skb br"
  shows "runs (handle_forward env p skb br) (\<lambda>(r, skb, br'). frame_kept br br')"
proof -
  have n: "runs (map_option (\<lambda>br. (r, sk, br)) (nf_pre_routing env sk br)) (\<lambda>(r, skb, br'). frame_kept br br')"
    if "frame_in_ok env sk br" for r :: rx_handler_result and sk
    using nf_pre_routing_kept [OF wf that] by (simp add: runs_map)
  obtain route sk where h: "(if p_state p = BR_STATE_FORWARDING
      then (case env_route_hook env of None \<Rightarrow> (False, skb) | Some rhook \<Rightarrow> rhook skb) else (False, skb)) = (route, sk)" by fastforce
  have sk: "frame_in_ok env sk br"
    using h ok by (cases "env_route_hook env") (auto simp: route_hook_ok_def split: if_splits)
  then have "frame_in_ok env (sk\<lparr>skb_pkt_type := PACKET_HOST\<rparr>) br" by simp
  then show ?thesis
    using n [OF ok(1)] n [OF sk] n frame_kept_refl [OF wf]
    unfolding handle_forward_def Let_def h by simp
qed

lemma handle_local_kept:
  assumes "if_wf br" "port_by_ifindex (dev_ifindex (skb_dev skb)) br = Some p"
  shows "runs (handle_local env skb br) (\<lambda>(r, skb, br'). frame_kept br br')"
  using br_fdb_update_kept [OF assms(1) port_by_ifindex_kept(1) [OF frame_kept_refl [OF assms(1)] assms(2)]] frame_kept_refl [OF assms(1)]
  by (simp add: handle_local_def br_handle_local_finish_def assms(2) runs_map)

lemma br_handle_frame_kept:
  assumes wf: "if_wf br" and ok: "frame_in_ok env skb br" "route_hook_ok env skb br"
    and p: "port_by_ifindex (dev_ifindex (skb_dev skb)) br \<noteq> None"
  shows "runs (br_handle_frame env skb br) (\<lambda>(r, skb, br'). frame_kept br br')"
proof -
  obtain q where "port_by_ifindex (dev_ifindex (skb_dev skb)) br = Some q" using p by blast
  then show ?thesis
    using handle_forward_kept [OF wf ok, of q] handle_local_kept [OF wf] frame_kept_refl [OF wf]
    by (simp add: br_handle_frame_def Let_def)
qed

section \<open>Frames from the host\<close>

definition xmit_ok :: "br_env \<Rightarrow> sk_buff \<Rightarrow> net_bridge \<Rightarrow> bool" where
  "xmit_ok env skb br \<longleftrightarrow> frame_ok env skb br \<and> (env_wl_pktc env \<longrightarrow> ported br (skb_dest skb))"

lemma xmit_known_kept:
  assumes k: "frame_kept br br1" and ok: "xmit_ok env skb br"
    and g: "br_fdb_get env (skb_dest skb) br1 = (Some f, br2)"
  shows "runs (do {
      br \<leftarrow> (if env_wl_pktc env
            then do {
              n \<leftarrow> f_dst f; p \<leftarrow> br_get_port br2 n;
              Some (if dev_phy_type (p_dev p) = BLOG_WLANPHY \<and> env_pktc_tx env
                    then emit (Pktc_update_brc_hot (f_addr f) (dev_ifindex (p_dev p))) br2 else br2)
            }
            else Some br2);
      br_deliver env (f_dst f) skb br }) (frame_kept br)"
proof -
  note wf1 = frame_kept_wf [OF k]
  have "frame_kept br1 br2" using br_fdb_get_kept [OF wf1, of env "skb_dest skb"] g by simp
  with k have k2: "frame_kept br br2" by (rule frame_kept_trans)
  have fst: "fst (br_fdb_get env (skb_dest skb) br1) = Some f" using g by simp
  have n1: "n \<in> set (port_nos br1)" if "f_dst f = Some n" for n using br_fdb_get_entry(3) [OF wf1 fst that] .
  have n: "n \<in> set (port_nos br2)" if "f_dst f = Some n" for n using n1 [OF that] k k2 by (simp add: frame_kept_def)
  have d: "runs (br_deliver env (f_dst f) skb br3) (frame_kept br)" if k3: "frame_kept br br3" for br3
  proof (rule runs_mono [OF br_deliver_kept [OF frame_kept_wf [OF k3]]], goal_cases)
    case 1 then show ?case using ok frame_ok_kept [OF k3] by (simp add: xmit_ok_def)
  next
    case (2 n) then show ?case using n [of n] k2 k3 by (simp add: frame_kept_def)
  qed (rule frame_kept_trans [OF k3])
  have "\<exists>n p. f_dst f = Some n \<and> br_get_port br2 n = Some p" if w: "env_wl_pktc env"
  proof -
    have "ported br1 (skb_dest skb)" using ok w k by (simp add: xmit_ok_def frame_kept_def)
    then obtain m where "f_dst f = Some m" using br_fdb_get_entry(4) [OF wf1 fst] by blast
    then show ?thesis using br_get_port_ex [OF n] by blast
  qed
  then show ?thesis using d k2 by auto
qed

lemma br_dev_xmit_kept:
  assumes wf: "if_wf br" and ok: "xmit_ok env skb br"
  shows "runs (br_dev_xmit env skb br) (frame_kept br)"
proof -
  have fo: "frame_ok env skb br" using ok by (simp add: xmit_ok_def)
  show ?thesis
    unfolding br_dev_xmit_def runs_bind [of "snoop_frame env skb False True br"]
  proof (rule runs_mono [OF snoop_frame_kept [OF wf fo]], goal_cases)
    case (1 x)
    obtain c br1 where x: "x = (c, br1)" by (cases x)
    have k: "frame_kept br br1" using 1 by (simp add: x)
    obtain dst br2 where g: "br_fdb_get env (skb_dest skb) br1 = (dst, br2)" by fastforce
    have "frame_kept br1 br2" using br_fdb_get_kept [OF frame_kept_wf [OF k], of env "skb_dest skb"] g by simp
    with k have k2: "frame_kept br br2" by (rule frame_kept_trans)
    show ?case
    proof (cases dst)
      case None
      then show ?thesis using k k2 br_flood_forward_kept(2) [OF k fo] br_flood_forward_kept(2) [OF k2 fo] by (simp add: x g)
    next
      case (Some f)
      note xmit_known_kept [OF k ok g [unfolded Some]]
      then show ?thesis using k br_flood_forward_kept(2) [OF k fo] by (simp only: x g Some prod.case option.case runs_if runs_Some split: if_split) simp
    qed
  qed
qed

end
