(* ===== verification/Ioctl.thy ===== *)
theory Ioctl
  imports Input_Inv
begin

text \<open>
  The ioctl interface of the bridge (\<open>net/bridge/br_ioctl.c\<close>). A request is the four words
  \<open>old_dev_ioctl\<close> copies from user space; \<open>userbuf\<close> is the array of addresses behind a pointer among
  them. The commands that create bridges or list those of the system are left out, and so are the
  MLD and LAN to LAN switches, whose fields the model of the bridge does not have.
\<close>

section \<open>Command numbers\<close>

definition BRCTL_DEL_BRIDGE :: u32 where "BRCTL_DEL_BRIDGE = 3"
definition BRCTL_ADD_IF :: u32 where "BRCTL_ADD_IF = 4"
definition BRCTL_DEL_IF :: u32 where "BRCTL_DEL_IF = 5"
definition BRCTL_GET_BRIDGE_INFO :: u32 where "BRCTL_GET_BRIDGE_INFO = 6"
definition BRCTL_GET_PORT_LIST :: u32 where "BRCTL_GET_PORT_LIST = 7"
definition BRCTL_SET_BRIDGE_FORWARD_DELAY :: u32 where "BRCTL_SET_BRIDGE_FORWARD_DELAY = 8"
definition BRCTL_SET_BRIDGE_HELLO_TIME :: u32 where "BRCTL_SET_BRIDGE_HELLO_TIME = 9"
definition BRCTL_SET_BRIDGE_MAX_AGE :: u32 where "BRCTL_SET_BRIDGE_MAX_AGE = 10"
definition BRCTL_SET_AGEING_TIME :: u32 where "BRCTL_SET_AGEING_TIME = 11"
definition BRCTL_GET_PORT_INFO :: u32 where "BRCTL_GET_PORT_INFO = 13"
definition BRCTL_SET_BRIDGE_STP_STATE :: u32 where "BRCTL_SET_BRIDGE_STP_STATE = 14"
definition BRCTL_SET_BRIDGE_PRIORITY :: u32 where "BRCTL_SET_BRIDGE_PRIORITY = 15"
definition BRCTL_SET_PORT_PRIORITY :: u32 where "BRCTL_SET_PORT_PRIORITY = 16"
definition BRCTL_SET_PATH_COST :: u32 where "BRCTL_SET_PATH_COST = 17"
definition BRCTL_GET_FDB_ENTRIES :: u32 where "BRCTL_GET_FDB_ENTRIES = 18"
definition BRCTL_ENABLE_SNOOPING :: u32 where "BRCTL_ENABLE_SNOOPING = 21"
definition BRCTL_ENABLE_PROXY_MODE :: u32 where "BRCTL_ENABLE_PROXY_MODE = 22"
definition BRCTL_ENABLE_IGMP_RATE_LIMIT :: u32 where "BRCTL_ENABLE_IGMP_RATE_LIMIT = 23"
definition BRCTL_ADD_FDB_ENTRIES :: u32 where "BRCTL_ADD_FDB_ENTRIES = 26"
definition BRCTL_DEL_FDB_ENTRIES :: u32 where "BRCTL_DEL_FDB_ENTRIES = 27"
definition BRCTL_DEL_DYN_FDB_ENTRIES :: u32 where "BRCTL_DEL_DYN_FDB_ENTRIES = 28"
definition BRCTL_SET_FLOWS :: u32 where "BRCTL_SET_FLOWS = 29"
definition BRCTL_DEL_STATIC_FDB_ENTRIES :: u32 where "BRCTL_DEL_STATIC_FDB_ENTRIES = 35"
definition BRCTL_ADD_FDB_DYNAMIC_ENTRIES :: u32 where "BRCTL_ADD_FDB_DYNAMIC_ENTRIES = 36"
definition BRCTL_MARK_DEDICATED_STP :: u32 where "BRCTL_MARK_DEDICATED_STP = 39"
definition BRCTL_BLOCK_STP :: u32 where "BRCTL_BLOCK_STP = 40"

lemmas brctl_defs =
  BRCTL_DEL_BRIDGE_def BRCTL_ADD_IF_def BRCTL_DEL_IF_def
  BRCTL_GET_BRIDGE_INFO_def BRCTL_GET_PORT_LIST_def BRCTL_SET_BRIDGE_FORWARD_DELAY_def
  BRCTL_SET_BRIDGE_HELLO_TIME_def BRCTL_SET_BRIDGE_MAX_AGE_def BRCTL_SET_AGEING_TIME_def
  BRCTL_GET_PORT_INFO_def BRCTL_SET_BRIDGE_STP_STATE_def BRCTL_SET_BRIDGE_PRIORITY_def
  BRCTL_SET_PORT_PRIORITY_def BRCTL_SET_PATH_COST_def BRCTL_GET_FDB_ENTRIES_def
  BRCTL_ENABLE_SNOOPING_def BRCTL_ENABLE_PROXY_MODE_def BRCTL_ENABLE_IGMP_RATE_LIMIT_def
  BRCTL_ADD_FDB_ENTRIES_def BRCTL_DEL_FDB_ENTRIES_def BRCTL_DEL_DYN_FDB_ENTRIES_def
  BRCTL_SET_FLOWS_def BRCTL_DEL_STATIC_FDB_ENTRIES_def BRCTL_ADD_FDB_DYNAMIC_ENTRIES_def
  BRCTL_MARK_DEDICATED_STP_def BRCTL_BLOCK_STP_def

section \<open>Ports and devices\<close>

text \<open>The port of a device: None within the option when the device is not a port. The source does not
  check that the port belongs to this bridge; using another bridge's port here is a fault of the model.\<close>

definition br_port_get_rtnl :: "net_device \<Rightarrow> net_bridge \<Rightarrow> u16 option option" where
  "br_port_get_rtnl dev br =
     (case port_by_ifindex (dev_ifindex dev) br of
        Some p \<Rightarrow> Some (Some (p_port_no p))
      | None \<Rightarrow> if and (dev_priv_flags dev) IFF_BRIDGE_PORT \<noteq> 0 then None else Some None)"

text \<open>What every request on a port begins with.\<close>

definition on_port ::
  "br_env \<Rightarrow> u32 \<Rightarrow> (u16 \<Rightarrow> net_bridge \<Rightarrow> (result \<times> net_bridge) option) \<Rightarrow> net_bridge \<Rightarrow> (result \<times> net_bridge) option" where
  "on_port env ifindex act br =
     (case env_dev env (unat ifindex) of
        None \<Rightarrow> Some (Some EINVAL, br)
      | Some dev \<Rightarrow> do {
          port \<leftarrow> br_port_get_rtnl dev br;
          case port of None \<Rightarrow> Some (Some EINVAL, br) | Some n \<Rightarrow> act n br
        })"

section \<open>Entries of the forwarding database\<close>

definition ETH_ALEN :: nat where "ETH_ALEN = 6"

text \<open>\<open>kmalloc\<close> and \<open>copy_from_user\<close> of \<open>sz\<close> bytes, as addresses. What cannot be copied is zero.\<close>

definition copy_macs :: "u32 \<Rightarrow> mac_addr list \<Rightarrow> mac_addr list" where
  "copy_macs sz userbuf =
     (let k = unat sz div ETH_ALEN in take k (userbuf @ replicate k (Mac 0 0 0 0 0 0)))"

text \<open>The loop over the addresses; running past the end of the buffer is a fault.\<close>

fun for_macs ::
  "(mac_addr \<Rightarrow> net_bridge \<Rightarrow> (result \<times> net_bridge) option) \<Rightarrow> mac_addr list \<Rightarrow> nat \<Rightarrow> result \<Rightarrow> net_bridge
     \<Rightarrow> (result \<times> net_bridge) option" where
  "for_macs f pMac 0 ret br = Some (ret, br)"
| "for_macs f [] (Suc i) ret br = None"
| "for_macs f (mac # pMac) (Suc i) ret br = do { (ret, br) \<leftarrow> f mac br; for_macs f pMac i ret br }"

definition add_fdb_entries ::
  "br_env \<Rightarrow> mac_addr list \<Rightarrow> u32 \<Rightarrow> u32 \<Rightarrow> bool \<Rightarrow> net_bridge \<Rightarrow> (result \<times> net_bridge) option" where
  "add_fdb_entries env userbuf maxnum ifindex isStatic br =
     (if \<not> env_capable env then Some (Some EPERM, br)
      else on_port env ifindex (\<lambda>port br.
        let sz = maxnum * of_nat ETH_ALEN in
        if \<not> env_kmalloc env then Some (Some ENOMEM, br)
        else for_macs (\<lambda>mac br.
               if isStatic then br_fdb_adddel_static env port mac True br
               else do { br \<leftarrow> br_fdb_update env port mac br; Some (None, br) })
             (copy_macs sz userbuf) (unat maxnum) None br) br)"

definition delete_fdb_entries ::
  "br_env \<Rightarrow> mac_addr list \<Rightarrow> u32 \<Rightarrow> u32 \<Rightarrow> net_bridge \<Rightarrow> (result \<times> net_bridge) option" where
  "delete_fdb_entries env userbuf maxnum ifindex br =
     (if \<not> env_capable env then Some (Some EPERM, br)
      else on_port env ifindex (\<lambda>port br.
        let sz = maxnum * of_nat ETH_ALEN in
        if \<not> env_kmalloc env then Some (Some ENOMEM, br)
        else for_macs (\<lambda>mac. br_fdb_adddel_static env port mac False) (copy_macs sz userbuf) (unat maxnum) None br) br)"

definition add_fdb_dynamic_entries ::
  "br_env \<Rightarrow> mac_addr list \<Rightarrow> u32 \<Rightarrow> u32 \<Rightarrow> net_bridge \<Rightarrow> (result \<times> net_bridge) option" where
  "add_fdb_dynamic_entries env userbuf maxnum ifindex = add_fdb_entries env userbuf maxnum ifindex False"

definition add_fdb_static_entries ::
  "br_env \<Rightarrow> mac_addr list \<Rightarrow> u32 \<Rightarrow> u32 \<Rightarrow> net_bridge \<Rightarrow> (result \<times> net_bridge) option" where
  "add_fdb_static_entries env userbuf maxnum ifindex = add_fdb_entries env userbuf maxnum ifindex True"

definition del_dyn_fdb_entries :: "br_env \<Rightarrow> u32 \<Rightarrow> net_bridge \<Rightarrow> (result \<times> net_bridge) option" where
  "del_dyn_fdb_entries env ifindex br =
     (if \<not> env_capable env then Some (Some EPERM, br)
      else on_port env ifindex (\<lambda>port br. do { br \<leftarrow> br_fdb_delete_by_port env port 0 br; Some (None, br) }) br)"

definition del_static_fdb_entries :: "br_env \<Rightarrow> u32 \<Rightarrow> net_bridge \<Rightarrow> (result \<times> net_bridge) option" where
  "del_static_fdb_entries env ifindex br =
     (if \<not> env_capable env then Some (Some EPERM, br)
      else on_port env ifindex (\<lambda>port br. do { br \<leftarrow> br_fdb_delete_by_port env port 2 br; Some (None, br) }) br)"

section \<open>Spanning tree switches of a port, flows, ports\<close>

definition block_stp_loop :: "br_env \<Rightarrow> u32 \<Rightarrow> net_bridge \<Rightarrow> (result \<times> net_bridge) option" where
  "block_stp_loop env ifindex =
     on_port env ifindex (\<lambda>port br.
       Some (None, upd_port port (\<lambda>p. p\<lparr>p_is_bpdu_blocked := \<not> p_is_bpdu_blocked p\<rparr>) br))"

definition mark_dedicated_stp :: "br_env \<Rightarrow> u32 \<Rightarrow> u32 \<Rightarrow> net_bridge \<Rightarrow> (result \<times> net_bridge) option" where
  "mark_dedicated_stp env ifindex isDedicated =
     on_port env ifindex (\<lambda>port br.
       Some (None, upd_port port (\<lambda>p. p\<lparr>p_is_dedicated_stp_port := (isDedicated \<noteq> 0)\<rparr>) br))"

definition set_flows :: "br_env \<Rightarrow> u32 \<Rightarrow> u32 \<Rightarrow> net_bridge \<Rightarrow> result \<times> net_bridge" where
  "set_flows env rxifindex txifindex br =
     (if \<not> env_capable env then (Some EPERM, br)
      else case (env_dev env (unat rxifindex), env_dev env (unat txifindex)) of
          (Some rxdev, Some txdev) \<Rightarrow>
            (None, emit (Br_flow_blog_rules (dev_ifindex rxdev) (dev_ifindex txdev)) br)
        | _ \<Rightarrow> (Some EINVAL, br))"

definition add_del_if :: "br_env \<Rightarrow> u32 \<Rightarrow> bool \<Rightarrow> net_bridge \<Rightarrow> (result \<times> net_bridge) option" where
  "add_del_if env ifindex isadd br =
     (if \<not> env_capable env then Some (Some EPERM, br)
      else case env_dev env (unat ifindex) of
          None \<Rightarrow> Some (Some EINVAL, br)
        | Some dev \<Rightarrow> do {
            (ret, br) \<leftarrow> (if isadd then br_add_if env dev br else br_del_if env dev br);
            Some (ret, emit (Br_dev_notify_if_change (dev_name (b_dev br))) br)
          })"

section \<open>Reading the state\<close>

text \<open>The structures user space gets, as far as they are filled in.\<close>

record bridge_info =
  bi_designated_root :: bridge_id
  bi_bridge_id :: bridge_id
  bi_root_path_cost :: u32
  bi_max_age :: u32
  bi_hello_time :: u32
  bi_forward_delay :: u32
  bi_bridge_max_age :: u32
  bi_bridge_hello_time :: u32
  bi_bridge_forward_delay :: u32
  bi_topology_change :: bool
  bi_topology_change_detected :: bool
  bi_root_port :: u8
  bi_stp_enabled :: bool
  bi_ageing_time :: u32
  bi_hello_timer_value :: u32
  bi_tcn_timer_value :: u32
  bi_topology_change_timer_value :: u32
  bi_gc_timer_value :: u32

record port_info =
  pi_designated_root :: bridge_id
  pi_designated_bridge :: bridge_id
  pi_port_id :: u16
  pi_designated_port :: u16
  pi_path_cost :: u32
  pi_designated_cost :: u32
  pi_state :: br_state
  pi_top_change_ack :: bool
  pi_config_pending :: bool
  pi_message_age_timer_value :: u32
  pi_forward_delay_timer_value :: u32
  pi_hold_timer_value :: u32

definition get_bridge_info :: "net_bridge \<Rightarrow> bridge_info" where
  "get_bridge_info br = (let now = b_jiffies br in
     \<lparr>bi_designated_root = b_designated_root br, bi_bridge_id = b_bridge_id br,
      bi_root_path_cost = b_root_path_cost br,
      bi_max_age = jiffies_to_clock_t (b_max_age br),
      bi_hello_time = jiffies_to_clock_t (b_hello_time br),
      bi_forward_delay = b_forward_delay br,
      bi_bridge_max_age = b_bridge_max_age br,
      bi_bridge_hello_time = b_bridge_hello_time br,
      bi_bridge_forward_delay = jiffies_to_clock_t (b_bridge_forward_delay br),
      bi_topology_change = b_topology_change br,
      bi_topology_change_detected = b_topology_change_detected br,
      bi_root_port = ucast (b_root_port br),
      bi_stp_enabled = (b_stp_enabled br \<noteq> BR_NO_STP),
      bi_ageing_time = jiffies_to_clock_t (b_ageing_time br),
      bi_hello_timer_value = br_timer_value now (b_hello_timer br),
      bi_tcn_timer_value = br_timer_value now (b_tcn_timer br),
      bi_topology_change_timer_value = br_timer_value now (b_topology_change_timer br),
      bi_gc_timer_value = br_timer_value now (b_gc_timer br)\<rparr>)"

definition get_port_info :: "u16 \<Rightarrow> net_bridge \<Rightarrow> errno + port_info" where
  "get_port_info n br =
     (case br_get_port br n of
        None \<Rightarrow> Inl EINVAL
      | Some pt \<Rightarrow> let now = b_jiffies br in
          Inr \<lparr>pi_designated_root = p_designated_root pt, pi_designated_bridge = p_designated_bridge pt,
            pi_port_id = p_port_id pt, pi_designated_port = p_designated_port pt,
            pi_path_cost = p_path_cost pt, pi_designated_cost = p_designated_cost pt,
            pi_state = p_state pt, pi_top_change_ack = p_topology_change_ack pt,
            pi_config_pending = p_config_pending pt,
            pi_message_age_timer_value = br_timer_value now (p_message_age_timer pt),
            pi_forward_delay_timer_value = br_timer_value now (p_forward_delay_timer pt),
            pi_hold_timer_value = br_timer_value now (p_hold_timer pt)\<rparr>)"

definition get_port_ifindices :: "net_bridge \<Rightarrow> nat list \<Rightarrow> nat \<Rightarrow> nat list" where
  "get_port_ifindices br ifindices num =
     fold (\<lambda>p xs. if unat (p_port_no p) < num then xs[unat (p_port_no p) := dev_ifindex (p_dev p)] else xs)
       (b_port_list br) ifindices"

text \<open>\<open>num\<close> as an \<open>int\<close>.\<close>

definition get_port_list :: "br_env \<Rightarrow> u32 \<Rightarrow> net_bridge \<Rightarrow> errno + nat list" where
  "get_port_list env arg br =
     (let num = sint arg in
      if num < 0 then Inl EINVAL
      else let num = (if num = 0 then 256 else nat num);
               num = (if num > BR_MAX_PORTS then BR_MAX_PORTS else num)
           in if \<not> env_kmalloc env then Inl ENOMEM else Inr (get_port_ifindices br (replicate num 0) num))"

text \<open>\<open>PAGE_SIZE\<close> over the size of \<open>struct __fdb_entry\<close>.\<close>

definition FDB_PAGE :: nat where "FDB_PAGE = 4096 div 16"

definition get_fdb_entries :: "br_env \<Rightarrow> u32 \<Rightarrow> u32 \<Rightarrow> net_bridge \<Rightarrow> ((errno + user_fdb_entry list) \<times> net_bridge) option" where
  "get_fdb_entries env maxnum offset br =
     (let maxnum = (if unat maxnum > FDB_PAGE then FDB_PAGE else unat maxnum)
      in if \<not> env_kmalloc env then Some (Inl ENOMEM, br)
         else do { (es, br) \<leftarrow> br_fdb_fillbuf env maxnum (unat offset) br; Some (Inr es, br) })"

section \<open>Requests on a bridge device\<close>

datatype ioctl_reply =
    Reply result
  | Bridge_info_reply bridge_info
  | Port_list_reply "nat list"
  | Port_info_reply port_info
  | Fdb_reply "user_fdb_entry list"

text \<open>A reply with data, unless \<open>copy_to_user\<close> fails.\<close>

definition copy_reply :: "bool \<Rightarrow> ('a \<Rightarrow> ioctl_reply) \<Rightarrow> errno + 'a \<Rightarrow> ioctl_reply" where
  "copy_reply copied f r =
     (case r of Inl e \<Rightarrow> Reply (Some e) | Inr a \<Rightarrow> if copied then f a else Reply (Some EFAULT))"

definition as_admin ::
  "br_env \<Rightarrow> (net_bridge \<Rightarrow> (result \<times> net_bridge) option) \<Rightarrow> net_bridge \<Rightarrow> (result \<times> net_bridge) option" where
  "as_admin env act br = (if \<not> env_capable env then Some (Some EPERM, br) else act br)"

text \<open>A setter that returns an error or the bridge.\<close>

definition set_param :: "(net_bridge \<Rightarrow> errno + net_bridge) \<Rightarrow> net_bridge \<Rightarrow> (result \<times> net_bridge) option" where
  "set_param f br = Some (case f br of Inl e \<Rightarrow> (Some e, br) | Inr br \<Rightarrow> (None, br))"

definition done_with :: "net_bridge option \<Rightarrow> (result \<times> net_bridge) option" where
  "done_with m = map_option (Pair None) m"

definition dev_set_request ::
  "br_env \<Rightarrow> u32 \<Rightarrow> u32 \<Rightarrow> u32 \<Rightarrow> u32 \<Rightarrow> mac_addr list \<Rightarrow> net_bridge \<Rightarrow> (result \<times> net_bridge) option" where
  "dev_set_request env cmd arg1 arg2 arg3 userbuf br =
     (if cmd = BRCTL_ADD_IF then add_del_if env arg1 True br
      else if cmd = BRCTL_DEL_IF then add_del_if env arg1 False br
      else if cmd = BRCTL_SET_BRIDGE_FORWARD_DELAY
      then as_admin env (set_param (br_set_forward_delay arg1)) br
      else if cmd = BRCTL_SET_BRIDGE_HELLO_TIME
      then as_admin env (set_param (br_set_hello_time arg1)) br
      else if cmd = BRCTL_SET_BRIDGE_MAX_AGE
      then as_admin env (set_param (br_set_max_age arg1)) br
      else if cmd = BRCTL_SET_AGEING_TIME
      then as_admin env (\<lambda>br. Some (None, br\<lparr>b_ageing_time := clock_t_to_jiffies arg1\<rparr>)) br
      else if cmd = BRCTL_SET_BRIDGE_STP_STATE
      then as_admin env (\<lambda>br. done_with (br_stp_set_enabled env arg1 br)) br
      else if cmd = BRCTL_SET_BRIDGE_PRIORITY
      then as_admin env (\<lambda>br. done_with (br_stp_set_bridge_priority (ucast arg1) br)) br
      else if cmd = BRCTL_SET_PORT_PRIORITY
      then as_admin env (\<lambda>br. if br_get_port br (ucast arg1) = None then Some (Some EINVAL, br)
                              else br_stp_set_port_priority (ucast arg1) arg2 br) br
      else if cmd = BRCTL_SET_PATH_COST
      then as_admin env (\<lambda>br. if br_get_port br (ucast arg1) = None then Some (Some EINVAL, br)
                              else br_stp_set_path_cost (ucast arg1) arg2 br) br
      else if cmd = BRCTL_ADD_FDB_ENTRIES then add_fdb_static_entries env userbuf arg2 arg3 br
      else if cmd = BRCTL_DEL_FDB_ENTRIES then delete_fdb_entries env userbuf arg2 arg3 br
      else if cmd = BRCTL_DEL_STATIC_FDB_ENTRIES then del_static_fdb_entries env arg1 br
      else if cmd = BRCTL_DEL_DYN_FDB_ENTRIES then del_dyn_fdb_entries env arg1 br
      else if cmd = BRCTL_ADD_FDB_DYNAMIC_ENTRIES then add_fdb_dynamic_entries env userbuf arg2 arg3 br
      else if cmd = BRCTL_MARK_DEDICATED_STP then mark_dedicated_stp env arg1 arg2 br
      else if cmd = BRCTL_BLOCK_STP then block_stp_loop env arg1 br
      else if cmd = BRCTL_SET_FLOWS then Some (set_flows env arg1 arg2 br)
      else Some (Some EOPNOTSUPP, br))"

text \<open>The whole dispatch; \<open>args\<close> is None when they cannot be read.\<close>

definition old_dev_ioctl ::
  "br_env \<Rightarrow> (u32 \<times> u32 \<times> u32 \<times> u32) option \<Rightarrow> mac_addr list \<Rightarrow> bool \<Rightarrow> net_bridge \<Rightarrow> (ioctl_reply \<times> net_bridge) option" where
  "old_dev_ioctl env args userbuf copied br =
     (case args of
        None \<Rightarrow> Some (Reply (Some EFAULT), br)
      | Some (cmd, arg1, arg2, arg3) \<Rightarrow>
          if cmd = BRCTL_GET_BRIDGE_INFO
          then Some (copy_reply copied Bridge_info_reply (Inr (get_bridge_info br)), br)
          else if cmd = BRCTL_GET_PORT_LIST
          then Some (copy_reply copied Port_list_reply (get_port_list env arg2 br), br)
          else if cmd = BRCTL_GET_PORT_INFO
          then Some (copy_reply copied Port_info_reply (get_port_info (ucast arg2) br), br)
          else if cmd = BRCTL_GET_FDB_ENTRIES
          then do {
            (r, br) \<leftarrow> get_fdb_entries env arg2 arg3 br;
            Some (if r = Inr [] then Fdb_reply [] else copy_reply copied Fdb_reply r, br)
          }
          else do {
            (r, br) \<leftarrow> dev_set_request env cmd arg1 arg2 arg3 userbuf br;
            Some (Reply r, br)
          })"

datatype dev_ioctl = SIOCDEVPRIVATE | SIOCBRADDIF | SIOCBRDELIF | SIOC_other

definition br_dev_ioctl ::
  "br_env \<Rightarrow> dev_ioctl \<Rightarrow> u32 \<Rightarrow> (u32 \<times> u32 \<times> u32 \<times> u32) option \<Rightarrow> mac_addr list \<Rightarrow> bool \<Rightarrow> net_bridge
     \<Rightarrow> (ioctl_reply \<times> net_bridge) option" where
  "br_dev_ioctl env cmd ifindex args userbuf copied br =
     (case cmd of
        SIOCDEVPRIVATE \<Rightarrow> old_dev_ioctl env args userbuf copied br
      | SIOCBRADDIF \<Rightarrow> do { (r, br) \<leftarrow> add_del_if env ifindex True br; Some (Reply r, br) }
      | SIOCBRDELIF \<Rightarrow> do { (r, br) \<leftarrow> add_del_if env ifindex False br; Some (Reply r, br) }
      | SIOC_other \<Rightarrow> Some (Reply (Some EOPNOTSUPP), br))"

section \<open>Requests without a device\<close>

text \<open>\<open>found\<close> is what the name in the request leads to: None when the name cannot be read, \<open>Some None\<close> when
  there is no such device. The source takes any device it finds for a bridge; one that is not this
  bridge is a fault of the model.\<close>

definition getDevice :: "br_env \<Rightarrow> net_device option option \<Rightarrow> errno + net_device" where
  "getDevice env found =
     (if \<not> env_capable env then Inl EPERM
      else case found of
          None \<Rightarrow> Inl EFAULT
        | Some None \<Rightarrow> Inl ENXIO
        | Some (Some dev) \<Rightarrow> Inr dev)"

definition on_bridge ::
  "br_env \<Rightarrow> net_device option option \<Rightarrow> (net_bridge \<Rightarrow> result \<times> net_bridge) \<Rightarrow> net_bridge \<Rightarrow> (result \<times> net_bridge) option" where
  "on_bridge env found act br =
     (case getDevice env found of
        Inl e \<Rightarrow> Some (Some e, br)
      | Inr dev \<Rightarrow> if dev_ifindex dev = dev_ifindex (b_dev br) then Some (act br) else None)"

definition old_deviceless ::
  "br_env \<Rightarrow> u32 \<Rightarrow> net_device option option \<Rightarrow> u32 \<Rightarrow> net_bridge \<Rightarrow> (result \<times> net_bridge) option" where
  "old_deviceless env cmd found arg2 br =
     (if cmd = BRCTL_DEL_BRIDGE
      then (if \<not> env_capable env then Some (Some EPERM, br)
            else case found of None \<Rightarrow> Some (Some EFAULT, br) | Some dev \<Rightarrow> br_del_bridge env dev br)
      else if cmd = BRCTL_ENABLE_SNOOPING
      then on_bridge env found (\<lambda>br. (None, br\<lparr>b_igmp_snooping := unat arg2\<rparr>)) br
      else if cmd = BRCTL_ENABLE_PROXY_MODE
      then on_bridge env found (\<lambda>br. (None, br\<lparr>b_igmp_proxy := (arg2 \<noteq> 0)\<rparr>)) br
      else if cmd = BRCTL_ENABLE_IGMP_RATE_LIMIT
      then on_bridge env found (\<lambda>br. if arg2 > 500 then (Some EINVAL, br)
             else (None, br\<lparr>b_igmp_rate_limit := arg2, b_igmp_rate_last_packet := 0,
                    b_igmp_rate_bucket := 0, b_igmp_rate_rem_time := 0\<rparr>)) br
      else Some (Some EOPNOTSUPP, br))"

end
