(* ===== verification/Ioctl_Inv.thy ===== *)
theory Ioctl_Inv
  imports Ioctl
begin

text \<open>
  Requests through the ioctl interface keep the invariants of the bridge and do not fault, provided
  that the devices they name are not ports of another bridge, and that a request which names more
  addresses than its buffer can hold is excluded.
\<close>

section \<open>Operations on the forwarding database\<close>

abbreviation wf_reply :: "'a \<times> net_bridge \<Rightarrow> bool" where
  "wf_reply \<equiv> \<lambda>(r, br). if_wf br"

lemma reply_map: "runs m wf_reply \<Longrightarrow> runs m (\<lambda>x. runs (case x of (a, br) \<Rightarrow> Some (h a, br)) wf_reply)"
  by (erule runs_mono) auto

definition wf_ports :: "net_bridge \<Rightarrow> net_bridge \<Rightarrow> bool" where
  "wf_ports br br' \<longleftrightarrow> if_wf br' \<and> port_nos br' = port_nos br"

lemma wf_ports_fdb:
  assumes "if_wf br" "fdb_wf br'" "fdb_core br' = fdb_core br"
  shows "wf_ports br br'"
  using if_wf_fdb [OF assms] fdb_core_eq_derived(2) [OF assms(3)] by (simp add: wf_ports_def)

lemma if_wf_parts: "if_wf br \<Longrightarrow> br_wf br" "if_wf br \<Longrightarrow> fdb_wf br" "if_wf br \<Longrightarrow> stp_wf br" "if_wf br \<Longrightarrow> mc_wf br"
  "if_wf br \<Longrightarrow> fdb_table br"
  by (simp_all add: if_wf_def br_wf_def fdb_wf_def)

lemma br_fdb_adddel_static_wf:
  assumes "if_wf br" "n \<in> set (port_nos br)"
  shows "runs (br_fdb_adddel_static env n a add br) (\<lambda>(r, br'). wf_ports br br')"
  unfolding br_fdb_adddel_static_def
  by (rule runs_mono [OF fdb_adddel_static_runs [OF if_wf_parts(2) [OF assms(1)] assms(2)]])
    (auto simp: fdb_becomes_def intro!: wf_ports_fdb [OF assms(1)]
      intro: spec_adddel_static_wf [OF if_wf_parts(2) [OF assms(1)] _ assms(2)])

lemma br_fdb_update_wf_ports:
  "if_wf br \<Longrightarrow> n \<in> set (port_nos br) \<Longrightarrow> runs (br_fdb_update env n a br) (wf_ports br)"
  by (rule runs_mono [OF br_fdb_update_kept]) (simp_all add: frame_kept_def wf_ports_def)

lemma br_fdb_delete_by_port_wf:
  assumes "if_wf br"
  shows "runs (br_fdb_delete_by_port env n do_all br) (wf_ports br)"
  by (rule runs_mono [OF br_fdb_delete_by_port_runs [OF if_wf_parts(2) [OF assms]]])
    (simp add: fdb_becomes_def wf_ports_fdb [OF assms])

lemma fdb_store_wf:
  assumes wf: "if_wf br" and g: "\<And>h. fdb_lookup br a = Some h \<Longrightarrow> entry_ok br (g h) \<and> f_addr (g h) = a"
  shows "if_wf (fdb_store a g br)" "fdb_core (fdb_store a g br) = fdb_core br"
proof -
  have b: "fdb_becomes br ((fdb_lookup br)(a := map_option g (fdb_lookup br a))) (fdb_store a g br)"
    using fdb.store [OF if_wf_parts(5) [OF wf], of a g] g by (auto simp: fdb_becomes_def)
  have "fdb_wf (fdb_store a g br)"
    by (rule fdb_becomes_shrink [OF if_wf_parts(2) [OF wf] b])
      (use g if_wf_parts(2) [OF wf] in \<open>auto simp: fdb_wf_def split: if_splits\<close>)
  then show "if_wf (fdb_store a g br)" "fdb_core (fdb_store a g br) = fdb_core br"
    using b if_wf_fdb [OF wf] by (simp_all add: fdb_becomes_def)
qed

text \<open>The dump touches only the times of the entries.\<close>

lemma fillbuf_entries_wf:
  assumes "if_wf br" "\<And>f. f \<in> set fs \<Longrightarrow> entry_ok br f"
  shows "runs (fillbuf_entries env maxnum skip fs br) wf_reply"
  using assms
proof (induction fs arbitrary: maxnum skip br)
  case (Cons f fs)
  obtain e br1 where h: "has_expired env f br = (e, br1)" by fastforce
  have "f_addr (blog_refresh env f) = f_addr f" by (simp add: blog_refresh_def split: option.split)
  then have s: "br1 = fdb_store (f_addr f) (\<lambda>_. blog_refresh env f) br" using h by (simp add: has_expired_def Let_def)
  have "entry_ok br (blog_refresh env f)" "f_addr (blog_refresh env f) = f_addr f"
    using Cons.prems(2) [of f] by (simp, simp add: blog_refresh_def split: option.split)
  then have br1: "if_wf br1" "fdb_core br1 = fdb_core br" unfolding s by (intro fdb_store_wf [OF Cons.prems(1)]; simp)+
  have ok: "entry_ok br1 g = entry_ok br g" for g by (rule entry_ok_cong [OF br1(2)])
  have IH: "runs (fillbuf_entries env m k fs br1) wf_reply" for m k
    using Cons.prems(2) ok by (intro Cons.IH [OF br1(1)]) simp
  have "\<exists>p. br_get_port br1 n = Some p" if "f_dst f = Some n" for n
    using Cons.prems(2) [of f] that ok [of f] br_get_port_ex [of n br1] by (simp add: entry_ok_def)
  then show ?case
    using IH Cons.prems(1) reply_map [OF IH] by (auto simp: h split: option.split)
qed simp

lemma get_fdb_entries_wf:
  assumes "if_wf br"
  shows "runs (get_fdb_entries env maxnum off br) wf_reply"
proof -
  have "entry_ok br f" if "f \<in> set (all_entries br)" for f
    using if_wf_parts(2) [OF assms] fdb.entries [OF if_wf_parts(5) [OF assms]] that by (auto simp: fdb_wf_def ran_def)
  then have "runs (br_fdb_fillbuf env m k br) wf_reply" for m k
    unfolding br_fdb_fillbuf_def by (rule fillbuf_entries_wf [OF assms])
  then show ?thesis using assms reply_map [of "br_fdb_fillbuf env m k br" for m k] by (auto simp: get_fdb_entries_def Let_def)
qed

section \<open>Requests on a port\<close>

text \<open>What the lookup of a device by index returns: a device with that index, flagged as a bridge port
  exactly when it is a port of this bridge.\<close>

definition devs_ok :: "br_env \<Rightarrow> net_bridge \<Rightarrow> bool" where
  "devs_ok env br \<longleftrightarrow> (\<forall>i d. env_dev env i = Some d \<longrightarrow>
     dev_ifindex d = i \<and> (and (dev_priv_flags d) IFF_BRIDGE_PORT \<noteq> 0 \<longleftrightarrow> i \<in> set (if_idxs br)))"

lemma port_by_ifindex_None: "port_by_ifindex i br = None \<longleftrightarrow> i \<notin> set (if_idxs br)"
  by (auto simp: port_by_ifindex_def find_None_iff if_idxs_def)

lemma on_port_runs:
  assumes "if_wf br" "devs_ok env br" "\<And>n. n \<in> set (port_nos br) \<Longrightarrow> runs (act n br) wf_reply"
  shows "runs (on_port env ifindex act br) wf_reply"
proof (cases "env_dev env (unat ifindex)")
  case (Some d)
  then have d: "and (dev_priv_flags d) IFF_BRIDGE_PORT \<noteq> 0 \<longleftrightarrow> dev_ifindex d \<in> set (if_idxs br)"
    using assms(2) by (simp add: devs_ok_def)
  show ?thesis
    using assms(1,3) d port_by_ifindex_None [of "dev_ifindex d" br] port_by_ifindex_nos [of "dev_ifindex d" br]
    by (auto simp: on_port_def Some br_port_get_rtnl_def split: option.split)
qed (simp add: on_port_def assms(1))

lemma for_macs_wf:
  assumes "\<And>s mac. wf_ports br s \<Longrightarrow> runs (f mac s) (\<lambda>(r, br'). wf_ports br br')" "wf_ports br s" "k \<le> length macs"
  shows "runs (for_macs f macs k ret s) (\<lambda>(r, br'). wf_ports br br')"
  using assms(2,3)
proof (induction macs arbitrary: k ret s)
  case (Cons mac macs)
  show ?case
  proof (cases k)
    case (Suc i)
    have "runs (f mac s) (\<lambda>(r, s). runs (for_macs f macs i r s) (\<lambda>(r, br'). wf_ports br br'))"
      by (rule runs_mono [OF assms(1) [OF Cons.prems(1)]]) (use Cons.IH Cons.prems(2) Suc in auto)
    then show ?thesis by (auto simp: Suc elim!: runs_mono)
  qed (use Cons.prems in simp)
qed simp

text \<open>As long as the size of the buffer does not wrap around.\<close>

definition macs_fit :: "u32 \<Rightarrow> bool" where
  "macs_fit maxnum \<longleftrightarrow> unat maxnum * ETH_ALEN < 2 ^ 32"

lemma copy_macs_length: "macs_fit maxnum \<Longrightarrow> length (copy_macs (maxnum * of_nat ETH_ALEN) userbuf) = unat maxnum"
  by (simp add: macs_fit_def copy_macs_def Let_def ETH_ALEN_def unat_mult_lem [THEN iffD1])

lemma for_macs_buffer_wf:
  assumes wf: "if_wf br" and fit: "macs_fit maxnum"
    and f: "\<And>s mac. wf_ports br s \<Longrightarrow> runs (f mac s) (\<lambda>(r, br'). wf_ports br br')"
  shows "runs (for_macs f (copy_macs (maxnum * of_nat ETH_ALEN) userbuf) (unat maxnum) None br) wf_reply"
proof -
  have "wf_ports br br" using wf by (simp add: wf_ports_def)
  then have "runs (for_macs f (copy_macs (maxnum * of_nat ETH_ALEN) userbuf) (unat maxnum) None br) (\<lambda>(r, br'). wf_ports br br')"
    using f by (intro for_macs_wf) (simp_all add: copy_macs_length [OF fit])
  then show ?thesis by (rule runs_mono) (auto simp: wf_ports_def)
qed

lemma wf_ports_step: "wf_ports br s \<Longrightarrow> wf_ports s s' \<Longrightarrow> wf_ports br s'"
  by (simp add: wf_ports_def)

lemma adddel_loop_wf:
  assumes "n \<in> set (port_nos br)" "wf_ports br s"
  shows "runs (br_fdb_adddel_static env n mac add s) (\<lambda>(r, br'). wf_ports br br')"
    "runs (br_fdb_update env n mac s) (wf_ports br)"
proof -
  have s: "if_wf s" "n \<in> set (port_nos s)" using assms by (simp_all add: wf_ports_def)
  show "runs (br_fdb_adddel_static env n mac add s) (\<lambda>(r, br'). wf_ports br br')"
    by (rule runs_mono [OF br_fdb_adddel_static_wf [OF s]]) (auto intro: wf_ports_step [OF assms(2)])
  show "runs (br_fdb_update env n mac s) (wf_ports br)"
    by (rule runs_mono [OF br_fdb_update_wf_ports [OF s]]) (rule wf_ports_step [OF assms(2)])
qed

lemma fdb_requests_wf:
  assumes wf: "if_wf br" and d: "devs_ok env br" and fit: "macs_fit maxnum"
  shows "runs (add_fdb_entries env userbuf maxnum ifindex isStatic br) wf_reply"
    "runs (delete_fdb_entries env userbuf maxnum ifindex br) wf_reply"
proof -
  have "runs (for_macs (\<lambda>mac br. if isStatic then br_fdb_adddel_static env n mac True br
      else do { br \<leftarrow> br_fdb_update env n mac br; Some (None, br) })
      (copy_macs (maxnum * of_nat ETH_ALEN) userbuf) (unat maxnum) None br) wf_reply"
    "runs (for_macs (\<lambda>mac. br_fdb_adddel_static env n mac False)
      (copy_macs (maxnum * of_nat ETH_ALEN) userbuf) (unat maxnum) None br) wf_reply"
    if n: "n \<in> set (port_nos br)" for n
    using adddel_loop_wf [OF n] by (intro for_macs_buffer_wf [OF wf fit]; simp)+
  then show "runs (add_fdb_entries env userbuf maxnum ifindex isStatic br) wf_reply"
    "runs (delete_fdb_entries env userbuf maxnum ifindex br) wf_reply"
    using wf on_port_runs [OF wf d]
    by (simp_all add: add_fdb_entries_def delete_fdb_entries_def Let_def)
qed

lemma port_switches_wf:
  assumes wf: "if_wf br" and d: "devs_ok env br"
  shows "runs (block_stp_loop env ifindex br) wf_reply" "runs (mark_dedicated_stp env ifindex x br) wf_reply"
    "runs (del_dyn_fdb_entries env ifindex br) wf_reply" "runs (del_static_fdb_entries env ifindex br) wf_reply"
proof -
  have p: "if_wf (upd_port n f br)" if "\<And>p. p_port_no (f p) = p_port_no p \<and> p_dev (f p) = p_dev p" for n f
  proof -
    have "map p_port_no (upd_list n f (b_port_list br)) = port_nos br" "map p_dev (upd_list n f (b_port_list br)) = map p_dev (b_port_list br)"
      using that by (simp_all add: upd_list_def port_nos_def comp_def if_distrib cong: if_cong)
    then show ?thesis unfolding upd_port_def by (rule frame_kept_wf [OF frame_kept_ports [OF wf]])
  qed
  have del: "runs (br_fdb_delete_by_port env n a br) if_wf" for n a
    by (rule runs_mono [OF br_fdb_delete_by_port_wf [OF wf]]) (simp add: wf_ports_def)
  show "runs (block_stp_loop env ifindex br) wf_reply" "runs (mark_dedicated_stp env ifindex x br) wf_reply"
    unfolding block_stp_loop_def mark_dedicated_stp_def by (rule on_port_runs [OF wf d], simp add: p)+
  show "runs (del_dyn_fdb_entries env ifindex br) wf_reply" "runs (del_static_fdb_entries env ifindex br) wf_reply"
    unfolding del_dyn_fdb_entries_def del_static_fdb_entries_def
    using wf on_port_runs [OF wf d] del by simp_all
qed

section \<open>Adding and removing ports\<close>

text \<open>A port that is removed has no device stacked on it, or no group points to it.\<close>

definition removable :: "net_bridge \<Rightarrow> nat \<Rightarrow> bool" where
  "removable br i \<longleftrightarrow> (\<forall>p. port_by_ifindex i br = Some p \<longrightarrow> dev_path_refcount (p_dev p) = 0 \<or> no_group_on (p_port_no p) br)"

lemma add_del_if_wf:
  assumes wf: "if_wf br" and d: "devs_ok env br" and g: "isadd \<or> removable br (unat ifindex)"
  shows "runs (add_del_if env ifindex isadd br) wf_reply"
proof (cases "env_dev env (unat ifindex)")
  case (Some dev)
  then have i: "dev_ifindex dev = unat ifindex" "and (dev_priv_flags dev) IFF_BRIDGE_PORT \<noteq> 0 \<longleftrightarrow> dev_ifindex dev \<in> set (if_idxs br)"
    using d by (auto simp: devs_ok_def)
  have "runs (br_add_if env dev br) wf_reply"
    by (rule runs_mono [OF br_add_if_runs [OF wf]]) (use i in \<open>auto simp: same_tables_def joined_def split: if_splits\<close>)
  moreover have "runs (br_del_if env dev br) wf_reply" if "\<not> isadd"
    using g that by (intro br_del_if_wf [OF wf]) (simp add: removable_def i(1))
  ultimately have "runs (if isadd then br_add_if env dev br else br_del_if env dev br) wf_reply" by simp
  then show ?thesis
    using wf by (auto simp: add_del_if_def Some elim!: runs_mono)
qed (use wf in \<open>simp add: add_del_if_def\<close>)

section \<open>Parameters\<close>

lemma if_wf_times [simp]:
  "if_wf (br\<lparr>b_bridge_forward_delay := t\<rparr>) = if_wf br" "if_wf (br\<lparr>b_forward_delay := t\<rparr>) = if_wf br"
  "if_wf (br\<lparr>b_bridge_hello_time := t\<rparr>) = if_wf br" "if_wf (br\<lparr>b_hello_time := t\<rparr>) = if_wf br"
  "if_wf (br\<lparr>b_bridge_max_age := t\<rparr>) = if_wf br" "if_wf (br\<lparr>b_max_age := t\<rparr>) = if_wf br"
proof -
  have c: "if_wf br' = if_wf br" if "br_wf br' = br_wf br" "b_port_list br' = b_port_list br" for br'
    using that by (simp add: if_wf_def port_nos_def if_idxs_def)
  show "if_wf (br\<lparr>b_bridge_forward_delay := t\<rparr>) = if_wf br" "if_wf (br\<lparr>b_forward_delay := t\<rparr>) = if_wf br"
    "if_wf (br\<lparr>b_bridge_hello_time := t\<rparr>) = if_wf br" "if_wf (br\<lparr>b_hello_time := t\<rparr>) = if_wf br"
    "if_wf (br\<lparr>b_bridge_max_age := t\<rparr>) = if_wf br" "if_wf (br\<lparr>b_max_age := t\<rparr>) = if_wf br"
    by (rule c; (rule br_wf_cong)?; simp add: port_nos_def)+
qed

lemma set_param_wf:
  assumes "if_wf br"
  shows "runs (set_param (br_set_forward_delay v) br) wf_reply" "runs (set_param (br_set_hello_time v) br) wf_reply"
    "runs (set_param (br_set_max_age v) br) wf_reply"
  using assms by (simp_all add: set_param_def br_set_forward_delay_def br_set_hello_time_def br_set_max_age_def Let_def)

lemma done_with_wf:
  assumes "if_wf br" "runs m (stp_kept br)"
  shows "runs (done_with m) wf_reply"
  using runs_mono [OF assms(2) if_wf_stp_kept [OF assms(1)]] by (simp add: done_with_def runs_map)

lemma stp_requests_wf:
  assumes wf: "if_wf br"
  shows "runs (done_with (br_stp_set_enabled env v br)) wf_reply"
    "runs (done_with (br_stp_set_bridge_priority prio br)) wf_reply"
    "br_get_port br n \<noteq> None \<Longrightarrow> runs (br_stp_set_port_priority n v br) wf_reply"
    "br_get_port br n \<noteq> None \<Longrightarrow> runs (br_stp_set_path_cost n v br) wf_reply"
proof -
  note b = if_wf_parts(1) [OF wf]
  show "runs (done_with (br_stp_set_enabled env v br)) wf_reply"
    by (rule done_with_wf [OF wf br_stp_set_enabled_kept [OF b]])
  show "runs (done_with (br_stp_set_bridge_priority prio br)) wf_reply"
    by (rule done_with_wf [OF wf]) (rule runs_mono [OF br_stp_set_bridge_priority_kept [OF b]], simp)
  assume "br_get_port br n \<noteq> None"
  then have n: "n \<in> set (port_nos br)" using br_get_port_eq_None_iff [of br n] by simp
  show "runs (br_stp_set_port_priority n v br) wf_reply"
    by (rule runs_mono [OF br_stp_set_port_priority_kept [OF b n]]) (auto intro: if_wf_stp_kept [OF wf])
  show "runs (br_stp_set_path_cost n v br) wf_reply"
    by (rule runs_mono [OF br_stp_set_path_cost_kept [OF b n]]) (auto intro: if_wf_stp_kept [OF wf])
qed

section \<open>The dispatch\<close>

text \<open>What a request has to meet: a port that is taken off is removable, and the number of addresses fits.\<close>

definition dev_request_ok :: "u32 \<Rightarrow> u32 \<Rightarrow> u32 \<Rightarrow> net_bridge \<Rightarrow> bool" where
  "dev_request_ok cmd arg1 arg2 br \<longleftrightarrow> (cmd = BRCTL_DEL_IF \<longrightarrow> removable br (unat arg1))
     \<and> (cmd \<in> {BRCTL_ADD_FDB_ENTRIES, BRCTL_DEL_FDB_ENTRIES, BRCTL_ADD_FDB_DYNAMIC_ENTRIES} \<longrightarrow> macs_fit arg2)"

lemma as_admin_wf: "if_wf br \<Longrightarrow> runs (act br) wf_reply \<Longrightarrow> runs (as_admin env act br) wf_reply"
  by (simp add: as_admin_def)

lemma dev_set_request_wf:
  assumes wf: "if_wf br" and d: "devs_ok env br" and ok: "dev_request_ok cmd arg1 arg2 br"
  shows "runs (dev_set_request env cmd arg1 arg2 arg3 userbuf br) wf_reply"
proof -
  have "runs (add_del_if env arg1 True br) wf_reply" by (rule add_del_if_wf [OF wf d]) simp
  moreover have "runs (add_del_if env arg1 False br) wf_reply" if "cmd = BRCTL_DEL_IF"
    using ok that by (intro add_del_if_wf [OF wf d]) (simp add: dev_request_ok_def)
  moreover have "runs (as_admin env (set_param (br_set_forward_delay arg1)) br) wf_reply"
    "runs (as_admin env (set_param (br_set_hello_time arg1)) br) wf_reply"
    "runs (as_admin env (set_param (br_set_max_age arg1)) br) wf_reply"
    by (rule as_admin_wf [OF wf] set_param_wf [OF wf])+
  moreover have "runs (as_admin env (\<lambda>br. Some (None, br\<lparr>b_ageing_time := t\<rparr>)) br) wf_reply" for t
    by (rule as_admin_wf [OF wf]) (simp add: wf)
  moreover have "runs (as_admin env (\<lambda>br. done_with (br_stp_set_enabled env arg1 br)) br) wf_reply"
    "runs (as_admin env (\<lambda>br. done_with (br_stp_set_bridge_priority (ucast arg1) br)) br) wf_reply"
    by (rule as_admin_wf [OF wf] stp_requests_wf [OF wf])+
  moreover have "runs (as_admin env (\<lambda>br. if br_get_port br n = None then Some (Some EINVAL, br)
      else br_stp_set_port_priority n arg2 br) br) wf_reply"
    "runs (as_admin env (\<lambda>br. if br_get_port br n = None then Some (Some EINVAL, br)
      else br_stp_set_path_cost n arg2 br) br) wf_reply" for n
    by (rule as_admin_wf [OF wf], simp add: wf stp_requests_wf [OF wf])+
  moreover have "runs (add_fdb_static_entries env userbuf arg2 arg3 br) wf_reply \<and> runs (delete_fdb_entries env userbuf arg2 arg3 br) wf_reply
      \<and> runs (add_fdb_dynamic_entries env userbuf arg2 arg3 br) wf_reply"
    if "cmd \<in> {BRCTL_ADD_FDB_ENTRIES, BRCTL_DEL_FDB_ENTRIES, BRCTL_ADD_FDB_DYNAMIC_ENTRIES}"
    using that ok fdb_requests_wf [OF wf d] by (simp add: dev_request_ok_def add_fdb_static_entries_def add_fdb_dynamic_entries_def)
  moreover note port_switches_wf [OF wf d]
  moreover have "if_wf (snd (set_flows env arg1 arg2 br))" using wf by (simp add: set_flows_def split: option.split)
  ultimately show ?thesis
    unfolding dev_set_request_def using wf by (simp add: split_beta del: runs_bind)
qed

definition args_ok :: "(u32 \<times> u32 \<times> u32 \<times> u32) option \<Rightarrow> net_bridge \<Rightarrow> bool" where
  "args_ok args br \<longleftrightarrow> (case args of None \<Rightarrow> True | Some (cmd, arg1, arg2, arg3) \<Rightarrow> dev_request_ok cmd arg1 arg2 br)"

lemma old_dev_ioctl_wf:
  assumes wf: "if_wf br" and d: "devs_ok env br" and ok: "args_ok args br"
  shows "runs (old_dev_ioctl env args userbuf copied br) wf_reply"
proof (cases args)
  case (Some a)
  obtain cmd arg1 arg2 arg3 where a: "a = (cmd, arg1, arg2, arg3)" by (cases a)
  have "dev_request_ok cmd arg1 arg2 br" using ok Some a by (simp add: args_ok_def)
  from reply_map [OF dev_set_request_wf [OF wf d this, of arg3 userbuf], of Reply] show ?thesis
    using wf reply_map [OF get_fdb_entries_wf [OF wf], where h = "\<lambda>r. if r = Inr [] then Fdb_reply [] else copy_reply copied Fdb_reply r"]
    by (simp add: old_dev_ioctl_def Some a)
qed (simp add: old_dev_ioctl_def wf)

lemma br_dev_ioctl_wf:
  assumes wf: "if_wf br" and d: "devs_ok env br" and ok: "args_ok args br"
      "cmd = SIOCBRDELIF \<Longrightarrow> removable br (unat ifindex)"
  shows "runs (br_dev_ioctl env cmd ifindex args userbuf copied br) wf_reply"
proof -
  have "runs (add_del_if env ifindex isadd br) (\<lambda>x. runs (case x of (a, br) \<Rightarrow> Some (Reply a, br)) wf_reply)"
    if "isadd \<or> removable br (unat ifindex)" for isadd
    by (rule reply_map [OF add_del_if_wf [OF wf d that]])
  then show ?thesis
    using old_dev_ioctl_wf [OF wf d ok(1)] wf ok(2) by (cases cmd) (simp_all add: br_dev_ioctl_def)
qed

section \<open>Requests without a device\<close>

text \<open>The name leads to this bridge, and a bridge that is deleted has no port with a device stacked on it.\<close>

definition bridge_request_ok :: "u32 \<Rightarrow> net_device option option \<Rightarrow> net_bridge \<Rightarrow> bool" where
  "bridge_request_ok cmd found br \<longleftrightarrow>
     (if cmd = BRCTL_DEL_BRIDGE then \<forall>p \<in> set (b_port_list br). dev_path_refcount (p_dev p) = 0
      else \<forall>d. found = Some (Some d) \<longrightarrow> dev_ifindex d = dev_ifindex (b_dev br))"

lemma br_del_bridge_wf:
  assumes "if_wf br" "\<forall>p \<in> set (b_port_list br). dev_path_refcount (p_dev p) = 0"
  shows "runs (br_del_bridge env found br) wf_reply"
proof -
  have "runs (br_dev_delete env br) if_wf" by (rule runs_mono [OF br_dev_delete_runs [OF assms]]) simp
  then show ?thesis using assms(1) by (cases found) (simp_all add: br_del_bridge_def)
qed

lemma on_bridge_wf:
  assumes "if_wf br" "\<And>d. found = Some (Some d) \<Longrightarrow> dev_ifindex d = dev_ifindex (b_dev br)" "if_wf (snd (act br))"
  shows "runs (on_bridge env found act br) wf_reply"
proof (cases "getDevice env found")
  case (Inr d)
  then have "found = Some (Some d)" by (simp add: getDevice_def split: if_splits option.splits)
  then show ?thesis using Inr assms(2,3) by (simp add: on_bridge_def split_beta)
qed (simp add: on_bridge_def assms(1))

lemma old_deviceless_wf:
  assumes wf: "if_wf br" and ok: "bridge_request_ok cmd found br"
  shows "runs (old_deviceless env cmd found arg2 br) wf_reply"
proof (cases "cmd = BRCTL_DEL_BRIDGE")
  case True
  then show ?thesis
    using wf ok br_del_bridge_wf [OF wf] by (auto simp: old_deviceless_def bridge_request_ok_def split: option.split)
next
  case False
  then have f: "found = Some (Some d) \<Longrightarrow> dev_ifindex d = dev_ifindex (b_dev br)" for d
    using ok by (simp add: bridge_request_ok_def)
  have r: "if_wf (br\<lparr>b_igmp_rate_limit := arg2, b_igmp_rate_last_packet := 0,
      b_igmp_rate_bucket := 0, b_igmp_rate_rem_time := 0\<rparr>)" (is "if_wf ?br") if "arg2 \<le> 500"
  proof -
    have eq: "?br = br\<lparr>b_igmp_rate_limit := arg2, b_igmp_rate_bucket := 0, b_igmp_rate_rem_time := 0, b_igmp_rate_last_packet := 0\<rparr>"
      by (rule net_bridge.equality) simp_all
    have "unat arg2 \<le> 500" using that by (simp add: word_le_nat_alt)
    then show ?thesis unfolding eq by (rule if_wf_rate [OF wf]) simp
  qed
  have ob: "runs (on_bridge env found act br) wf_reply" if "if_wf (snd (act br))" for act
    using wf f that by (rule on_bridge_wf)
  show ?thesis
    using False wf r ob by (simp add: old_deviceless_def not_less)
qed

end
