(* ===== verification/Sysfs.thy ===== *)
theory Sysfs
  imports Ioctl_Inv
begin

text \<open>
  The other ways user space configures the bridge: the files under \<open>/sys\<close>
  (\<open>net/bridge/br_sysfs_br.c\<close>, \<open>br_sysfs_if.c\<close>) with the number parser behind them
  (\<open>lib/vsprintf.c\<close>, \<open>lib/kstrtox.c\<close>), the netlink request that sets the state of a port
  (\<open>br_netlink.c\<close>), and the enumeration of ports for other drivers (\<open>br_notifier.c\<close>). A buffer is a
  string, which the kernel ends with a NUL character.
\<close>

section \<open>Numbers\<close>

definition tolower :: "char \<Rightarrow> nat" where
  "tolower c = or (of_char c) 0x20"

text \<open>The character at a position, NUL behind the end.\<close>

definition char_at :: "string \<Rightarrow> nat \<Rightarrow> char" where
  "char_at s i = (if i < length s then s ! i else CHR 0x00)"

definition digit_val :: "char \<Rightarrow> nat option" where
  "digit_val c =
     (if of_char CHR ''0'' \<le> (of_char c :: nat) \<and> of_char c \<le> (of_char CHR ''9'' :: nat)
      then Some (of_char c - of_char CHR ''0'')
      else if of_char CHR ''a'' \<le> tolower c \<and> tolower c \<le> of_char CHR ''f''
      then Some (tolower c - of_char CHR ''a'' + 10) else None)"

definition parse_integer_fixup_radix :: "string \<Rightarrow> nat \<Rightarrow> string \<times> nat" where
  "parse_integer_fixup_radix s base =
     (let base = (if base = 0
                  then (if char_at s 0 = CHR ''0''
                        then (if tolower (char_at s 1) = of_char CHR ''x'' \<and> digit_val (char_at s 2) \<noteq> None then 16 else 8)
                        else 10)
                  else base)
      in (if base = 16 \<and> char_at s 0 = CHR ''0'' \<and> tolower (char_at s 1) = of_char CHR ''x'' then drop 2 s else s, base))"

text \<open>The characters consumed, the value and whether it overflowed.\<close>

fun parse_integer :: "nat \<Rightarrow> string \<Rightarrow> nat \<Rightarrow> u64 \<Rightarrow> bool \<Rightarrow> nat \<times> u64 \<times> bool" where
  "parse_integer base [] rv res overflow = (rv, res, overflow)"
| "parse_integer base (c # s) rv res overflow =
     (case digit_val c of
        None \<Rightarrow> (rv, res, overflow)
      | Some val \<Rightarrow>
          if val \<ge> base then (rv, res, overflow)
          else parse_integer base s (rv + 1) (res * of_nat base + of_nat val)
                 (overflow \<or> and res (push_bit 60 (- 1)) \<noteq> 0 \<and> res > (- 1 - of_nat val) div of_nat base))"

text \<open>The value and the rest of the string; the overflow is ignored (\<open>FIXME\<close>).\<close>

definition simple_strtoull :: "string \<Rightarrow> nat \<Rightarrow> u64 \<times> string" where
  "simple_strtoull cp base =
     (let (cp, base) = parse_integer_fixup_radix cp base;
          (rv, result, overflow) = parse_integer base cp 0 0 False
      in (result, drop rv cp))"

definition simple_strtoul :: "string \<Rightarrow> nat \<Rightarrow> u32 \<times> string" where
  "simple_strtoul cp base = (let (result, endp) = simple_strtoull cp base in (ucast result, endp))"

text \<open>Decimal output (\<open>%lu\<close> and \<open>%d\<close>).\<close>

fun dec :: "nat \<Rightarrow> string" where
  "dec n = (if n < 10 then [char_of (48 + n)] else dec (n div 10) @ [char_of (48 + n mod 10)])"

declare dec.simps [simp del]

definition dec_int :: "int \<Rightarrow> string" where
  "dec_int i = (if i < 0 then CHR ''-'' # dec (nat (- i)) else dec (nat i))"

abbreviation line :: "string \<Rightarrow> string" where
  "line s \<equiv> s @ [CHR 0x0A]"

section \<open>Attributes of the bridge\<close>

definition store_bridge_parm ::
  "br_env \<Rightarrow> string \<Rightarrow> (u32 \<Rightarrow> net_bridge \<Rightarrow> (result \<times> net_bridge) option) \<Rightarrow> net_bridge \<Rightarrow> (result \<times> net_bridge) option" where
  "store_bridge_parm env buf setter br =
     (if \<not> env_capable env then Some (Some EPERM, br)
      else let (val, endp) = simple_strtoul buf 0
           in if length endp = length buf then Some (Some EINVAL, br) else setter val br)"

definition show_forward_delay :: "net_bridge \<Rightarrow> string" where
  "show_forward_delay br = line (dec (unat (jiffies_to_clock_t (b_forward_delay br))))"

definition store_forward_delay :: "br_env \<Rightarrow> string \<Rightarrow> net_bridge \<Rightarrow> (result \<times> net_bridge) option" where
  "store_forward_delay env buf = store_bridge_parm env buf (\<lambda>val. set_param (br_set_forward_delay val))"

definition set_igmp_proxy :: "u32 \<Rightarrow> net_bridge \<Rightarrow> net_bridge" where
  "set_igmp_proxy val br = br\<lparr>b_igmp_proxy := (val > 0)\<rparr>"

definition store_igmp_proxy :: "br_env \<Rightarrow> string \<Rightarrow> net_bridge \<Rightarrow> (result \<times> net_bridge) option" where
  "store_igmp_proxy env buf = store_bridge_parm env buf (\<lambda>val br. Some (None, set_igmp_proxy val br))"

definition show_igmp_proxy :: "net_bridge \<Rightarrow> string" where
  "show_igmp_proxy br = line (if b_igmp_proxy br then ''Enabled'' else ''Disabled'')"

definition set_igmp_snooping :: "u32 \<Rightarrow> net_bridge \<Rightarrow> net_bridge" where
  "set_igmp_snooping val br =
     br\<lparr>b_igmp_snooping := (if val > of_nat SNOOPING_BLOCKING_MODE then 0 else unat val)\<rparr>"

definition store_igmp_snooping :: "br_env \<Rightarrow> string \<Rightarrow> net_bridge \<Rightarrow> (result \<times> net_bridge) option" where
  "store_igmp_snooping env buf = store_bridge_parm env buf (\<lambda>val br. Some (None, set_igmp_snooping val br))"

definition show_hello_time :: "net_bridge \<Rightarrow> string" where
  "show_hello_time br = line (dec (unat (jiffies_to_clock_t (b_hello_time br))))"

definition store_hello_time :: "br_env \<Rightarrow> string \<Rightarrow> net_bridge \<Rightarrow> (result \<times> net_bridge) option" where
  "store_hello_time env buf = store_bridge_parm env buf (\<lambda>val. set_param (br_set_hello_time val))"

definition show_max_age :: "net_bridge \<Rightarrow> string" where
  "show_max_age br = line (dec (unat (jiffies_to_clock_t (b_max_age br))))"

definition store_max_age :: "br_env \<Rightarrow> string \<Rightarrow> net_bridge \<Rightarrow> (result \<times> net_bridge) option" where
  "store_max_age env buf = store_bridge_parm env buf (\<lambda>val. set_param (br_set_max_age val))"

definition show_ageing_time :: "net_bridge \<Rightarrow> string" where
  "show_ageing_time br = line (dec (unat (jiffies_to_clock_t (b_ageing_time br))))"

definition set_ageing_time :: "u32 \<Rightarrow> net_bridge \<Rightarrow> net_bridge" where
  "set_ageing_time val br = br\<lparr>b_ageing_time := clock_t_to_jiffies val\<rparr>"

definition store_ageing_time :: "br_env \<Rightarrow> string \<Rightarrow> net_bridge \<Rightarrow> (result \<times> net_bridge) option" where
  "store_ageing_time env buf = store_bridge_parm env buf (\<lambda>val br. Some (None, set_ageing_time val br))"

fun stp_enabled_num :: "stp_enabled \<Rightarrow> int" where
  "stp_enabled_num BR_NO_STP = 0"
| "stp_enabled_num BR_KERNEL_STP = 1"
| "stp_enabled_num BR_USER_STP = 2"

definition show_stp_state :: "net_bridge \<Rightarrow> string" where
  "show_stp_state br = line (dec_int (stp_enabled_num (b_stp_enabled br)))"

text \<open>\<open>locked\<close> is whether \<open>rtnl_trylock\<close> succeeds.\<close>

definition store_stp_state :: "br_env \<Rightarrow> bool \<Rightarrow> string \<Rightarrow> net_bridge \<Rightarrow> (result \<times> net_bridge) option" where
  "store_stp_state env locked buf = store_bridge_parm env buf (\<lambda>val br.
     if \<not> locked then Some (Some ERESTARTNOINTR, br) else done_with (br_stp_set_enabled env val br))"

definition BR_GROUPFWD_RESTRICTED :: u32 where "BR_GROUPFWD_RESTRICTED = 0x4007"

definition store_group_fwd_mask :: "br_env \<Rightarrow> string \<Rightarrow> net_bridge \<Rightarrow> (result \<times> net_bridge) option" where
  "store_group_fwd_mask env buf = store_bridge_parm env buf (\<lambda>val br.
     if and val BR_GROUPFWD_RESTRICTED \<noteq> 0 then Some (Some EINVAL, br)
     else Some (None, br\<lparr>b_group_fwd_mask := ucast val\<rparr>))"

definition show_priority :: "net_bridge \<Rightarrow> string" where
  "show_priority br = line (dec_int (or (push_bit 8 (uint (id_prio0 (b_bridge_id br)))) (uint (id_prio1 (b_bridge_id br)))))"

definition store_priority :: "br_env \<Rightarrow> string \<Rightarrow> net_bridge \<Rightarrow> (result \<times> net_bridge) option" where
  "store_priority env buf = store_bridge_parm env buf (\<lambda>val br. done_with (br_stp_set_bridge_priority (ucast val) br))"

definition show_root_port :: "net_bridge \<Rightarrow> string" where
  "show_root_port br = line (dec_int (uint (b_root_port br)))"

text \<open>The cost is printed as a signed number.\<close>

definition show_root_path_cost :: "net_bridge \<Rightarrow> string" where
  "show_root_path_cost br = line (dec_int (sint (b_root_path_cost br)))"

text \<open>\<open>new_addr\<close> is what \<open>sscanf\<close> converts of the six hexadecimal numbers.\<close>

definition store_group_addr :: "br_env \<Rightarrow> u32 list \<Rightarrow> net_bridge \<Rightarrow> result \<times> net_bridge" where
  "store_group_addr env new_addr br =
     (if \<not> env_capable env then (Some EPERM, br)
      else case new_addr of
          [a0, a1, a2, a3, a4, a5] \<Rightarrow>
            if [a0, a1, a2, a3, a4] \<noteq> [0x01, 0x80, 0xc2, 0x00, 0x00] then (Some EINVAL, br)
            else if and a5 (not 0xf) \<noteq> 0 then (Some EINVAL, br)
            else if a5 = 1 \<or> a5 = 2 \<or> a5 = 3 then (Some EINVAL, br)
            else (None, br\<lparr>b_group_addr := Mac (ucast a0) (ucast a1) (ucast a2) (ucast a3) (ucast a4) (ucast a5)\<rparr>)
        | _ \<Rightarrow> (Some EINVAL, br))"

definition store_flush :: "br_env \<Rightarrow> net_bridge \<Rightarrow> (result \<times> net_bridge) option" where
  "store_flush env br = (if \<not> env_capable env then Some (Some EPERM, br) else done_with (br_fdb_flush env br))"

section \<open>Attributes of a port\<close>

definition store_flush_port :: "br_env \<Rightarrow> u16 \<Rightarrow> net_bridge \<Rightarrow> (result \<times> net_bridge) option" where
  "store_flush_port env n br = done_with (br_fdb_delete_by_port env n 0 br)"

definition store_hairpin_mode :: "u16 \<Rightarrow> u32 \<Rightarrow> net_bridge \<Rightarrow> net_bridge" where
  "store_hairpin_mode n v br =
     upd_port n (\<lambda>p. p\<lparr>p_flags := (if v \<noteq> 0 then or (p_flags p) BR_HAIRPIN_MODE
                                     else and (p_flags p) (not BR_HAIRPIN_MODE))\<rparr>) br"

text \<open>The attributes that can be written, and one that cannot.\<close>

datatype brport_attr = Attr_path_cost | Attr_priority | Attr_flush | Attr_hairpin_mode | Attr_read_only

definition brport_store ::
  "br_env \<Rightarrow> bool \<Rightarrow> u16 \<Rightarrow> brport_attr \<Rightarrow> string \<Rightarrow> net_bridge \<Rightarrow> (result \<times> net_bridge) option" where
  "brport_store env locked n attr buf br =
     (if \<not> env_capable env then Some (Some EPERM, br)
      else let (val, endp) = simple_strtoul buf 0
           in if length endp = length buf then Some (Some EINVAL, br)
              else if \<not> locked then Some (Some ERESTARTNOINTR, br)
              else case attr of
                  Attr_path_cost \<Rightarrow> br_stp_set_path_cost n val br
                | Attr_priority \<Rightarrow> br_stp_set_port_priority n val br
                | Attr_flush \<Rightarrow> store_flush_port env n br
                | Attr_hairpin_mode \<Rightarrow> Some (None, store_hairpin_mode n val br)
                | Attr_read_only \<Rightarrow> Some (Some EINVAL, br))"

definition show_hairpin_mode :: "net_bridge_port \<Rightarrow> string" where
  "show_hairpin_mode p = line (dec_int (if and (p_flags p) BR_HAIRPIN_MODE \<noteq> 0 then 1 else 0))"

definition show_path_cost :: "net_bridge_port \<Rightarrow> string" where
  "show_path_cost p = line (dec_int (sint (p_path_cost p)))"

section \<open>Setting the state of a port by netlink\<close>

text \<open>What \<open>br_rtm_setlink\<close> reads of a message: whether it is long enough, its family is
  \<open>AF_BRIDGE\<close>, the bytes of \<open>IFLA_PROTINFO\<close> and the interface index. A request for a port of another bridge
  acts on that bridge and has no value here.\<close>

record setlink_request =
  sl_long :: bool
  sl_bridge :: bool
  sl_protinfo :: "u8 list option"
  sl_ifindex :: u32

definition state_of_num :: "u8 \<Rightarrow> br_state option" where
  "state_of_num n =
     (if n = 0 then Some BR_STATE_DISABLED else if n = 1 then Some BR_STATE_LISTENING
      else if n = 2 then Some BR_STATE_LEARNING else if n = 3 then Some BR_STATE_FORWARDING
      else if n = 4 then Some BR_STATE_BLOCKING else None)"

definition br_rtm_setlink :: "br_env \<Rightarrow> setlink_request \<Rightarrow> net_bridge \<Rightarrow> (result \<times> net_bridge) option" where
  "br_rtm_setlink env req br =
     (if \<not> sl_long req then Some (Some EINVAL, br)
      else if \<not> sl_bridge req then Some (Some EPFNOSUPPORT, br)
      else case sl_protinfo req of
          None \<Rightarrow> Some (Some EINVAL, br)
        | Some [] \<Rightarrow> Some (Some EINVAL, br)
        | Some (b # bs) \<Rightarrow>
            (case state_of_num b of
               None \<Rightarrow> Some (Some EINVAL, br)
             | Some new_state \<Rightarrow>
                 (case env_dev env (unat (sl_ifindex req)) of
                    None \<Rightarrow> Some (Some ENODEV, br)
                  | Some dev \<Rightarrow> do {
                      port \<leftarrow> br_port_get_rtnl dev br;
                      case port of
                        None \<Rightarrow> Some (Some EINVAL, br)
                      | Some n \<Rightarrow>
                          if b_stp_enabled br = BR_KERNEL_STP then Some (Some EBUSY, br)
                          else if \<not> dev_running dev \<or> (\<not> dev_carrier dev \<and> new_state \<noteq> BR_STATE_DISABLED)
                          then Some (Some ENETDOWN, br)
                          else do {
                            br \<leftarrow> br_port_state_selection (br_log_state n (upd_port n (\<lambda>p. p\<lparr>p_state := new_state\<rparr>) br));
                            Some (None, emit (Br_ifinfo_notify n) br)
                          }
                    })))"

definition br_validate :: "u8 list option \<Rightarrow> result" where
  "br_validate address =
     (case address of
        None \<Rightarrow> None
      | Some bs \<Rightarrow> (case mac_of_bytes bs of
            None \<Rightarrow> Some EINVAL
          | Some a \<Rightarrow> if \<not> is_valid_ether_addr a then Some EADDRNOTAVAIL else None))"

section \<open>Enumerating the ports\<close>

text \<open>The device and the updated number; \<open>found\<close> is whether the name is that of the bridge.\<close>

definition bridge_get_next_port :: "bool \<Rightarrow> u32 \<Rightarrow> net_bridge \<Rightarrow> net_device option \<times> u32" where
  "bridge_get_next_port found brPort br =
     (if \<not> found then (None, brPort)
      else case b_port_list br of
          [] \<Rightarrow> (None, brPort)
        | np # ps \<Rightarrow>
            if brPort = 0xFFFFFFFF then (Some (p_dev np), ucast (p_port_no np))
            else (case dropWhile (\<lambda>p. p_port_no p \<noteq> ucast brPort) (np # ps) of
                [] \<Rightarrow> (None, brPort)
              | [cp] \<Rightarrow> (None, brPort)
              | cp # np # ps \<Rightarrow> (Some (p_dev np), ucast (p_port_no np))))"

end
