(* ===== verification/Sysfs_Props.thy ===== *)
theory Sysfs_Props
  imports Sysfs Ioctl_Props
begin

text \<open>
  Writing to the files under \<open>/sys\<close> and the netlink request on a port keep the invariants; numbers are
  read back as they were written; the enumeration of ports visits each once.
\<close>

section \<open>Invariants\<close>

lemma store_bridge_parm_wf:
  assumes "if_wf br" "\<And>val. runs (setter val br) wf_reply"
  shows "runs (store_bridge_parm env buf setter br) wf_reply"
  using assms by (simp add: store_bridge_parm_def split: prod.split)

lemma br_fdb_flush_wf:
  assumes "if_wf br"
  shows "runs (done_with (br_fdb_flush env br)) wf_reply"
proof -
  have "runs (br_fdb_flush env br) if_wf"
    by (rule runs_mono [OF br_fdb_flush_runs [OF if_wf_parts(2) [OF assms]]]) (simp add: fdb_becomes_def if_wf_fdb [OF assms])
  then show ?thesis by (simp add: done_with_def runs_map)
qed

datatype sysfs_request =
    Store_forward_delay string | Store_igmp_proxy string | Store_igmp_snooping string | Store_hello_time string
  | Store_max_age string | Store_ageing_time string | Store_stp_state bool string | Store_group_fwd_mask string
  | Store_priority string | Store_group_addr "u32 list" | Store_flush
  | Brport_store bool u16 brport_attr string

text \<open>The store function of each file.\<close>

fun sysfs_store :: "br_env \<Rightarrow> sysfs_request \<Rightarrow> net_bridge \<Rightarrow> (result \<times> net_bridge) option" where
  "sysfs_store env (Store_forward_delay buf) br = store_forward_delay env buf br"
| "sysfs_store env (Store_igmp_proxy buf) br = store_igmp_proxy env buf br"
| "sysfs_store env (Store_igmp_snooping buf) br = store_igmp_snooping env buf br"
| "sysfs_store env (Store_hello_time buf) br = store_hello_time env buf br"
| "sysfs_store env (Store_max_age buf) br = store_max_age env buf br"
| "sysfs_store env (Store_ageing_time buf) br = store_ageing_time env buf br"
| "sysfs_store env (Store_stp_state locked buf) br = store_stp_state env locked buf br"
| "sysfs_store env (Store_group_fwd_mask buf) br = store_group_fwd_mask env buf br"
| "sysfs_store env (Store_priority buf) br = store_priority env buf br"
| "sysfs_store env (Store_group_addr new_addr) br = Some (store_group_addr env new_addr br)"
| "sysfs_store env Store_flush br = store_flush env br"
| "sysfs_store env (Brport_store locked n attr buf) br = brport_store env locked n attr buf br"

text \<open>The directory of a port exists as long as the port does.\<close>

definition sysfs_ok :: "sysfs_request \<Rightarrow> net_bridge \<Rightarrow> bool" where
  "sysfs_ok req br \<longleftrightarrow> (\<forall>locked n attr buf. req = Brport_store locked n attr buf \<longrightarrow> n \<in> set (port_nos br))"

lemma brport_store_wf:
  assumes wf: "if_wf br" and n: "n \<in> set (port_nos br)"
  shows "runs (brport_store env locked n attr buf br) wf_reply"
proof -
  have p: "br_get_port br n \<noteq> None" using n br_get_port_eq_None_iff [of br n] by simp
  have "runs (store_flush_port env n br) wf_reply"
    using runs_mono [OF br_fdb_delete_by_port_wf [OF wf, of env n 0], of if_wf]
    by (simp add: store_flush_port_def done_with_def runs_map wf_ports_def)
  moreover have "if_wf (store_hairpin_mode n v br)" for v
    unfolding store_hairpin_mode_def upd_port_def
    by (rule frame_kept_wf [OF frame_kept_ports [OF wf]])
      (simp_all add: upd_list_def port_nos_def comp_def if_distrib cong: if_cong)
  ultimately show ?thesis
    using wf stp_requests_wf(3,4) [OF wf p] by (cases attr) (simp_all add: brport_store_def split: prod.split)
qed

lemma sysfs_store_wf:
  assumes wf: "if_wf br" and ok: "sysfs_ok req br"
  shows "runs (sysfs_store env req br) wf_reply"
proof -
  note s = store_bridge_parm_wf [OF wf]
  show ?thesis
  proof (cases req)
    case (Store_group_addr new_addr)
    have "if_wf (snd (store_group_addr env new_addr br))"
      using wf by (simp add: store_group_addr_def split: list.split)
    then show ?thesis by (simp add: Store_group_addr split_beta)
  next
    case (Brport_store locked n attr buf)
    then show ?thesis using brport_store_wf [OF wf] ok by (simp add: sysfs_ok_def)
  qed (use wf set_param_wf [OF wf] stp_requests_wf(1,2) [OF wf] br_fdb_flush_wf [OF wf] in
      \<open>auto simp: store_forward_delay_def store_igmp_proxy_def store_igmp_snooping_def store_hello_time_def store_max_age_def
        store_ageing_time_def store_stp_state_def store_group_fwd_mask_def store_priority_def store_flush_def
        set_igmp_proxy_def set_igmp_snooping_def set_ageing_time_def intro!: s\<close>)
qed

text \<open>Setting the state of a port.\<close>

lemma br_log_state_kept: "stp_kept br br' \<Longrightarrow> stp_kept br (br_log_state n br')"
  by (simp add: br_log_state_def br_stp_notify_state_port_def stp_kept_emit split: option.split)

lemma br_rtm_setlink_wf:
  assumes wf: "if_wf br" and d: "devs_ok env br"
  shows "runs (br_rtm_setlink env req br) wf_reply"
proof -
  have sel: "runs (do { br \<leftarrow> br_port_state_selection (br_log_state n (upd_port n (\<lambda>p. p\<lparr>p_state := st\<rparr>) br));
      Some (None, emit (Br_ifinfo_notify n) br) }) wf_reply" for n st
  proof -
    have "stp_kept br (br_log_state n (upd_port n (\<lambda>p. p\<lparr>p_state := st\<rparr>) br))"
      by (intro br_log_state_kept stp_kept_core [OF if_wf_parts(1) [OF wf]]) simp
    from br_port_state_selection_kept [OF this] show ?thesis
      using if_wf_stp_kept [OF wf] by (auto elim!: runs_mono)
  qed
  have p: "runs (Option.bind (br_port_get_rtnl dev br) (case_option (Some (Some EINVAL, br)) act)) wf_reply"
    if "env_dev env i = Some dev" "\<And>n. runs (act n) wf_reply" for i dev and act :: "u16 \<Rightarrow> (result \<times> net_bridge) option"
  proof -
    have "and (dev_priv_flags dev) IFF_BRIDGE_PORT \<noteq> 0 \<longleftrightarrow> dev_ifindex dev \<in> set (if_idxs br)"
      using d that(1) by (auto simp: devs_ok_def)
    then show ?thesis
      using wf that(2) port_by_ifindex_None [of "dev_ifindex dev" br]
      by (cases "port_by_ifindex (dev_ifindex dev) br") (simp_all add: br_port_get_rtnl_def)
  qed
  show ?thesis
    unfolding br_rtm_setlink_def
    using wf sel by (auto split: option.split list.split intro!: p simp del: runs_bind)
qed

section \<open>Numbers are read back as they are written\<close>

lemma digit_val_digit: "d < 10 \<Longrightarrow> digit_val (char_of (48 + d)) = Some d"
  by (simp add: digit_val_def of_char_of)

lemma parse_digit:
  assumes "d < 10"
  shows "\<exists>overflow'. parse_integer 10 (char_of (48 + d) # s) rv res overflow
     = parse_integer 10 s (Suc rv) (res * 10 + of_nat d) overflow'"
  using assms by (auto simp: digit_val_digit)

lemma parse_dec:
  "\<exists>overflow'. parse_integer 10 (dec n @ s) rv res overflow
     = parse_integer 10 s (rv + length (dec n)) (res * 10 ^ length (dec n) + of_nat n) overflow'"
proof (induction n arbitrary: s rv res overflow rule: dec.induct)
  case (1 n)
  show ?case
  proof (cases "n < 10")
    case True
    then show ?thesis using parse_digit [of n s rv res overflow] by (simp add: dec.simps [of n])
  next
    case False
    let ?k = "length (dec (n div 10))" and ?c = "char_of (48 + n mod 10) :: char"
    have n: "dec n = dec (n div 10) @ [?c]" "length (dec n) = Suc ?k" using False by (simp_all add: dec.simps [of n])
    obtain o1 where 1: "parse_integer 10 (dec (n div 10) @ ?c # s) rv res overflow
        = parse_integer 10 (?c # s) (rv + ?k) (res * 10 ^ ?k + of_nat (n div 10)) o1"
      using "1.IH" [OF False] by blast
    obtain o2 where 2: "parse_integer 10 (?c # s) (rv + ?k) (res * 10 ^ ?k + of_nat (n div 10)) o1
        = parse_integer 10 s (Suc (rv + ?k)) ((res * 10 ^ ?k + of_nat (n div 10)) * 10 + of_nat (n mod 10)) o2"
      using parse_digit [of "n mod 10"] by (meson mod_less_divisor zero_less_numeral)
    have "of_nat (n div 10) * 10 + of_nat (n mod 10) = (of_nat (n div 10 * 10 + n mod 10) :: u64)"
      by (simp only: of_nat_add of_nat_mult of_nat_numeral)
    then have "(x + of_nat (n div 10)) * 10 + of_nat (n mod 10) = x * 10 + (of_nat n :: u64)" for x
      by (simp add: distrib_right add.assoc)
    from this [of "res * 10 ^ ?k"]
    have "(res * 10 ^ ?k + of_nat (n div 10)) * 10 + of_nat (n mod 10) = res * 10 ^ length (dec n) + of_nat n"
      by (simp only: n(2) power_Suc2 mult.assoc)
    with 1 2 have "parse_integer 10 (dec (n div 10) @ ?c # s) rv res overflow
        = parse_integer 10 s (rv + length (dec n)) (res * 10 ^ length (dec n) + of_nat n) o2"
      by (simp only: n(2) add_Suc_right)
    then show ?thesis by (intro exI [of _ o2]) (simp add: n(1))
  qed
qed

lemma dec_first:
  assumes "0 < n"
  shows "\<exists>d s. dec n = char_of (48 + d) # s \<and> 0 < d \<and> d < (10 :: nat)"
  using assms
proof (induction n rule: dec.induct)
  case (1 n)
  show ?case
  proof (cases "n < 10")
    case True
    then show ?thesis using 1(2) by (intro exI [of _ n]) (simp add: dec.simps [of n])
  next
    case False
    then have "0 < n div 10" by simp
    then obtain d s where "dec (n div 10) = char_of (48 + d) # s" "0 < d" "d < (10 :: nat)" using 1(1) [OF False] by blast
    then show ?thesis using False by (intro exI [of _ d]) (simp add: dec.simps [of n])
  qed
qed

lemma simple_strtoul_dec:
  assumes "n < 2 ^ 32"
  shows "simple_strtoul (line (dec n)) 0 = (of_nat n, [CHR 0x0A])"
proof (cases "n = 0")
  case True
  show ?thesis unfolding True by code_simp
next
  case False
  then obtain d s where d: "dec n = char_of (48 + d) # s" "0 < d" "d < (10 :: nat)" using dec_first [of n] by blast
  have "(of_char (char_of (48 + d) :: char) :: nat) \<noteq> of_char CHR ''0''" using d by (simp add: of_char_of)
  then have ne: "char_of (48 + d) \<noteq> CHR ''0''" by metis
  then have radix: "parse_integer_fixup_radix (line (dec n)) 0 = (line (dec n), 10)"
    by (simp add: parse_integer_fixup_radix_def d(1) char_at_def)
  have nl: "digit_val (CHR 0x0A) = None" by code_simp
  obtain ov where "parse_integer 10 (line (dec n)) 0 0 False = (length (dec n), of_nat n, ov)"
    using parse_dec [of n "[CHR 0x0A]" 0 0 False] nl by auto
  moreover have "ucast (of_nat n :: u64) = (of_nat n :: u32)"
    using assms by (simp add: unsigned_of_nat unsigned_ucast_eq word_eq_iff_unsigned take_bit_nat_eq_self)
  ultimately show ?thesis using radix by (simp add: simple_strtoul_def simple_strtoull_def)
qed

text \<open>What is written to the ageing time file is what the file shows. For every number of clock
  ticks below the one at which the conversion saturates, writing its decimal form succeeds, sets the
  ageing time to ten jiffies a tick, and reading the file gives the same decimal form back.\<close>

lemma ageing_time_roundtrip:
  assumes "env_capable env" "v < 429496729"
  shows "runs (store_ageing_time env (line (dec v)) br) (\<lambda>(r, br'). r = None
    \<and> br' = br\<lparr>b_ageing_time := of_nat (10 * v)\<rparr> \<and> show_ageing_time br' = line (dec v))"
proof -
  have u: "unat (of_nat m :: u32) = m" if "m < 2 ^ 32" for m
    using that by (simp add: unsigned_of_nat take_bit_nat_eq_self)
  have n: "unat (of_nat v :: u32) = v" "unat (of_nat (10 * v) :: u32) = 10 * v"
    by (rule u, use assms(2) in simp)+
  have "\<not> (of_nat v :: u32) \<ge> (- 1) div (HZ div USER_HZ)"
    using assms(2) n(1) by (simp add: word_le_nat_alt HZ_def USER_HZ_def unat_div_distrib)
  then have c: "clock_t_to_jiffies (of_nat v) = of_nat (10 * v)"
    by (simp add: clock_t_to_jiffies_def HZ_def USER_HZ_def)
  have "simple_strtoul (line (dec v)) 0 = (of_nat v, [CHR 0x0A])"
    by (rule simple_strtoul_dec) (use assms(2) in simp)
  moreover have "length [CHR 0x0A] \<noteq> length (line (dec v))" by (subst dec.simps) simp
  moreover have "unat (jiffies_to_clock_t (of_nat (10 * v))) = v"
    unfolding jiffies_to_clock_t_def n(2) using n(1) by (simp add: TICK_NSEC_def)
  ultimately show ?thesis
    using assms(1) c by (simp add: store_ageing_time_def store_bridge_parm_def set_ageing_time_def show_ageing_time_def)
qed

section \<open>The enumeration visits every port\<close>

lemma dropWhile_until_nth:
  "distinct (map f xs) \<Longrightarrow> i < length xs \<Longrightarrow> dropWhile (\<lambda>x. f x \<noteq> f (xs ! i)) xs = drop i xs"
proof (induction xs arbitrary: i)
  case (Cons x xs)
  show ?case
  proof (cases i)
    case (Suc j)
    then have "f x \<noteq> f (xs ! j)" using Cons.prems by auto
    then show ?thesis using Cons Suc by simp
  qed simp
qed simp

text \<open>The number a caller passes for its \<open>i\<close>-th call.\<close>

definition port_cursor :: "net_bridge \<Rightarrow> nat \<Rightarrow> u32" where
  "port_cursor br i = (case i of 0 \<Rightarrow> 0xFFFFFFFF | Suc j \<Rightarrow> ucast (p_port_no (b_port_list br ! j)))"

lemma next_port_enumerates:
  assumes wf: "if_wf br" and i: "i \<le> length (b_port_list br)"
  shows "bridge_get_next_port True (port_cursor br i) br
    = (if i < length (b_port_list br) then (Some (p_dev (b_port_list br ! i)), port_cursor br (Suc i))
       else (None, port_cursor br i))"
proof (cases i)
  case 0
  then show ?thesis by (simp add: bridge_get_next_port_def port_cursor_def split: list.split)
next
  case (Suc j)
  let ?ps = "b_port_list br" let ?n = "p_port_no (?ps ! j)"
  have d: "distinct (map p_port_no ?ps)" using if_wf_parts(3) [OF wf] by (simp add: stp_wf_def port_nos_def)
  have j: "j < length ?ps" using i Suc by simp
  have lt: "unat ?n < 65536" using unsigned_less [of ?n, where ?'a = nat] by simp
  then have "unat (ucast ?n :: u32) < 65536" by (simp add: unsigned_ucast_eq take_bit_nat_eq_self)
  then have "ucast ?n \<noteq> (0xFFFFFFFF :: u32)" by auto
  moreover have "ucast (ucast ?n :: u32) = ?n" by (simp add: word_unat_eq_iff unsigned_ucast_eq take_bit_word_eq_self)
  moreover have "dropWhile (\<lambda>p. p_port_no p \<noteq> ?n) ?ps = ?ps ! j # drop (Suc j) ?ps"
    using dropWhile_until_nth [OF d j] Cons_nth_drop_Suc [OF j] by simp
  moreover have "drop (Suc j) ?ps = (if Suc j < length ?ps then ?ps ! Suc j # drop (Suc (Suc j)) ?ps else [])"
    using Cons_nth_drop_Suc [of "Suc j" ?ps] by simp
  moreover have "?ps \<noteq> []" using j by auto
  ultimately show ?thesis
    by (cases ?ps) (auto simp: bridge_get_next_port_def port_cursor_def Suc)
qed

end
