(* ===== verification/Input_Props.thy ===== *)
theory Input_Props
  imports Sysfs_Props
begin

text \<open>
  What happens to frames: a port that neither learns nor forwards drops them, and multicast data goes
  once to every port with a membership.
\<close>

section \<open>Ports that are blocked\<close>

lemma br_fdb_update_blocked:
  assumes "br_get_port br n = Some p" "p_state p \<notin> {BR_STATE_LEARNING, BR_STATE_FORWARDING}"
  shows "br_fdb_update env n a br = Some br"
  using assms by (auto simp: br_fdb_update_def)

text \<open>C9: Nothing gets through a port that is disabled, listening or blocking. A frame that arrives
  there is dropped without being learned, forwarded or given to the host, whatever the hooks say;
  the bridge is as before but for the record that the frame was freed or taken by the filter. Only
  a frame for a reserved link-local address (spanning tree messages among them) and a looped back
  one go on to the host's protocol handlers. The exception is the wireless driver's event frames,
  which the source lets through on purpose.\<close>

theorem blocked_port_drops:
  assumes "if_wf br" "port_by_ifindex (dev_ifindex (skb_dev skb)) br = Some p"
    and "p_state p \<notin> {BR_STATE_LEARNING, BR_STATE_FORWARDING}" "skb_protocol skb \<noteq> ETHER_TYPE_BRCM"
  shows "runs (br_handle_frame env skb br) (\<lambda>(r, skb', br'). skb' = skb
    \<and> br' \<in> {br, emit (Kfree_skb skb) br, emit (Nf_consumed skb) br}
    \<and> (r = RX_HANDLER_PASS \<longrightarrow> br' = br \<and> (skb_pkt_type skb = PACKET_LOOPBACK \<or> is_link_local (skb_dest skb))))"
proof -
  have "distinct (port_nos br)" using if_wf_parts(3) [OF assms(1)] by (simp add: stp_wf_def)
  then have "br_get_port br (p_port_no p) = Some p" using assms(2) by (rule port_by_ifindex_deref)
  then have "br_fdb_update env (p_port_no p) (skb_source skb) br = Some br"
    using assms(3) by (rule br_fdb_update_blocked)
  then show ?thesis
    using assms(2-4) by (simp add: br_handle_frame_def handle_forward_def handle_local_def br_handle_local_finish_def Let_def)
qed

theorem blocked_port_drops_witness:
  "runs (br_handle_frame example_env example_skb example_forwarding) (\<lambda>(r, skb', br').
     br' \<in> {example_forwarding, emit (Kfree_skb example_skb) example_forwarding, emit (Nf_consumed example_skb) example_forwarding})"
proof -
  have "port_by_ifindex (dev_ifindex (skb_dev example_skb)) example_forwarding = Some (example_port 2)"
    by (simp add: port_by_ifindex_def example_skb_def example_forwarding_def upd_port_def upd_list_def example_bridge_def
        example_port_def example_dev_def)
  from blocked_port_drops [OF example_if_wf this, of example_env] show ?thesis
    by (auto simp: example_skb_def example_port_def ETHER_TYPE_BRCM_def elim!: runs_mono)
qed

section \<open>Multicast data\<close>

text \<open>The ports of the entries that want the frame, in the order of the bucket.\<close>

definition mc_members :: "net_bridge \<Rightarrow> bool \<Rightarrow> sk_buff \<Rightarrow> u32 \<Rightarrow> u32 \<Rightarrow> u16 list" where
  "mc_members br is_routed skb saddr daddr =
     map mc_dst (filter (\<lambda>e. mc_for_frame br is_routed skb daddr e \<and> mc_source_wanted saddr e)
       (b_mc_hash br (br_igmp_mc_fdb_hash br daddr)))"

text \<open>The elements in the order of their first occurrence, without those seen already.\<close>

primrec fresh :: "'a set \<Rightarrow> 'a list \<Rightarrow> 'a list" where
  "fresh seen [] = []"
| "fresh seen (x # xs) = (if x \<in> seen then fresh seen xs else x # fresh (insert x seen) xs)"

lemma set_fresh: "set (fresh seen xs) = set xs - seen"
  by (induction xs arbitrary: seen) auto

lemma distinct_fresh: "distinct (fresh seen xs)"
  by (induction xs arbitrary: seen) (simp_all add: set_fresh)

text \<open>What becomes of the copy for a port.\<close>

definition copy_effect :: "br_env \<Rightarrow> bool \<Rightarrow> sk_buff \<Rightarrow> net_bridge \<Rightarrow> u16 \<Rightarrow> br_effect" where
  "copy_effect env forward skb br n =
     (let p = the (br_get_port br n)
      in if should_deliver env br p skb = Some True
         then (if forward then br_forward_hook env p skb else br_deliver_hook env p skb) else Kfree_skb skb)"

text \<open>The bridge while the loop runs, with the ports that have had their copy marked.\<close>

definition marked :: "u16 set \<Rightarrow> net_bridge \<Rightarrow> net_bridge" where
  "marked seen br = br\<lparr>b_port_list := map (\<lambda>p. p\<lparr>p_dirty := (p_port_no p \<in> seen)\<rparr>) (b_port_list br)\<rparr>"

definition clean :: "net_bridge \<Rightarrow> bool" where
  "clean br \<longleftrightarrow> (\<forall>p \<in> set (b_port_list br). \<not> p_dirty p)"

lemma marked_port: "br_get_port (emits fx (marked seen br)) n = map_option (\<lambda>p. p\<lparr>p_dirty := (n \<in> seen)\<rparr>) (br_get_port br n)"
proof -
  have "find (\<lambda>p. p_port_no p = n) (map (\<lambda>p. p\<lparr>p_dirty := (p_port_no p \<in> seen)\<rparr>) ps)
      = map_option (\<lambda>p. p\<lparr>p_dirty := (n \<in> seen)\<rparr>) (find (\<lambda>p. p_port_no p = n) ps)" for ps
    by (induction ps) auto
  then show ?thesis by (simp add: br_get_port_def emits_def marked_def)
qed

lemma marked_mark:
  "upd_port n (\<lambda>p. p\<lparr>p_dirty := True\<rparr>) (emits fx (marked seen br)) = emits fx (marked (insert n seen) br)"
  by (simp add: upd_port_def upd_list_def emits_def marked_def)

lemma marked_same: "clean br \<Longrightarrow> marked {} br = br" "clean br \<Longrightarrow> clear_dirty (emits fx (marked seen br)) = emits fx br"
proof -
  assume "clean br"
  then have "map (\<lambda>p. p\<lparr>p_dirty := False\<rparr>) (b_port_list br) = b_port_list br"
    by (auto simp: clean_def intro!: map_idI)
  then show "marked {} br = br" "clear_dirty (emits fx (marked seen br)) = emits fx br"
    by (simp_all add: marked_def clear_dirty_def emits_def comp_def)
qed

lemma mc_copy_marked:
  assumes "clean br" "br_get_port br n = Some p" "should_deliver env br p skb \<noteq> None" "env_skb_clone env n"
  shows "mc_copy env skb forward n (emits fx (marked seen br))
    = Some (True, emits (fx @ (if n \<in> seen then [] else [copy_effect env forward skb br n])) (marked (insert n seen) br))"
proof (cases "n \<in> seen")
  case True
  then show ?thesis using assms(2) by (simp add: mc_copy_def marked_port marked_mark)
next
  case False
  obtain ok where ok: "should_deliver env br p skb = Some ok" using assms(3) by blast
  have d: "\<not> p_dirty p" using assms(1) br_get_port_SomeD [OF assms(2)] by (simp add: clean_def)
  then have p: "p\<lparr>p_dirty := False\<rparr> = p" by (cases p) simp
  have "should_deliver env (emits fx (marked seen br)) = should_deliver env br"
    by (rule should_deliver_cong) (simp add: emits_def marked_def)
  moreover have "br_get_port (emits fx (marked seen br)) n = Some p"
    unfolding marked_port assms(2) using False p by simp
  ultimately show ?thesis
    using False assms(2,4) ok d
    by (auto simp: mc_copy_def br_forward_def br_deliver_def copy_effect_def emit_eq_emits marked_mark)
qed

lemma mc_forward_loop_sends:
  assumes c: "clean br" and clone: "\<forall>n. env_skb_clone env n"
    and ok: "\<forall>p \<in> set (b_port_list br). should_deliver env br p skb \<noteq> None"
    and es: "\<forall>e \<in> set es. mc_dst e \<in> set (port_nos br) \<and> mc_excludePort e = - 1"
  shows "\<exists>st. mc_forward_loop env skb forward is_routed pip saddr daddr es status (emits fx (marked seen br))
      = Some (Inr st, emits (fx @ map (copy_effect env forward skb br)
            (fresh seen (map mc_dst (filter (\<lambda>e. mc_for_frame br is_routed skb daddr e \<and> mc_source_wanted saddr e) es))))
          (marked (seen \<union> set (map mc_dst (filter (\<lambda>e. mc_for_frame br is_routed skb daddr e \<and> mc_source_wanted saddr e) es))) br))
    \<and> (st = 0 \<longrightarrow> status = 0 \<and> filter (\<lambda>e. mc_for_frame br is_routed skb daddr e \<and> mc_source_wanted saddr e) es = [])"
  using es
proof (induction es arbitrary: status fx seen)
  case (Cons e es)
  obtain p where p: "br_get_port br (mc_dst e) = Some p" using Cons.prems br_get_port_ex [of "mc_dst e" br] by auto
  have sd: "should_deliver env br p skb \<noteq> None" using ok br_get_port_SomeD [OF p] by blast
  have cl: "env_skb_clone env (mc_dst e)" using clone by blast
  have x: "mc_excluded skb pip e = Some False" using Cons.prems by (simp add: mc_excluded_def)
  have m: "mc_for_frame (emits fx (marked seen br)) is_routed skb daddr e = mc_for_frame br is_routed skb daddr e"
    by (simp add: mc_for_frame_def emits_def marked_def)
  have es': "\<forall>e \<in> set es. mc_dst e \<in> set (port_nos br) \<and> mc_excludePort e = - 1" using Cons.prems by simp
  show ?case
  proof (cases "mc_for_frame br is_routed skb daddr e \<and> mc_source_wanted saddr e")
    case True
    show ?thesis
      using Cons.IH [OF es', of 1 "fx @ (if mc_dst e \<in> seen then [] else [copy_effect env forward skb br (mc_dst e)])" "insert (mc_dst e) seen"]
        True m x mc_copy_marked [OF c p sd cl, of forward fx seen]
      by (auto simp: insert_absorb)
  next
    case False
    show ?thesis
      using Cons.IH [OF es', of "if mc_for_frame br is_routed skb daddr e \<and> mc_filt_mode e = MCAST_EXCLUDE then 1 else status" fx seen]
        False m by (auto split: if_splits)
  qed
qed simp


text \<open>A bridge with two memberships of the group 239.1.1.1 on port 1, and a datagram to the group from
  the other port.\<close>

definition stream_group :: "u32 \<Rightarrow> net_bridge_mc_fdb_entry" where
  "stream_group src = (example_group [example_reporter 7 150000])\<lparr>mc_src := src, mc_type := MCPD_IF_TYPE_BRIDGED,
     mc_from_dev := dev_ifindex (b_dev example_forwarding)\<rparr>"

definition stream_bridge :: net_bridge where
  "stream_bridge = example_forwarding\<lparr>b_igmp_snooping := 1, b_mc_hash :=
     (\<lambda>i. if i = br_igmp_mc_fdb_hash example_forwarding 0x010101EF then [stream_group 0, stream_group 9] else [])\<rparr>"

definition stream_skb :: sk_buff where
  "stream_skb = example_skb\<lparr>skb_dest := Mac 0x01 0x00 0x5e 0x01 0x01 0x01, skb_h_proto := ETH_P_IP, skb_protocol := ETH_P_IP,
     skb_data := [0x45, 0, 0, 0, 0, 0, 0, 0, 64, 17, 0, 0, 10, 0, 0, 5, 239, 1, 1, 1] @ replicate 53 0,
     skb_pkt_type := PACKET_MULTICAST\<rparr>"

lemma stream_bridge_wf: "if_wf stream_bridge" "clean stream_bridge"
proof -
  have h: "br_igmp_mc_fdb_hash stream_bridge g = br_igmp_mc_fdb_hash example_forwarding g" for g
    by (simp add: br_igmp_mc_fdb_hash_def stream_bridge_def)
  have n: "port_nos stream_bridge = port_nos example_forwarding" by (simp add: port_nos_def stream_bridge_def)
  have "1 \<in> set (port_nos example_forwarding)"
    by (simp add: port_nos_def example_forwarding_def upd_port_def upd_list_def example_bridge_def example_port_def)
  then have "mc_wf stream_bridge"
    unfolding mc_wf_def mc_entry_ok_def h n
    by (auto simp: stream_bridge_def stream_group_def example_group_def new_mc_entry_def example_reporter_def)
  moreover have "stp_wf stream_bridge" "fdb_wf stream_bridge" "rate_wf stream_bridge"
  proof -
    let ?br = "stream_bridge\<lparr>b_mc_hash := b_mc_hash example_forwarding\<rparr>"
    have "stp_wf ?br = stp_wf example_forwarding" "fdb_wf ?br = fdb_wf example_forwarding"
      by (rule tables_wf_cong; simp add: stream_bridge_def port_nos_def)+
    moreover have "fdb_wf ?br = fdb_wf stream_bridge" by (rule mc_core_fdb_wf(1)) simp
    moreover have "stp_wf ?br = stp_wf stream_bridge" by (simp add: stp_wf_def port_nos_def)
    moreover have "rate_wf stream_bridge = rate_wf example_forwarding" by (rule rate_wf_cong) (simp_all add: stream_bridge_def)
    ultimately show "stp_wf stream_bridge" "fdb_wf stream_bridge" "rate_wf stream_bridge"
      using example_if_wf by (simp_all add: if_wf_def br_wf_def)
  qed
  ultimately have "br_wf stream_bridge" by (simp add: br_wf_def)
  then show "if_wf stream_bridge"
    by (rule if_wf_cong [OF _ n _ example_if_wf]) (simp add: if_idxs_def stream_bridge_def)
  show "clean stream_bridge"
    by (simp add: clean_def stream_bridge_def example_forwarding_def upd_port_def upd_list_def example_bridge_def example_port_def)
qed


end
