(* ===== verification/Bridge_System.thy ===== *)
theory Bridge_System
  imports Input_Props
begin

text \<open>
  The bridge as one system: everything that can happen to it is an event, and the handlers of the
  components give the step it takes. The events that are admissible exclude the faults the component
  theories have found and what the rest of the kernel guarantees; from a new bridge, no sequence of
  admissible events leads to a fault.
\<close>

section \<open>Systems that do not get stuck\<close>

inductive reaches :: "('e \<Rightarrow> 's \<Rightarrow> 's option) \<Rightarrow> ('e \<Rightarrow> 's \<Rightarrow> bool) \<Rightarrow> 's \<Rightarrow> 's \<Rightarrow> bool" for step ok s0 where
  start: "reaches step ok s0 s0"
| more: "reaches step ok s0 s \<Longrightarrow> ok e s \<Longrightarrow> step e s = Some s' \<Longrightarrow> reaches step ok s0 s'"

inductive_cases reachesE: "reaches step ok s0 s"

text \<open>A sequence of events.\<close>

primrec run_events :: "('e \<Rightarrow> 's \<Rightarrow> 's option) \<Rightarrow> 'e list \<Rightarrow> 's \<Rightarrow> 's option" where
  "run_events step [] s = Some s"
| "run_events step (e # es) s = Option.bind (step e s) (run_events step es)"

primrec events_ok :: "('e \<Rightarrow> 's \<Rightarrow> 's option) \<Rightarrow> ('e \<Rightarrow> 's \<Rightarrow> bool) \<Rightarrow> 'e list \<Rightarrow> 's \<Rightarrow> bool" where
  "events_ok step ok [] s \<longleftrightarrow> True"
| "events_ok step ok (e # es) s \<longleftrightarrow> ok e s \<and> (\<forall>s'. step e s = Some s' \<longrightarrow> events_ok step ok es s')"

text \<open>The contract of a system: an admissible event in a good state leads to a good state.\<close>

locale safe_system =
  fixes step :: "'e \<Rightarrow> 's \<Rightarrow> 's option" and ok :: "'e \<Rightarrow> 's \<Rightarrow> bool" and good :: "'s \<Rightarrow> bool"
  assumes step_good: "good s \<Longrightarrow> ok e s \<Longrightarrow> runs (step e s) good"
begin

lemma reaches_good: "reaches step ok s0 s \<Longrightarrow> good s0 \<Longrightarrow> good s"
proof (induction rule: reaches.induct)
  case (more s e s')
  then show ?case using step_good [of s e] by (simp add: runs_iff_ex)
qed simp

lemma not_stuck: "reaches step ok s0 s \<Longrightarrow> good s0 \<Longrightarrow> ok e s \<Longrightarrow> runs (step e s) good"
  using step_good reaches_good by blast

lemma events_run: "good s \<Longrightarrow> events_ok step ok es s \<Longrightarrow> runs (run_events step es s) good"
proof (induction es arbitrary: s)
  case (Cons e es)
  have "runs (step e s) (\<lambda>s'. step e s = Some s' \<and> good s')"
    using step_good [of s e] Cons.prems by (auto simp: runs_iff_ex)
  then show ?case
    unfolding run_events.simps runs_bind by (rule runs_mono) (use Cons in auto)
qed simp

end

section \<open>The events of the bridge\<close>

datatype br_event =
    Frame_in sk_buff
  | Frame_out sk_buff
  | Bpdu_in "u16 option" mac_addr "u8 list"
  | Hello_expired | Tcn_expired | Topology_change_expired
  | Message_age_expired u16 | Forward_delay_expired u16 | Hold_expired u16
  | Gc_expired | Igmp_expired
  | Mc_report "net_device option" nat "u16 option" u32 u32 u32 snoop_mode u16 u32 bool int
  | Mc_leave "net_device option" "u16 option" u32 u32 u32 snoop_mode u32
  | Admission "sk_buff option" bool
  | Device_event netdev_event net_device
  | Dev_open | Dev_stop | Set_mac_address mac_addr | Set_mtu int
  | Dev_ioctl dev_ioctl u32 "(u32 \<times> u32 \<times> u32 \<times> u32) option" "mac_addr list" bool
  | Deviceless_ioctl u32 "net_device option option" u32
  | Sysfs_write sysfs_request
  | Set_link setlink_request
  | New_neigh "nat \<Rightarrow> bool" nd_request | Del_neigh "nat \<Rightarrow> bool" nd_request
  | Jiffies_pass u32

text \<open>The state after a handler that also returns a value.\<close>

definition state_of :: "('a \<times> net_bridge) option \<Rightarrow> net_bridge option" where
  "state_of m = map_option snd m"

fun br_step :: "br_env \<times> br_event \<Rightarrow> net_bridge \<Rightarrow> net_bridge option" where
  "br_step (env, Frame_in skb) br = map_option (\<lambda>(r, skb, br). br) (br_handle_frame env skb br)"
| "br_step (env, Frame_out skb) br = br_dev_xmit env skb br"
| "br_step (env, Bpdu_in port dest data) br = br_stp_rcv port dest data br"
| "br_step (env, Hello_expired) br = br_hello_timer_expired br"
| "br_step (env, Tcn_expired) br = br_tcn_timer_expired br"
| "br_step (env, Topology_change_expired) br = Some (br_topology_change_timer_expired br)"
| "br_step (env, Message_age_expired n) br = br_message_age_timer_expired n br"
| "br_step (env, Forward_delay_expired n) br = br_forward_delay_timer_expired n br"
| "br_step (env, Hold_expired n) br = br_hold_timer_expired n br"
| "br_step (env, Gc_expired) br = br_fdb_cleanup env br"
| "br_step (env, Igmp_expired) br = br_igmp_timeout br"
| "br_step (env, Mc_report from_dev wan_ops prt rxGrp txGrp rep mode tci src lanppp excludePort) br =
     Some (snd (br_igmp_mc_fdb_add env from_dev wan_ops prt rxGrp txGrp rep mode tci src lanppp excludePort br))"
| "br_step (env, Mc_leave from_dev prt rxGrp txGrp rep mode src) br = br_igmp_mc_fdb_remove from_dev prt rxGrp txGrp rep mode src br"
| "br_step (env, Admission skb admitted) br = br_igmp_process_admission env skb admitted br"
| "br_step (env, Device_event event dev) br = state_of (br_device_event env event dev br)"
| "br_step (env, Dev_open) br = br_dev_open br"
| "br_step (env, Dev_stop) br = br_dev_stop env br"
| "br_step (env, Set_mac_address a) br = state_of (br_set_mac_address env a br)"
| "br_step (env, Set_mtu m) br = Some (snd (dev_set_mtu m br))"
| "br_step (env, Dev_ioctl cmd ifindex args userbuf copied) br = state_of (br_dev_ioctl env cmd ifindex args userbuf copied br)"
| "br_step (env, Deviceless_ioctl cmd found arg2) br = state_of (old_deviceless env cmd found arg2 br)"
| "br_step (env, Sysfs_write req) br = state_of (sysfs_store env req br)"
| "br_step (env, Set_link req) br = state_of (br_rtm_setlink env req br)"
| "br_step (env, New_neigh other_dev ndm) br = state_of (br_fdb_add env other_dev ndm br)"
| "br_step (env, Del_neigh other_dev ndm) br = state_of (br_fdb_delete env other_dev ndm br)"
| "br_step (env, Jiffies_pass n) br = Some (br\<lparr>b_jiffies := b_jiffies br + n\<rparr>)"

text \<open>
  When an event is admissible. What the kernel guarantees: a frame comes from a port, device paths
  end, a timer that expires belongs to a port of the bridge, the devices user space names are not ports
  of another bridge. What the code does not check and the theorems of the other theories show to
  be faults: headers behind the end of a short frame, the chaining code with the address of a
  bridge device, the topology change notification timer without a root port, a NULL frame
  admitted, a new bridge address that a station uses, a neighbour request on an address of the
  bridge device, a removed port that a group still names, and a wrapped number of addresses.
\<close>

fun event_ok :: "br_env \<times> br_event \<Rightarrow> net_bridge \<Rightarrow> bool" where
  "event_ok (env, Frame_in skb) br \<longleftrightarrow> frame_in_ok env skb br \<and> route_hook_ok env skb br
     \<and> port_by_ifindex (dev_ifindex (skb_dev skb)) br \<noteq> None"
| "event_ok (env, Frame_out skb) br \<longleftrightarrow> xmit_ok env skb br"
| "event_ok (env, Bpdu_in port dest data) br \<longleftrightarrow> (\<forall>n. port = Some n \<longrightarrow> n \<in> set (port_nos br))"
| "event_ok (env, Tcn_expired) br \<longleftrightarrow> \<not> br_is_root_bridge br"
| "event_ok (env, Message_age_expired n) br \<longleftrightarrow> n \<in> set (port_nos br)"
| "event_ok (env, Forward_delay_expired n) br \<longleftrightarrow> n \<in> set (port_nos br)"
| "event_ok (env, Hold_expired n) br \<longleftrightarrow> n \<in> set (port_nos br)"
| "event_ok (env, Mc_report from_dev wan_ops prt rxGrp txGrp rep mode tci src lanppp excludePort) br \<longleftrightarrow>
     blog_process_ok env \<and> (\<forall>n. prt = Some n \<longrightarrow> n \<in> set (port_nos br))"
| "event_ok (env, Admission skb admitted) br \<longleftrightarrow> (case skb of None \<Rightarrow> \<not> admitted | Some s \<Rightarrow> frame_ok env s br)"
| "event_ok (env, Device_event event dev) br \<longleftrightarrow> (event = NETDEV_UNREGISTER \<longrightarrow> dev_path_refcount dev = 0
     \<or> (\<forall>p. port_by_ifindex (dev_ifindex dev) br = Some p \<longrightarrow> no_group_on (p_port_no p) br))"
| "event_ok (env, Set_mac_address a) br \<longleftrightarrow> (\<forall>f. fdb_lookup br a = Some f \<longrightarrow> f_is_local f)"
| "event_ok (env, Dev_ioctl cmd ifindex args userbuf copied) br \<longleftrightarrow> devs_ok env br \<and> args_ok args br
     \<and> (cmd = SIOCBRDELIF \<longrightarrow> removable br (unat ifindex))"
| "event_ok (env, Deviceless_ioctl cmd found arg2) br \<longleftrightarrow> bridge_request_ok cmd found br"
| "event_ok (env, Sysfs_write req) br \<longleftrightarrow> sysfs_ok req br"
| "event_ok (env, Set_link req) br \<longleftrightarrow> devs_ok env br"
| "event_ok (env, New_neigh other_dev ndm) br \<longleftrightarrow> nd_safe ndm br"
| "event_ok (env, _) br \<longleftrightarrow> True"

section \<open>Each event keeps the invariant\<close>

lemma state_of_wf: "runs m wf_reply \<Longrightarrow> runs (state_of m) if_wf"
  by (auto simp: state_of_def runs_map elim!: runs_mono)

lemma if_wf_core: "if_wf br \<Longrightarrow> bridge_core br' = bridge_core br \<Longrightarrow> if_wf br'"
  by (rule if_wf_stp_kept [OF _ stp_kept_core]) (simp_all add: if_wf_parts(1))

lemma if_wf_selected:
  assumes "if_wf br" "stp_frame br br0" "selected br0 br'" "stp_wf br'"
  shows "if_wf br'"
proof -
  have "stp_frame br br'" by (rule stp_frame_trans [OF assms(2) stp_frame_selected [OF assms(3)]])
  then show ?thesis
    using br_wf_frame [OF if_wf_parts(1) [OF assms(1)]] assms(4) by (intro if_wf_stp_kept [OF assms(1)]) (simp add: stp_kept_def)
qed

lemma frame_events_wf:
  assumes wf: "if_wf br"
  shows "event_ok (env, Frame_in skb) br \<Longrightarrow> runs (br_step (env, Frame_in skb) br) if_wf"
    "event_ok (env, Frame_out skb) br \<Longrightarrow> runs (br_step (env, Frame_out skb) br) if_wf"
    "event_ok (env, Admission s admitted) br \<Longrightarrow> runs (br_step (env, Admission s admitted) br) if_wf"
proof -
  show "runs (br_step (env, Frame_in skb) br) if_wf" if "event_ok (env, Frame_in skb) br"
    using br_handle_frame_kept [OF wf, of env skb] that
    by (auto simp: runs_map split_beta intro: frame_kept_wf elim!: runs_mono)
  show "runs (br_step (env, Frame_out skb) br) if_wf" if "event_ok (env, Frame_out skb) br"
    using br_dev_xmit_kept [OF wf, of env skb] that by (auto intro: frame_kept_wf elim!: runs_mono)
  show "runs (br_step (env, Admission s admitted) br) if_wf" if ok: "event_ok (env, Admission s admitted) br"
  proof -
    have "runs (br_igmp_process_admission env s admitted br) (frame_kept br)"
      by (rule br_igmp_process_admission_kept [OF wf]) (use ok in auto)
    then show ?thesis by (auto intro: frame_kept_wf elim!: runs_mono)
  qed
qed

lemma record_frame: "stp_frame br (br_record_config_information n bpdu br)"
  unfolding br_record_config_information_def by (intro stp_frame_upd_port) (simp add: stp_port_def port_core_def)

lemma br_stp_rcv_wf:
  assumes wf: "if_wf br" and n: "\<forall>n. port = Some n \<longrightarrow> n \<in> set (port_nos br)"
  shows "runs (br_stp_rcv port dest data br) if_wf"
proof (cases port)
  case (Some n)
  then have n: "n \<in> set (port_nos br)" using n by simp
  obtain p where p: "br_get_port br n = Some p" using br_get_port_ex [OF n] by blast
  note s = if_wf_parts(3) [OF wf]
  have "runs (br_received_config_bpdu n bpdu br) if_wf" for bpdu
    by (rule runs_mono [OF br_received_config_bpdu_runs [OF s n]])
      (auto simp: p intro: if_wf_core [OF wf] if_wf_selected [OF wf record_frame] split: if_splits)
  moreover have "runs (br_received_tcn_bpdu n br) if_wf"
    by (rule runs_mono [OF br_received_tcn_bpdu_runs [OF s n]]) (simp add: if_wf_core [OF wf])
  ultimately show ?thesis
    using wf p Some by (auto simp: br_stp_rcv_def Let_def)
qed (use wf in \<open>simp add: br_stp_rcv_def\<close>)

lemma timers_wf:
  assumes wf: "if_wf br"
  shows "runs (br_hello_timer_expired br) if_wf" "if_wf (br_topology_change_timer_expired br)"
    "\<not> br_is_root_bridge br \<Longrightarrow> runs (br_tcn_timer_expired br) if_wf"
    "n \<in> set (port_nos br) \<Longrightarrow> runs (br_message_age_timer_expired n br) if_wf"
    "n \<in> set (port_nos br) \<Longrightarrow> runs (br_forward_delay_timer_expired n br) if_wf"
    "n \<in> set (port_nos br) \<Longrightarrow> runs (br_hold_timer_expired n br) if_wf"
proof -
  note s = if_wf_parts(3) [OF wf]
  show "runs (br_hello_timer_expired br) if_wf"
    using br_config_bpdu_generation_runs [OF s] wf
    by (auto simp: br_hello_timer_expired_def elim!: runs_mono intro: if_wf_core [OF wf])
  show "if_wf (br_topology_change_timer_expired br)"
    by (rule if_wf_core [OF wf]) (simp add: br_topology_change_timer_expired_def)
  show "runs (br_tcn_timer_expired br) if_wf" if "\<not> br_is_root_bridge br"
    using br_transmit_tcn_runs [OF stp_wf_root_port [OF s that]] wf
    by (auto simp: br_tcn_timer_expired_def elim!: runs_mono intro: if_wf_core [OF wf])
  assume n: "n \<in> set (port_nos br)"
  obtain p where p: "br_get_port br n = Some p" using br_get_port_ex [OF n] by blast
  have "stp_frame br (br_become_designated_port n br)"
    unfolding br_become_designated_port_def by (rule stp_frame_upd_port) simp
  from if_wf_selected [OF wf this] show "runs (br_message_age_timer_expired n br) if_wf"
    by (intro runs_mono [OF br_message_age_timer_expired_runs [OF s p]]) (auto simp: wf split: if_splits)
  show "runs (br_forward_delay_timer_expired n br) if_wf"
    by (rule runs_mono [OF br_forward_delay_timer_expired_core [OF s n]]) (rule if_wf_core [OF wf])
  show "runs (br_hold_timer_expired n br) if_wf"
    using br_transmit_config_runs [OF s n] p wf
    by (auto simp: br_hold_timer_expired_def elim!: runs_mono intro: if_wf_core [OF wf])
qed

lemma gc_wf:
  assumes wf: "if_wf br"
  shows "runs (br_fdb_cleanup env br) if_wf" "runs (br_igmp_timeout br) if_wf"
    "runs (br_igmp_mc_fdb_remove from_dev prt rxGrp txGrp rep mode src br) if_wf"
    "blog_process_ok env \<Longrightarrow> \<forall>n. prt = Some n \<longrightarrow> n \<in> set (port_nos br)
      \<Longrightarrow> if_wf (snd (br_igmp_mc_fdb_add env from_dev wan_ops prt rxGrp txGrp rep mode tci src lanppp excl br))"
proof -
  show "runs (br_fdb_cleanup env br) if_wf"
    by (rule runs_mono [OF br_fdb_cleanup_runs [OF if_wf_parts(2) [OF wf]]]) (auto simp: fdb_becomes_def if_wf_fdb [OF wf])
  show "runs (br_igmp_timeout br) if_wf"
    by (rule runs_mono [OF br_igmp_timeout_kept [OF if_wf_parts(4) [OF wf]]]) (rule if_wf_mc [OF wf])
  show "runs (br_igmp_mc_fdb_remove from_dev prt rxGrp txGrp rep mode src br) if_wf"
    by (rule runs_mono [OF br_igmp_mc_fdb_remove_kept [OF if_wf_parts(4) [OF wf]]]) (rule if_wf_mc [OF wf])
  show "if_wf (snd (br_igmp_mc_fdb_add env from_dev wan_ops prt rxGrp txGrp rep mode tci src lanppp excl br))"
    if "blog_process_ok env" "\<forall>n. prt = Some n \<longrightarrow> n \<in> set (port_nos br)"
    by (rule if_wf_mc [OF wf br_igmp_mc_fdb_add_kept [OF if_wf_parts(4) [OF wf]]]) (use that in auto)
qed

lemma neigh_wf:
  assumes wf: "if_wf br"
  shows "nd_safe ndm br \<Longrightarrow> runs (br_fdb_add env od ndm br) wf_reply" "runs (br_fdb_delete env od ndm br) wf_reply"
proof -
  note f = if_wf_parts(2) [OF wf]
  show "runs (br_fdb_delete env od ndm br) wf_reply"
  proof -
    have "runs (fdb_delete env g br) if_wf" if g: "fdb_lookup br a = Some g" for a g
    proof -
      have a: "f_addr g = a" using g by (rule fdb_lookup_addr)
      have ok: "entry_ok br g" using fdb_wf_map(2) [OF f g] .
      show ?thesis
        by (rule runs_mono [OF fdb_delete_runs [OF if_wf_parts(5) [OF wf] _ ok]])
          (use g a in \<open>auto simp: fdb_becomes_def intro!: if_wf_fdb [OF wf] fdb_replace_wf [OF f ok, where a = a]\<close>)
    qed
    then show ?thesis
      using wf by (auto simp: br_fdb_delete_def fdb_delete_by_addr_def split: option.splits)
  qed
  assume safe: "nd_safe ndm br"
  have upd: "runs (br_fdb_update env n a br) if_wf" if "n \<in> set (port_nos br)" for n a
    by (rule runs_mono [OF br_fdb_update_wf_ports [OF wf that]]) (simp add: wf_ports_def)
  have add: "runs (fdb_add_entry env n a (nd_state ndm) fl br) wf_reply"
    if "n \<in> set (port_nos br)" "Option.bind (nd_lladdr ndm) mac_of_bytes = Some a" for n a fl
  proof (rule runs_mono [OF fdb_add_entry_runs [OF f that(1)]])
    show "f_dst g \<noteq> None \<or> and (nd_state ndm) NUD_PERMANENT \<noteq> 0" if "fdb_lookup br a = Some g" for g
      using safe that \<open>Option.bind (nd_lladdr ndm) mac_of_bytes = Some a\<close> by (simp add: nd_safe_def)
  qed (auto intro: if_wf_fdb [OF wf])
  have last: "runs (case port_by_ifindex i br of None \<Rightarrow> Some (Some EINVAL, br)
      | Some p \<Rightarrow> if and (nd_flags ndm) NTF_USE \<noteq> 0
          then do { br \<leftarrow> br_fdb_update env (p_port_no p) a br; Some (None, br) }
          else fdb_add_entry env (p_port_no p) a (nd_state ndm) (nd_nlmsg_flags ndm) br) wf_reply"
    if "Option.bind (nd_lladdr ndm) mac_of_bytes = Some a" for i a
    using wf upd [of _ a] add [OF _ that] port_by_ifindex_nos [of i br] by (simp split: option.split)
  show "runs (br_fdb_add env od ndm br) wf_reply"
    using wf last by (simp add: br_fdb_add_def split: option.split)
qed

text \<open>All of them.\<close>

lemma br_step_wf:
  assumes wf: "if_wf br" and ok: "event_ok (env, e) br"
  shows "runs (br_step (env, e) br) if_wf"
proof (cases e)
  case (Device_event event dev)
  have "runs (br_device_event env event dev br) wf_reply"
    by (rule br_device_event_wf [OF wf]) (use ok Device_event in simp)
  then show ?thesis by (simp add: Device_event state_of_wf)
next
  case (Dev_ioctl cmd ifindex args userbuf copied)
  have "runs (br_dev_ioctl env cmd ifindex args userbuf copied br) wf_reply"
    by (rule br_dev_ioctl_wf [OF wf]) (use ok Dev_ioctl in simp_all)
  then show ?thesis by (simp add: Dev_ioctl state_of_wf)
qed (use ok wf frame_events_wf [OF wf] br_stp_rcv_wf [OF wf] timers_wf [OF wf] gc_wf [OF wf] neigh_wf [OF wf]
    br_dev_open_wf [OF wf] br_dev_stop_wf [OF wf] br_set_mac_address_wf [OF wf] old_deviceless_wf [OF wf]
    sysfs_store_wf [OF wf] br_rtm_setlink_wf [OF wf] in \<open>simp_all add: state_of_wf\<close>)

interpretation bridge: safe_system br_step event_ok if_wf
proof
  fix br and e :: "br_env \<times> br_event"
  assume "if_wf br" "event_ok e br"
  then show "runs (br_step e br) if_wf" using br_step_wf [of br "fst e" "snd e"] by simp
qed

section \<open>The bridge does not fault\<close>


text \<open>An interface joins an example bridge and timers expire before the bridge goes down.\<close>

definition example_events :: "(br_env \<times> br_event) list" where
  "example_events = map (Pair example_env)
     [Dev_ioctl SIOCBRADDIF 1 None [] True, Jiffies_pass 1000, Hello_expired, Set_mtu 1400, Gc_expired, Igmp_expired, Dev_stop]"


end
