(* ===== verification/Spec2Isabelle.thy ===== *)
theory Spec2Isabelle
  imports Bridge_System
begin

text \<open>
  \<^bold>\<open>The Ethernet bridge of the router's kernel\<close>

  The library models the bridge of the router's Linux 3.4 kernel with its vendor changes
  (\<open>src/kernel/linux-3.4rt/net/bridge\<close>), as \<open>.config\<close> builds it: ARM, little endian, 32 bits,
  \<open>HZ = 1000\<close>, with the vendor's IGMP snooping, flow cache hooks, static and dynamic forwarding entries, port
  isolation and loop detection, and without the stock multicast snooping, bridge netfilter and VLAN
  aggregation.

  \<^bold>\<open>The program and its parts.\<close> A bridge is a device with ports. A frame that arrives on a port
  (\<open>br_input.c\<close>) is dropped, handed to the stack or forwarded (\<open>br_forward.c\<close>) to the port the forwarding
  database (\<open>br_fdb.c\<close>) knows for its destination, to the members of its multicast group (\<open>br_igmp.c\<close>), or
  to all ports. Which ports forward is what the spanning tree protocol decides (\<open>br_stp.c\<close>, with
  \<open>br_stp_bpdu.c\<close>, \<open>br_stp_timer.c\<close>, \<open>br_stp_if.c\<close>). Ports and bridges come and go through
  \<open>br_if.c\<close>, \<open>br_device.c\<close> and \<open>br_notify.c\<close>, and user space configures them through ioctls
  (\<open>br_ioctl.c\<close>), sysfs (\<open>br_sysfs_br.c\<close>, \<open>br_sysfs_if.c\<close>) and netlink (\<open>br_netlink.c\<close>, part of
  \<open>br_fdb.c\<close>).

  \<^bold>\<open>How it is modelled.\<close> The state is the record \<open>net_bridge\<close> of \<open>struct net_bridge\<close> with its list of
  \<open>net_bridge_port\<close>; a pointer to a port is its number, and following a pointer to a port that is not there is a
  fault. A C function that can fault returns an option, \<open>None\<close> being the fault; one that returns an error
  returns an \<open>errno\<close> with the state. What leaves the bridge (frames, notifications, netlink
  messages, log lines with a side condition) is appended to \<open>b_out\<close>. Machine integers are words of their width,
  jiffies wrap. Code outside the bridge (allocation, device drivers, the flow cache, the packet filter, the
  multicast daemon, user memory) enters through the fields of \<open>br_env\<close>, a parameter of the operations.
  \<open>runs m Q\<close> is total correctness: \<open>m\<close> does not fault, and \<open>Q\<close> holds of its result.

  \<^bold>\<open>Theories.\<close>
  \<^item> \<open>Kernel_Prelude\<close>, \<open>Bridge_Types\<close>: machine types, \<open>runs\<close> and its rules, loops, the jiffies
    comparisons and timers, the structures of \<open>br_private.h\<close>, and the environment.
  \<^item> \<open>Stp_Bpdu\<close>, \<open>Stp\<close>, \<open>Stp_States\<close>, \<open>Stp_Root\<close>, \<open>Stp_Rcv\<close>: the wire format of
    configuration messages and the protocol (\<open>br_stp_bpdu.c\<close>, \<open>br_stp.c\<close>). Root selection picks the best
    candidate, the roles settle, the loop over the port states equals a port-wise reference, a better root is
    adopted, and a message sent is the message received.
  \<^item> \<open>Stp_Timer\<close>, \<open>Stp_If\<close>, \<open>Stp_If_Props\<close>: the timers and the administration
    (\<open>br_stp_timer.c\<close>, \<open>br_stp_if.c\<close>), with what each timer brings about and the fault of the topology
    change timer.
  \<^item> \<open>Fdb\<close>, \<open>Fdb_Table\<close>, \<open>Fdb_Inv\<close>, \<open>Fdb_Ops\<close>, \<open>Fdb_Props\<close>, \<open>Fdb_Netlink\<close>: the forwarding
    database. The chained hash table implements a map (locale \<open>mac_table\<close> and its interpretation); learning,
    ageing, deletion, the netlink requests and the dump are stated on that map.
  \<^item> \<open>Igmp_Db\<close>, \<open>Igmp_Inv\<close>, \<open>Igmp_Props\<close>, \<open>Igmp_Forward\<close>: the group table with its timer (the sweeps over it share the locale
    \<open>mc_action\<close>), and multicast
    forwarding (\<open>br_igmp.c\<close>, \<open>br_mcast.c\<close>, \<open>mcpd_process_skb\<close>).
  \<^item> \<open>Bridge_If\<close>, \<open>Bridge_If_Inv\<close>, \<open>Bridge_If_Props\<close>: ports and bridge devices. \<open>if_wf\<close> is the
    invariant of the whole bridge.
  \<^item> \<open>Netdev_Path\<close>, \<open>Forward\<close>, \<open>Forward_Props\<close>: paths of stacked devices and sending frames.
    Flooding with its delayed copy sends one frame to each eligible port.
  \<^item> \<open>Input\<close>, \<open>Igmp_Rate\<close>, \<open>Input_Inv\<close>, \<open>Input_Props\<close>: receiving frames and \<open>br_dev_xmit\<close>. The rate limit
    of IGMP messages is bounded, a port that does not forward drops, and multicast data goes once to
    every port that wants it.
  \<^item> \<open>Ioctl\<close>, \<open>Ioctl_Inv\<close>, \<open>Ioctl_Props\<close>, \<open>Sysfs\<close>, \<open>Sysfs_Props\<close>: the configuration front ends, with
    the parsing of numbers. A caller without privileges changes nothing except through the two requests
    that forget to ask.
  \<^item> \<open>Bridge_System\<close>: all of it as one system of events; from a new bridge no sequence of
    admissible events faults (locale \<open>safe_system\<close> and its interpretation).

  \<^bold>\<open>Loops and bounds.\<close> Loops over lists are structural. The walk down a path of devices is the only loop the
  bridge does not bound; it is a \<open>partial_function\<close>, and its result is proved for paths built as the
  comments ask. No theorem depends on fuel.

  \<^bold>\<open>Not modelled.\<close>
  \<^item> Locks, RCU and interleaving on several processors: an operation is one step, as its lock makes it.
    Statistics, device features, reference counts and log lines without a side condition.
  \<^item> \<open>br_mld.c\<close>, the twin of \<open>br_igmp.c\<close> for IPv6: its answer for a frame is a parameter.
  \<^item> \<open>br_multicast.c\<close> and \<open>br_netfilter.c\<close>: not built.
  \<^item> \<open>netfilter/ebtables.c\<close>: the packet filter's verdict on a frame is a parameter.
  \<^item> \<open>br_flows.c\<close>, \<open>br_fp.c\<close> and \<open>br_mcast_blog_process\<close>: the rules of the flow cache and the packet
    processor live outside the bridge; what comes back from them is a parameter.
  \<^item> The unpacking of netlink messages in \<open>br_netlink_mcpd.c\<close> and their writing in \<open>br_netlink.c\<close>,
    and \<open>br.c\<close>, which registers the module: input and output without state of their own.
\<close>

end
